theory Spec2Isabelle
  imports Main "HOL-Library.Word" "HOL-Library.Signed_Division"
begin

section \<open>Data model (printf\_definitions.h)\<close>

text \<open>
  The printf family of \<^verbatim>\<open>printf.c\<close>, \<^verbatim>\<open>printf_format.c\<close>,
  \<^verbatim>\<open>printf_arguments.c\<close> and \<^verbatim>\<open>printf_basic_output.c\<close>, embedded
  function by function. Conventions of the embedding:
  \<^item> the platform is LP64: \<^verbatim>\<open>int\<close> has 32 bits; \<^verbatim>\<open>long\<close>, \<^verbatim>\<open>long long\<close>,
    \<^verbatim>\<open>intmax_t\<close>, \<^verbatim>\<open>size_t\<close> and \<^verbatim>\<open>ptrdiff_t\<close> have 64 bits;
  \<^item> values of type \<^verbatim>\<open>int\<close> are HOL integers; where the source can overflow an
    \<^verbatim>\<open>int\<close> (\<^verbatim>\<open>format_string_atoi\<close>, the doubling of \<^verbatim>\<open>pia_check_size_and_update\<close>)
    the C program has no defined behaviour and the model gives \<open>None\<close>;
  \<^item> \<^verbatim>\<open>size_t\<close> counters (\<^verbatim>\<open>characters_written\<close>, \<^verbatim>\<open>allocated_size\<close>) are natural
    numbers: wrapping one takes \<open>2 ^ 64\<close> increments;
  \<^item> a function that returns \<^verbatim>\<open>bool\<close> and mutates the objects it points to returns
    \<open>Inr\<close> of the new machine state for \<^verbatim>\<open>true\<close>, \<open>Inl (Failed s)\<close> for
    \<^verbatim>\<open>false\<close> (with the state \<open>s\<close> it leaves behind), and \<open>Inl Undefined\<close> where
    the C program has no defined behaviour (a null stream, a store outside a block, a
    \<^verbatim>\<open>va_arg\<close> of the wrong type).
\<close>

datatype format_error =
    FORMAT_okay
  | FORMAT_ERROR_no_positional_width
  | FORMAT_ERROR_no_positional_precision
  | FORMAT_ERROR_unknown_type
  | FORMAT_ERROR_incompatible_length_type
  | FORMAT_WARNING_flag_does_nothing
  | FORMAT_WARNING_repeat_flag
  | FORMAT_WARNING_width_does_nothing
  | FORMAT_WARNING_precision_does_nothing
  | FORMAT_WARNING_does_not_print

datatype format_string_types =
    TYPE_d | TYPE_i | TYPE_u | TYPE_o | TYPE_x | TYPE_X | TYPE_f | TYPE_F
  | TYPE_e | TYPE_E | TYPE_g | TYPE_G | TYPE_a | TYPE_A | TYPE_c | TYPE_s
  | TYPE_p | TYPE_n | TYPE_ERROR

datatype format_string_lengths =
    LENGTH_none | LENGTH_hh | LENGTH_h | LENGTH_l | LENGTH_ll | LENGTH_j
  | LENGTH_z | LENGTH_t | LENGTH_L

datatype printf_output_type =
    OUTPUT_file_descriptor | OUTPUT_stream | OUTPUT_string | OUTPUT_allocated_string

text \<open>
  \<^verbatim>\<open>struct output_specifier_struct\<close>. A \<^verbatim>\<open>FILE *\<close> is a stream number, a
  \<^verbatim>\<open>char *\<close> is an offset from the base of the one buffer the call writes to;
  \<open>None\<close> is the null pointer.
\<close>

record output_specifier =
  type_out :: printf_output_type
  stream :: "nat option"
  fd :: int
  string :: "nat option"
  allocated_size :: nat
  character_limit :: nat
  characters_written :: nat

text \<open>\<^verbatim>\<open>struct format_specifier_struct\<close>.\<close>

record format_specifier =
  input_length :: nat
  left_justify :: bool
  always_sign :: bool
  empty_sign :: bool
  alternate_form :: bool
  zero_padded :: bool
  preceding_width :: int
  width :: nat
  preceding_precision :: int
  precision :: int
  length_fs :: format_string_lengths
  type_fs :: format_string_types
  position :: int

text \<open>
  One argument of the variadic pack, by the class \<^verbatim>\<open>va_arg\<close> reads it with:
  a 32-bit integer, a 64-bit integer, a double, a string (\<open>None\<close> is the null pointer)
  or another pointer (an address, \<open>0\<close> is the null pointer).
\<close>

datatype va_arg =
    VA_int "32 word"
  | VA_long "64 word"
  | VA_double
  | VA_string "char list option"
  | VA_pointer nat

text \<open>
  \<^verbatim>\<open>struct struct_positional_info\<close>: \<open>item\<close> is the address of the heap cell that
  owns the value, \<open>None\<close> the null pointer.
\<close>

record positional_info =
  length_pi :: format_string_lengths
  type_pi :: format_string_types
  item :: "nat option"

text \<open>
  \<^verbatim>\<open>struct struct_positional_info_array\<close>: the pointer \<open>array\<close> is the address of
  its block (\<open>array_block\<close>) and the elements stored there (\<open>array\<close>).
\<close>

record positional_info_array =
  size_pia :: nat
  array_block :: "nat option"
  array :: "positional_info list"

text \<open>A heap cell: the value a positional slot owns, or the block of the slot table.\<close>

datatype cell = Cell_item va_arg | Cell_array

text \<open>
  The machine state: the \<^verbatim>\<open>output_specifier\<close> the entry point builds, and the world
  around it.
  \<^item> \<open>stream_out\<close> and \<open>fd_out\<close> log every character \<^verbatim>\<open>putc\<close> and \<^verbatim>\<open>write\<close>
    delivered, with the stream or descriptor it went to;
  \<^item> \<open>io_budget\<close> is the number of \<^verbatim>\<open>putc\<close>/\<^verbatim>\<open>write\<close> calls that still succeed
    (\<open>None\<close>: all of them);
  \<^item> \<open>memory\<close> holds the bytes stored through \<^verbatim>\<open>output->string\<close>, by offset;
  \<^item> \<open>block_size\<close> is the size \<^verbatim>\<open>malloc\<close>/\<^verbatim>\<open>realloc\<close> really gave the block of
    the growable sink (\<open>None\<close>: no live block);
  \<^item> \<open>alloc_budget\<close> is the number of allocations that still succeed;
  \<^item> \<open>heap\<close> holds the other allocated cells by address, \<open>None\<close> once freed;
  \<^item> \<open>valist\<close> is the rest of the variadic pack;
  \<^item> \<open>n_store\<close> logs the stores of \<^verbatim>\<open>%n\<close>: address and value stored.
\<close>

record machine = output_specifier +
  stream_out :: "(nat \<times> char) list"
  fd_out :: "(int \<times> char) list"
  io_budget :: "nat option"
  memory :: "nat \<rightharpoonup> char"
  block_size :: "nat option"
  alloc_budget :: "nat option"
  heap :: "cell option list"
  valist :: "va_arg list"
  n_store :: "(nat \<times> int) list"

datatype 's error = Failed 's | Undefined

type_synonym result = "machine error + machine"

definition and_then :: "'e + 'a \<Rightarrow> ('a \<Rightarrow> 'e + 'b) \<Rightarrow> 'e + 'b" where
  "and_then m f = (case m of Inl e \<Rightarrow> Inl e | Inr a \<Rightarrow> f a)"

definition INT_MAX :: int where "INT_MAX = 2147483647"
definition INT_MIN :: int where "INT_MIN = - 2147483648"
definition SIZE_MAX :: nat where "SIZE_MAX = 18446744073709551615"
definition BASE_ALLOCATED_STRING_SIZE :: nat where "BASE_ALLOCATED_STRING_SIZE = 16"
definition DEFAULT_PIA_SIZE :: nat where "DEFAULT_PIA_SIZE = 8"

section \<open>The sinks (printf.c)\<close>

text \<open>One call of \<^verbatim>\<open>putc\<close> or \<^verbatim>\<open>write\<close>: does the budget let it succeed?\<close>

definition io_succeeds :: "machine \<Rightarrow> bool" where
  "io_succeeds out = (io_budget out \<noteq> Some 0)"

definition io_spend :: "machine \<Rightarrow> machine" where
  "io_spend out = out\<lparr>io_budget := map_option (\<lambda>n. n - 1) (io_budget out)\<rparr>"

definition alloc_succeeds :: "machine \<Rightarrow> bool" where
  "alloc_succeeds out = (alloc_budget out \<noteq> Some 0)"

definition alloc_spend :: "machine \<Rightarrow> machine" where
  "alloc_spend out = out\<lparr>alloc_budget := map_option (\<lambda>n. n - 1) (alloc_budget out)\<rparr>"

definition printf_output_sprintf :: "machine \<Rightarrow> char \<Rightarrow> result" where
  "printf_output_sprintf out c =
     (if character_limit out = 0 then
        Inr (out\<lparr>characters_written := characters_written out + 1\<rparr>)
      else if characters_written out \<ge> character_limit out - 1 then
        Inr (out\<lparr>characters_written := characters_written out + 1\<rparr>)
      else
        (case string out of
           None \<Rightarrow> Inl Undefined
         | Some p \<Rightarrow>
             Inr (out\<lparr>memory := (memory out)(p \<mapsto> c),
                      string := Some (p + 1),
                      characters_written := characters_written out + 1\<rparr>)))"

definition printf_output_fprintf :: "machine \<Rightarrow> char \<Rightarrow> result" where
  "printf_output_fprintf out c =
     (case stream out of
        None \<Rightarrow> Inl Undefined
      | Some f \<Rightarrow>
          if \<not> io_succeeds out then Inl (Failed out)
          else Inr ((io_spend out)\<lparr>stream_out := stream_out out @ [(f, c)],
                                   characters_written := characters_written out + 1\<rparr>))"

definition printf_output_dprintf :: "machine \<Rightarrow> char \<Rightarrow> result" where
  "printf_output_dprintf out c =
     (if \<not> io_succeeds out then Inl (Failed out)
      else Inr ((io_spend out)\<lparr>fd_out := fd_out out @ [(fd out, c)],
                               characters_written := characters_written out + 1\<rparr>))"

text \<open>
  \<^verbatim>\<open>printf_output_asprintf\<close>: a failed \<^verbatim>\<open>realloc\<close> frees the block; the store at
  \<^verbatim>\<open>output->string + output->characters_written\<close> is defined inside the live block only.
\<close>

definition asprintf_store :: "machine \<Rightarrow> char \<Rightarrow> result" where
  "asprintf_store out c =
     (case (string out, block_size out) of
        (Some p, Some n) \<Rightarrow>
          if p + characters_written out < n then
            Inr (out\<lparr>memory := (memory out)(p + characters_written out \<mapsto> c),
                     characters_written := characters_written out + 1\<rparr>)
          else Inl Undefined
      | _ \<Rightarrow> Inl Undefined)"

definition printf_output_asprintf :: "machine \<Rightarrow> char \<Rightarrow> result" where
  "printf_output_asprintf out c =
     (if characters_written out \<ge> allocated_size out then
        (if \<not> alloc_succeeds out then Inl (Failed (out\<lparr>block_size := None\<rparr>))
         else asprintf_store
                ((alloc_spend out)\<lparr>block_size := Some (allocated_size out * 2),
                                    allocated_size := allocated_size out * 2\<rparr>) c)
      else asprintf_store out c)"

definition printf_output :: "machine \<Rightarrow> char \<Rightarrow> result" where
  "printf_output out c =
     (if type_out out = OUTPUT_string then printf_output_sprintf out c
      else if type_out out = OUTPUT_stream then printf_output_fprintf out c
      else if type_out out = OUTPUT_file_descriptor then printf_output_dprintf out c
      else if type_out out = OUTPUT_allocated_string then printf_output_asprintf out c
      else Inl (Failed out))"

section \<open>The emitters (printf\_basic\_output.c)\<close>

text \<open>
  Every descriptor the parser and the fetch of \<^verbatim>\<open>*\<close> values produce has
  \<open>width \<le> INT_MAX\<close> and \<open>- 1 \<le> precision \<le> INT_MAX\<close> (lemmas
  \<open>read_format_string_range\<close>, \<open>fetch_width_range\<close>, \<open>fetch_precision_range\<close> below),
  so the conversions between \<^verbatim>\<open>int\<close>, \<^verbatim>\<open>unsigned int\<close> and \<^verbatim>\<open>size_t\<close> in the
  emitters keep the value and are written \<open>int\<close> and \<open>nat\<close>.
\<close>

definition base_conversion_small :: "char list" where
  "base_conversion_small = ''0123456789abcdef''"

definition base_conversion_capital :: "char list" where
  "base_conversion_capital = ''0123456789ABCDEF''"

definition null_pointer_string :: "char list" where
  "null_pointer_string = ''(nil)''"

definition null_string_string :: "char list" where
  "null_string_string = ''(null)''"

definition NUL :: char where
  "NUL = CHR 0x00"

text \<open>\<^verbatim>\<open>for (int i = 0; i < length; i++)\<close> over a buffer read backwards.\<close>

function write_backwards_buffer_loop :: "machine \<Rightarrow> char list \<Rightarrow> int \<Rightarrow> int \<Rightarrow> result" where
  "write_backwards_buffer_loop out buffer len i =
     (if i < len then
        (if 0 \<le> len - 1 - i \<and> nat (len - 1 - i) < length buffer then
           and_then (printf_output out (buffer ! nat (len - 1 - i)))
             (\<lambda>out'. write_backwards_buffer_loop out' buffer len (i + 1))
         else Inl Undefined)
      else Inr out)"
  by pat_completeness auto
termination
  by (relation "measure (\<lambda>(out, buffer, len, i). nat (len - i))") auto

definition write_backwards_buffer :: "machine \<Rightarrow> char list \<Rightarrow> int \<Rightarrow> result" where
  "write_backwards_buffer out buffer len = write_backwards_buffer_loop out buffer len 0"

text \<open>
  The buffer of \<^verbatim>\<open>write_forwards_buffer\<close> is a C string: \<open>None\<close> is the null pointer,
  and the characters of the list are the ones in front of the terminator.
\<close>

function write_forwards_buffer_loop ::
  "machine \<Rightarrow> char list option \<Rightarrow> int \<Rightarrow> int \<Rightarrow> result" where
  "write_forwards_buffer_loop out buffer len i =
     (if i < len then
        (case buffer of
           None \<Rightarrow> Inl Undefined
         | Some cs \<Rightarrow>
             if 0 \<le> i \<and> nat i < length cs then
               and_then (printf_output out (cs ! nat i))
                 (\<lambda>out'. write_forwards_buffer_loop out' buffer len (i + 1))
             else Inl Undefined)
      else Inr out)"
  by pat_completeness auto
termination
  by (relation "measure (\<lambda>(out, buffer, len, i). nat (len - i))") auto

definition write_forwards_buffer :: "machine \<Rightarrow> char list option \<Rightarrow> int \<Rightarrow> result" where
  "write_forwards_buffer out buffer len = write_forwards_buffer_loop out buffer len 0"

function pad_output_loop :: "machine \<Rightarrow> int \<Rightarrow> char \<Rightarrow> int \<Rightarrow> result" where
  "pad_output_loop out len pad_character i =
     (if i < len then
        and_then (printf_output out pad_character)
          (\<lambda>out'. pad_output_loop out' len pad_character (i + 1))
      else Inr out)"
  by pat_completeness auto
termination
  by (relation "measure (\<lambda>(out, len, pad_character, i). nat (len - i))") auto

definition pad_output :: "machine \<Rightarrow> int \<Rightarrow> char \<Rightarrow> result" where
  "pad_output out len pad_character = pad_output_loop out len pad_character 0"

text \<open>\<^verbatim>\<open>if (prefix != 0) { if (!printf_output(output, prefix)) return false; }\<close>\<close>

definition output_prefix :: "machine \<Rightarrow> char \<Rightarrow> result" where
  "output_prefix out prefix = (if prefix \<noteq> NUL then printf_output out prefix else Inr out)"

definition write_backwards_buffer_with_padding ::
  "machine \<Rightarrow> char list \<Rightarrow> nat \<Rightarrow> format_specifier \<Rightarrow> char \<Rightarrow> char \<Rightarrow> nat \<Rightarrow> nat \<Rightarrow> result"
where
  "write_backwards_buffer_with_padding out buffer len fs prefix prefix2 padding
       precision_padding =
     (if zero_padded fs then
        and_then (output_prefix out prefix) (\<lambda>out.
        and_then (output_prefix out prefix2) (\<lambda>out.
        and_then (pad_output out (int padding) CHR ''0'') (\<lambda>out.
        and_then (pad_output out (int precision_padding) CHR ''0'') (\<lambda>out.
        write_backwards_buffer out buffer (int len)))))
      else if \<not> left_justify fs \<and> \<not> zero_padded fs then
        and_then (pad_output out (int padding) CHR '' '') (\<lambda>out.
        and_then (output_prefix out prefix) (\<lambda>out.
        and_then (output_prefix out prefix2) (\<lambda>out.
        and_then (pad_output out (int precision_padding) CHR ''0'') (\<lambda>out.
        write_backwards_buffer out buffer (int len)))))
      else if left_justify fs \<and> \<not> zero_padded fs then
        and_then (output_prefix out prefix) (\<lambda>out.
        and_then (output_prefix out prefix2) (\<lambda>out.
        and_then (pad_output out (int precision_padding) CHR ''0'') (\<lambda>out.
        and_then (write_backwards_buffer out buffer (int len)) (\<lambda>out.
        pad_output out (int padding) CHR '' ''))))
      else Inr out)"

text \<open>\<^verbatim>\<open>strlen\<close>: the characters in front of the first NUL.\<close>

definition strlen :: "char list \<Rightarrow> nat" where
  "strlen cs = length (takeWhile (\<lambda>c. c \<noteq> NUL) cs)"

fun strnlen_safe_loop :: "char list \<Rightarrow> nat \<Rightarrow> nat \<Rightarrow> nat" where
  "strnlen_safe_loop [] max_len count = count"
| "strnlen_safe_loop (c # cs) max_len count =
     (if count < max_len \<and> c \<noteq> NUL then strnlen_safe_loop cs max_len (count + 1) else count)"

text \<open>
  \<^verbatim>\<open>while (count < max && *str++)\<close>: with \<open>max = 0\<close> the string is never read, so it
  may be null. \<^verbatim>\<open>write_string\<close> passes \<^verbatim>\<open>fs->precision\<close> as the \<^verbatim>\<open>size_t\<close> bound when
  it is not \<open>- 1\<close>: from 0 to \<^verbatim>\<open>INT_MAX\<close> on the descriptors the parser and the fetch
  build, where the conversion is \<open>nat\<close>, as written in \<open>write_string\<close> below; a precision
  below \<open>- 1\<close> would wrap to a large bound in the source and is 0 here.
\<close>

definition strnlen_safe :: "char list option \<Rightarrow> nat \<Rightarrow> nat option" where
  "strnlen_safe str max_len =
     (if max_len = 0 then Some 0
      else case str of None \<Rightarrow> None | Some cs \<Rightarrow> Some (strnlen_safe_loop cs max_len 0))"

definition write_string :: "machine \<Rightarrow> char list option \<Rightarrow> format_specifier \<Rightarrow> result" where
  "write_string out input0 fs =
     (let input = (if precision fs \<noteq> 0 \<and> input0 = None then Some null_string_string
                   else input0)
      in case (if precision fs \<noteq> - 1 then strnlen_safe input (nat (precision fs))
               else map_option strlen input) of
           None \<Rightarrow> Inl Undefined
         | Some len \<Rightarrow>
             let padding_amount = (if width fs > len then int (width fs - len) else 0)
             in if \<not> left_justify fs then
                  and_then (pad_output out padding_amount CHR '' '') (\<lambda>out.
                  write_forwards_buffer out input (int len))
                else
                  and_then (write_forwards_buffer out input (int len)) (\<lambda>out.
                  pad_output out padding_amount CHR '' ''))"

definition write_character :: "machine \<Rightarrow> nat \<Rightarrow> format_specifier \<Rightarrow> result" where
  "write_character out val fs =
     (let buffer = [char_of val];
          padding_amount = (if width fs > 1 then width fs - 1 else 0)
      in write_backwards_buffer_with_padding out buffer 1 fs NUL NUL padding_amount 0)"

text \<open>
  \<^verbatim>\<open>write_characters_written\<close>: the store through the pointer converts the counter to the
  pointee's type.
\<close>

definition write_characters_written :: "machine \<Rightarrow> nat \<Rightarrow> format_specifier \<Rightarrow> result" where
  "write_characters_written out pointer fs =
     (if pointer = 0 then Inl (Failed out)
      else
        (let n = characters_written out;
             store = (\<lambda>v. Inr (out\<lparr>n_store := n_store out @ [(pointer, v)]\<rparr>))
         in case length_fs fs of
              LENGTH_none \<Rightarrow> store (sint (word_of_nat n :: 32 word))
            | LENGTH_hh \<Rightarrow> store (sint (word_of_nat n :: 8 word))
            | LENGTH_h \<Rightarrow> store (sint (word_of_nat n :: 16 word))
            | LENGTH_l \<Rightarrow> store (sint (word_of_nat n :: 64 word))
            | LENGTH_ll \<Rightarrow> store (sint (word_of_nat n :: 64 word))
            | LENGTH_j \<Rightarrow> store (sint (word_of_nat n :: 64 word))
            | LENGTH_z \<Rightarrow> store (uint (word_of_nat n :: 64 word))
            | LENGTH_t \<Rightarrow> store (sint (word_of_nat n :: 64 word))
            | LENGTH_L \<Rightarrow> Inl (Failed out)))"

text \<open>
  \<^verbatim>\<open>write_integer_backwards\<close> returns the digits it wrote into the scratch buffer, least
  significant first; the C function's return value is their number. The source calls it
  with base 8, 10 or 16 only.
\<close>

function write_integer_backwards :: "nat \<Rightarrow> format_specifier \<Rightarrow> nat \<Rightarrow> char list" where
  "write_integer_backwards val fs base =
     (let char_values = (if type_fs fs = TYPE_X then base_conversion_capital
                         else base_conversion_small)
      in if 2 \<le> base \<and> val div base \<noteq> 0 then
           char_values ! (val mod base) # write_integer_backwards (val div base) fs base
         else [char_values ! (val mod base)])"
  by pat_completeness auto
termination
proof (relation "measure (\<lambda>(val, fs, base). val)")
  show "wf (measure (\<lambda>(val, fs, base). val))" by simp
next
  fix val :: nat and fs :: format_specifier and base :: nat and char_values :: "char list"
  assume "2 \<le> base \<and> val div base \<noteq> 0"
  then have "1 < base" and "0 < val" by (auto intro: gr0I)
  then have "val div base < val" by (rule div_less_dividend)
  then show "((val div base, fs, base), (val, fs, base)) \<in> measure (\<lambda>(val, fs, base). val)"
    by simp
qed

text \<open>
  \<^verbatim>\<open>write_decimal_negative_backwards\<close>: C's \<^verbatim>\<open>/\<close> and \<^verbatim>\<open>%\<close> truncate towards zero
  (\<open>sdiv\<close> and \<open>smod\<close>), so the digit \<^verbatim>\<open>'0' - (value % 10)\<close> is right for a negative
  value without negating it.
\<close>

function write_decimal_negative_backwards :: "int \<Rightarrow> char list" where
  "write_decimal_negative_backwards val =
     (if val sdiv 10 \<noteq> 0 then
        char_of (48 - val smod 10) # write_decimal_negative_backwards (val sdiv 10)
      else [char_of (48 - val smod 10)])"
  by pat_completeness auto
termination
  by (relation "measure (\<lambda>val. nat \<bar>val\<bar>)")
     (auto simp: signed_divide_int_def sgn_if abs_if split: if_splits)

text \<open>
  The padding up to the precision, shared by the four integer emitters:
  \<^verbatim>\<open>precision_length\<close> and \<^verbatim>\<open>precision_padding\<close>. The source tests
  \<^verbatim>\<open>fs->precision == -1\<close> first and then compares \<^verbatim>\<open>(unsigned int) fs->precision\<close>. On
  the descriptors the parser and the fetch of \<^verbatim>\<open>*\<close> build, the precision is \<open>- 1\<close> or
  from 0 to \<^verbatim>\<open>INT_MAX\<close> (\<open>read_format_string_range\<close>, \<open>fetch_precision_range\<close>), where
  the conversion is \<open>nat\<close> (\<open>precision_unsigned_conversion\<close>), as written here. A
  precision below \<open>- 1\<close>, which no call of the emitters has, would wrap to a large count in
  the source and is 0 here.
\<close>

definition precision_length_of :: "format_specifier \<Rightarrow> nat \<Rightarrow> nat" where
  "precision_length_of fs len =
     (if precision fs = - 1 then len
      else if nat (precision fs) > len then nat (precision fs) else len)"

definition precision_padding_of :: "format_specifier \<Rightarrow> nat \<Rightarrow> nat" where
  "precision_padding_of fs len =
     (if precision fs = - 1 then 0
      else if nat (precision fs) > len then nat (precision fs) - len else 0)"

definition write_hexadecimal :: "machine \<Rightarrow> nat \<Rightarrow> format_specifier \<Rightarrow> result" where
  "write_hexadecimal out val fs =
     (let x_char = (if alternate_form fs then (if type_fs fs = TYPE_X then CHR ''X'' else CHR ''x'')
                    else NUL);
          zero_char = (if alternate_form fs then CHR ''0'' else NUL);
          buffer = (if precision fs = 0 \<and> val = 0 then []
                    else write_integer_backwards val fs 16);
          len = length buffer;
          precision_length = precision_length_of fs len;
          precision_padding = precision_padding_of fs len;
          padding_amount =
            (if alternate_form fs then
               (if width fs > precision_length + 2 then width fs - precision_length - 2 else 0)
             else
               (if width fs > precision_length then width fs - precision_length else 0))
      in write_backwards_buffer_with_padding out buffer len fs zero_char x_char
           padding_amount precision_padding)"

text \<open>
  \<^verbatim>\<open>write_decimal_negative\<close> takes the negative value as \<^verbatim>\<open>uintmax_t\<close> and hands it to
  \<^verbatim>\<open>write_decimal_negative_backwards\<close> as \<^verbatim>\<open>intmax_t\<close> again: the value is the same.
\<close>

definition write_decimal_negative :: "machine \<Rightarrow> int \<Rightarrow> format_specifier \<Rightarrow> result" where
  "write_decimal_negative out val fs =
     (let buffer = write_decimal_negative_backwards val;
          len = length buffer;
          precision_length = precision_length_of fs len;
          precision_padding = precision_padding_of fs len;
          padding_amount =
            (if width fs > precision_length + 1 then width fs - precision_length - 1 else 0)
      in write_backwards_buffer_with_padding out buffer len fs CHR ''-'' NUL
           padding_amount precision_padding)"

definition write_decimal_positive :: "machine \<Rightarrow> nat \<Rightarrow> format_specifier \<Rightarrow> result" where
  "write_decimal_positive out val fs =
     (let buffer = (if precision fs = 0 \<and> val = 0 then []
                    else write_integer_backwards val fs 10);
          len = length buffer;
          precision_length = precision_length_of fs len;
          precision_padding = precision_padding_of fs len;
          padding_amount =
            (if always_sign fs \<or> empty_sign fs then
               (if width fs > precision_length + 1 then width fs - precision_length - 1 else 0)
             else
               (if width fs > precision_length then width fs - precision_length else 0));
          plus_char = (if always_sign fs then CHR ''+''
                       else if empty_sign fs then CHR '' '' else NUL)
      in write_backwards_buffer_with_padding out buffer len fs plus_char NUL
           padding_amount precision_padding)"

text \<open>
  \<^verbatim>\<open>write_octal\<close> clears \<^verbatim>\<open>fs->alternate_form\<close> in the caller's descriptor when the
  precision already puts a zero in front; the caller does not read the flag again.
\<close>

definition write_octal :: "machine \<Rightarrow> nat \<Rightarrow> format_specifier \<Rightarrow> result" where
  "write_octal out val fs0 =
     (let buffer = (if precision fs0 = 0 \<and> val = 0 then []
                    else write_integer_backwards val fs0 8);
          len = length buffer;
          precision_length = precision_length_of fs0 len;
          precision_padding = precision_padding_of fs0 len;
          fs = (if precision_length > len then fs0\<lparr>alternate_form := False\<rparr> else fs0);
          padding_amount =
            (if alternate_form fs then
               (if width fs > precision_length + 1 then width fs - precision_length - 1 else 0)
             else
               (if width fs > precision_length then width fs - precision_length else 0));
          zero_char = (if alternate_form fs then CHR ''0'' else NUL)
      in write_backwards_buffer_with_padding out buffer len fs zero_char NUL
           padding_amount precision_padding)"

definition write_integer_positive :: "machine \<Rightarrow> nat \<Rightarrow> format_specifier \<Rightarrow> result" where
  "write_integer_positive out val fs =
     (if type_fs fs = TYPE_u \<or> type_fs fs = TYPE_d \<or> type_fs fs = TYPE_i then
        write_decimal_positive out val fs
      else if type_fs fs = TYPE_o then write_octal out val fs
      else if type_fs fs = TYPE_x \<or> type_fs fs = TYPE_X then write_hexadecimal out val fs
      else Inl (Failed out))"

definition write_pointer :: "machine \<Rightarrow> nat \<Rightarrow> format_specifier \<Rightarrow> result" where
  "write_pointer out pointer fs =
     (let pointer_fs = \<lparr>input_length = 0, left_justify = left_justify fs,
                         always_sign = False, empty_sign = False, alternate_form = False,
                         zero_padded = False, preceding_width = 0, width = width fs,
                         preceding_precision = 0, precision = - 1,
                         length_fs = LENGTH_none, type_fs = TYPE_x, position = 0\<rparr>
      in if pointer = 0 then write_string out (Some null_pointer_string) pointer_fs
         else write_hexadecimal out pointer (pointer_fs\<lparr>alternate_form := True\<rparr>))"

section \<open>The directive parser (printf\_format.c)\<close>

text \<open>\<^verbatim>\<open>*format\<close>: the character under the cursor, the terminator at the end.\<close>

definition peek :: "char list \<Rightarrow> char" where
  "peek format = (case format of [] \<Rightarrow> NUL | c # _ \<Rightarrow> c)"

definition is_digit :: "char \<Rightarrow> bool" where
  "is_digit c = (of_char c \<ge> (48::nat) \<and> of_char c \<le> (57::nat))"

text \<open>
  \<^verbatim>\<open>format_string_atoi\<close> returns the characters read and the value. The source leaves
  the arithmetic unchecked (\<^verbatim>\<open>FIXME Bounds check this arithmetic\<close>): a value beyond
  \<^verbatim>\<open>INT_MAX\<close> overflows a signed \<^verbatim>\<open>int\<close>, which is \<open>None\<close> here.
\<close>

fun format_string_atoi_loop :: "char list \<Rightarrow> nat \<Rightarrow> int \<Rightarrow> (nat \<times> int) option" where
  "format_string_atoi_loop [] characters_read current = Some (characters_read, current)"
| "format_string_atoi_loop (c # format) characters_read current =
     (if is_digit c then
        (if current * 10 + (int (of_char c) - 48) > INT_MAX then None
         else format_string_atoi_loop format (characters_read + 1)
                (current * 10 + (int (of_char c) - 48)))
      else Some (characters_read, current))"

definition format_string_atoi :: "char list \<Rightarrow> (nat \<times> int) option" where
  "format_string_atoi format = format_string_atoi_loop format 0 0"

definition read_format_string_type ::
  "char list \<Rightarrow> format_specifier \<Rightarrow> format_error \<times> format_specifier" where
  "read_format_string_type format fs =
     (let known = (\<lambda>t. (FORMAT_okay, fs\<lparr>type_fs := t, input_length := input_length fs + 1\<rparr>))
      in if peek format = CHR ''d'' then known TYPE_d
         else if peek format = CHR ''i'' then known TYPE_i
         else if peek format = CHR ''u'' then known TYPE_u
         else if peek format = CHR ''o'' then known TYPE_o
         else if peek format = CHR ''x'' then known TYPE_x
         else if peek format = CHR ''X'' then known TYPE_X
         else if peek format = CHR ''f'' then known TYPE_f
         else if peek format = CHR ''F'' then known TYPE_F
         else if peek format = CHR ''e'' then known TYPE_e
         else if peek format = CHR ''E'' then known TYPE_E
         else if peek format = CHR ''g'' then known TYPE_g
         else if peek format = CHR ''G'' then known TYPE_G
         else if peek format = CHR ''a'' then known TYPE_a
         else if peek format = CHR ''A'' then known TYPE_A
         else if peek format = CHR ''c'' then known TYPE_c
         else if peek format = CHR ''s'' then known TYPE_s
         else if peek format = CHR ''p'' then known TYPE_p
         else if peek format = CHR ''n'' then known TYPE_n
         else (FORMAT_ERROR_unknown_type, fs\<lparr>type_fs := TYPE_ERROR\<rparr>))"

text \<open>\<^verbatim>\<open>strncmp(format, "hh", 2) == 0\<close> is \<open>take 2 format = ''hh''\<close>.\<close>

definition read_format_string_length ::
  "char list \<Rightarrow> format_specifier \<Rightarrow> format_error \<times> format_specifier" where
  "read_format_string_length format fs =
     (let one = (\<lambda>l. read_format_string_type (drop 1 format)
                        (fs\<lparr>length_fs := l, input_length := input_length fs + 1\<rparr>));
          two = (\<lambda>l. read_format_string_type (drop 2 format)
                        (fs\<lparr>length_fs := l, input_length := input_length fs + 2\<rparr>))
      in if take 2 format = ''hh'' then two LENGTH_hh
         else if peek format = CHR ''h'' then one LENGTH_h
         else if take 2 format = ''ll'' then two LENGTH_ll
         else if peek format = CHR ''l'' then one LENGTH_l
         else if peek format = CHR ''j'' then one LENGTH_j
         else if peek format = CHR ''z'' then one LENGTH_z
         else if peek format = CHR ''t'' then one LENGTH_t
         else if peek format = CHR ''L'' then one LENGTH_L
         else read_format_string_type format (fs\<lparr>length_fs := LENGTH_none\<rparr>))"

definition read_format_string_precision ::
  "char list \<Rightarrow> format_specifier \<Rightarrow> (format_error \<times> format_specifier) option" where
  "read_format_string_precision format0 fs0 =
     (if peek format0 = CHR ''.'' then
        (let format1 = drop 1 format0;
             fs1 = fs0\<lparr>input_length := input_length fs0 + 1\<rparr>
         in if peek format1 = CHR ''*'' then
              (let format2 = drop 1 format1;
                   fs2 = fs1\<lparr>input_length := input_length fs1 + 1\<rparr>
               in if position fs2 \<noteq> 0 then
                    (case format_string_atoi format2 of
                       None \<Rightarrow> None
                     | Some (characters_read, prec) \<Rightarrow>
                         (let fs3 = fs2\<lparr>preceding_precision := prec,
                                         input_length := input_length fs2 + characters_read\<rparr>;
                              format3 = drop characters_read format2
                          in if prec = 0 \<or> peek format3 \<noteq> CHR ''$'' then
                               Some (FORMAT_ERROR_no_positional_precision, fs3)
                             else
                               Some (read_format_string_length (drop 1 format3)
                                       (fs3\<lparr>input_length := input_length fs3 + 1\<rparr>))))
                  else
                    Some (read_format_string_length format2 (fs2\<lparr>preceding_precision := 1\<rparr>)))
            else
              (case format_string_atoi format1 of
                 None \<Rightarrow> None
               | Some (characters_read, prec) \<Rightarrow>
                   Some (read_format_string_length (drop characters_read format1)
                           (fs1\<lparr>precision := prec,
                                input_length := input_length fs1 + characters_read\<rparr>))))
      else Some (read_format_string_length format0 fs0))"

definition read_format_string_width ::
  "char list \<Rightarrow> format_specifier \<Rightarrow> (format_error \<times> format_specifier) option" where
  "read_format_string_width format0 fs0 =
     (if peek format0 = CHR ''*'' then
        (let format1 = drop 1 format0;
             fs1 = fs0\<lparr>input_length := input_length fs0 + 1\<rparr>
         in if position fs1 \<noteq> 0 then
              (case format_string_atoi format1 of
                 None \<Rightarrow> None
               | Some (characters_read, w) \<Rightarrow>
                   (let fs2 = fs1\<lparr>preceding_width := w,
                                   input_length := input_length fs1 + characters_read\<rparr>;
                        format2 = drop characters_read format1
                    in if w = 0 \<or> peek format2 \<noteq> CHR ''$'' then
                         Some (FORMAT_ERROR_no_positional_width, fs2)
                       else
                         read_format_string_precision (drop 1 format2)
                           (fs2\<lparr>input_length := input_length fs2 + 1\<rparr>)))
            else read_format_string_precision format1 (fs1\<lparr>preceding_width := 1\<rparr>))
      else
        (case format_string_atoi format0 of
           None \<Rightarrow> None
         | Some (characters_read, w) \<Rightarrow>
             read_format_string_precision (drop characters_read format0)
               (fs0\<lparr>width := nat w, input_length := input_length fs0 + characters_read\<rparr>)))"

text \<open>
  The flag loop of \<^verbatim>\<open>read_format_string_flags\<close>: it returns the cursor, the descriptor
  and the warning it leaves in \<^verbatim>\<open>error\<close>.
\<close>

fun read_format_string_flags_loop ::
  "char list \<Rightarrow> format_specifier \<Rightarrow> format_error
     \<Rightarrow> char list \<times> format_specifier \<times> format_error" where
  "read_format_string_flags_loop [] fs err = ([], fs, err)"
| "read_format_string_flags_loop (c # format) fs err =
     (if c = CHR ''-'' then
        read_format_string_flags_loop format
          (fs\<lparr>left_justify := True, input_length := input_length fs + 1\<rparr>)
          (if left_justify fs then FORMAT_WARNING_repeat_flag else err)
      else if c = CHR ''+'' then
        read_format_string_flags_loop format
          (fs\<lparr>always_sign := True, input_length := input_length fs + 1\<rparr>)
          (if always_sign fs then FORMAT_WARNING_repeat_flag else err)
      else if c = CHR '' '' then
        read_format_string_flags_loop format
          (fs\<lparr>empty_sign := True, input_length := input_length fs + 1\<rparr>)
          (if empty_sign fs then FORMAT_WARNING_repeat_flag else err)
      else if c = CHR ''#'' then
        read_format_string_flags_loop format
          (fs\<lparr>alternate_form := True, input_length := input_length fs + 1\<rparr>)
          (if alternate_form fs then FORMAT_WARNING_repeat_flag else err)
      else if c = CHR ''0'' then
        read_format_string_flags_loop format
          (fs\<lparr>zero_padded := True, input_length := input_length fs + 1\<rparr>)
          (if zero_padded fs then FORMAT_WARNING_repeat_flag else err)
      else (c # format, fs, err))"

definition read_format_string_flags ::
  "char list \<Rightarrow> format_specifier \<Rightarrow> (format_error \<times> format_specifier) option" where
  "read_format_string_flags format0 fs0 =
     (case read_format_string_flags_loop format0 fs0 FORMAT_okay of
        (format1, fs1, err) \<Rightarrow>
          (case read_format_string_width format1 fs1 of
             None \<Rightarrow> None
           | Some (rest, fs2) \<Rightarrow> Some (if rest = FORMAT_okay then err else rest, fs2)))"

definition read_format_string_position ::
  "char list \<Rightarrow> format_specifier \<Rightarrow> (format_error \<times> format_specifier) option" where
  "read_format_string_position format0 fs0 =
     (if (of_char (peek format0) :: nat) > 48 \<and> (of_char (peek format0) :: nat) \<le> 57 then
        (case format_string_atoi format0 of
           None \<Rightarrow> None
         | Some (characters_read, pos) \<Rightarrow>
             (let fs1 = fs0\<lparr>input_length := input_length fs0 + characters_read\<rparr>;
                  format1 = drop characters_read format0
              in if peek format1 = CHR ''$'' then
                   read_format_string_flags (drop 1 format1)
                     (fs1\<lparr>input_length := input_length fs1 + 1, position := pos\<rparr>)
                 else
                   read_format_string_precision format1 (fs1\<lparr>width := nat pos\<rparr>)))
      else read_format_string_flags format0 fs0)"

definition format_string_check_length_type :: "format_specifier \<Rightarrow> format_error" where
  "format_string_check_length_type fs =
     (case type_fs fs of
        TYPE_d \<Rightarrow> if length_fs fs = LENGTH_L then FORMAT_ERROR_incompatible_length_type
                  else FORMAT_okay
      | TYPE_i \<Rightarrow> if length_fs fs = LENGTH_L then FORMAT_ERROR_incompatible_length_type
                  else FORMAT_okay
      | TYPE_u \<Rightarrow> if length_fs fs = LENGTH_L then FORMAT_ERROR_incompatible_length_type
                  else FORMAT_okay
      | TYPE_o \<Rightarrow> if length_fs fs = LENGTH_L then FORMAT_ERROR_incompatible_length_type
                  else FORMAT_okay
      | TYPE_x \<Rightarrow> if length_fs fs = LENGTH_L then FORMAT_ERROR_incompatible_length_type
                  else FORMAT_okay
      | TYPE_X \<Rightarrow> if length_fs fs = LENGTH_L then FORMAT_ERROR_incompatible_length_type
                  else FORMAT_okay
      | TYPE_c \<Rightarrow>
          if length_fs fs = LENGTH_h \<or> length_fs fs = LENGTH_hh \<or> length_fs fs = LENGTH_ll
             \<or> length_fs fs = LENGTH_j \<or> length_fs fs = LENGTH_z \<or> length_fs fs = LENGTH_t
             \<or> length_fs fs = LENGTH_L
          then FORMAT_ERROR_incompatible_length_type else FORMAT_okay
      | TYPE_s \<Rightarrow>
          if length_fs fs = LENGTH_h \<or> length_fs fs = LENGTH_hh \<or> length_fs fs = LENGTH_ll
             \<or> length_fs fs = LENGTH_j \<or> length_fs fs = LENGTH_z \<or> length_fs fs = LENGTH_t
             \<or> length_fs fs = LENGTH_L
          then FORMAT_ERROR_incompatible_length_type else FORMAT_okay
      | TYPE_p \<Rightarrow> if length_fs fs \<noteq> LENGTH_none then FORMAT_ERROR_incompatible_length_type
                  else FORMAT_okay
      | TYPE_n \<Rightarrow> if length_fs fs = LENGTH_L then FORMAT_ERROR_incompatible_length_type
                  else FORMAT_okay
      | TYPE_ERROR \<Rightarrow> FORMAT_ERROR_unknown_type
      | _ \<Rightarrow>
          if length_fs fs = LENGTH_h \<or> length_fs fs = LENGTH_hh \<or> length_fs fs = LENGTH_l
             \<or> length_fs fs = LENGTH_ll \<or> length_fs fs = LENGTH_j \<or> length_fs fs = LENGTH_z
             \<or> length_fs fs = LENGTH_t
          then FORMAT_ERROR_incompatible_length_type else FORMAT_okay)"

definition format_error_is_error :: "format_error \<Rightarrow> bool" where
  "format_error_is_error err =
     (err = FORMAT_ERROR_no_positional_width \<or> err = FORMAT_ERROR_no_positional_precision
      \<or> err = FORMAT_ERROR_unknown_type \<or> err = FORMAT_ERROR_incompatible_length_type)"

definition format_error_is_warning :: "format_error \<Rightarrow> bool" where
  "format_error_is_warning err =
     (err = FORMAT_WARNING_flag_does_nothing \<or> err = FORMAT_WARNING_repeat_flag
      \<or> err = FORMAT_WARNING_width_does_nothing \<or> err = FORMAT_WARNING_precision_does_nothing
      \<or> err = FORMAT_WARNING_does_not_print)"

text \<open>
  \<^verbatim>\<open>read_format_string\<close> leaves \<^verbatim>\<open>fs->length\<close> and \<^verbatim>\<open>fs->type\<close> unset until the
  length and type readers run; the model starts them at \<open>LENGTH_none\<close> and
  \<open>TYPE_ERROR\<close>, and they are read only after a parse without error.
\<close>

definition read_format_string :: "char list \<Rightarrow> (format_error \<times> format_specifier) option" where
  "read_format_string format =
     (case read_format_string_position format
             \<lparr>input_length = 0, left_justify = False, always_sign = False,
              empty_sign = False, alternate_form = False, zero_padded = False,
              preceding_width = 0, width = 0, preceding_precision = 0, precision = - 1,
              length_fs = LENGTH_none, type_fs = TYPE_ERROR, position = 0\<rparr> of
        None \<Rightarrow> None
      | Some (err, fs) \<Rightarrow>
          if format_error_is_error err then Some (err, fs)
          else if format_error_is_error (format_string_check_length_type fs) then
            Some (format_string_check_length_type fs, fs)
          else Some (err, fs))"

text \<open>
  \<^verbatim>\<open>format_string_check_unused_values\<close> is a sequence of blocks
  \<^verbatim>\<open>if (cond) { result = warning; fs->field = cleared; }\<close>; each rule below is one block
  (its condition, its warning, its update), in the order of the source, and the function
  runs them in that order on the descriptor the blocks before have left.
\<close>

type_synonym unused_value_rule =
  "(format_specifier \<Rightarrow> bool) \<times> format_error \<times> (format_specifier \<Rightarrow> format_specifier)"

definition apply_rule ::
  "unused_value_rule \<Rightarrow> format_error \<times> format_specifier \<Rightarrow> format_error \<times> format_specifier"
where
  "apply_rule r p =
     (case r of (cond, warning, upd) \<Rightarrow> if cond (snd p) then (warning, upd (snd p)) else p)"

definition unused_value_rules :: "unused_value_rule list" where
  "unused_value_rules =
     [(\<lambda>fs. always_sign fs \<and> empty_sign fs,
        FORMAT_WARNING_flag_does_nothing, \<lambda>fs. fs\<lparr>empty_sign := False\<rparr>),
      (\<lambda>fs. (type_fs fs = TYPE_d \<or> type_fs fs = TYPE_i \<or> type_fs fs = TYPE_u)
             \<and> alternate_form fs,
        FORMAT_WARNING_flag_does_nothing, \<lambda>fs. fs\<lparr>alternate_form := False\<rparr>),
      (\<lambda>fs. (type_fs fs = TYPE_x \<or> type_fs fs = TYPE_X) \<and> always_sign fs,
        FORMAT_WARNING_flag_does_nothing, \<lambda>fs. fs\<lparr>always_sign := False\<rparr>),
      (\<lambda>fs. (type_fs fs = TYPE_x \<or> type_fs fs = TYPE_X) \<and> empty_sign fs,
        FORMAT_WARNING_flag_does_nothing, \<lambda>fs. fs\<lparr>empty_sign := False\<rparr>),
      (\<lambda>fs. (type_fs fs = TYPE_c \<or> type_fs fs = TYPE_s \<or> type_fs fs = TYPE_p)
             \<and> always_sign fs,
        FORMAT_WARNING_flag_does_nothing, \<lambda>fs. fs\<lparr>always_sign := False\<rparr>),
      (\<lambda>fs. (type_fs fs = TYPE_c \<or> type_fs fs = TYPE_s \<or> type_fs fs = TYPE_p)
             \<and> empty_sign fs,
        FORMAT_WARNING_flag_does_nothing, \<lambda>fs. fs\<lparr>empty_sign := False\<rparr>),
      (\<lambda>fs. (type_fs fs = TYPE_c \<or> type_fs fs = TYPE_s \<or> type_fs fs = TYPE_p)
             \<and> alternate_form fs,
        FORMAT_WARNING_flag_does_nothing, \<lambda>fs. fs\<lparr>alternate_form := False\<rparr>),
      (\<lambda>fs. (type_fs fs = TYPE_c \<or> type_fs fs = TYPE_s \<or> type_fs fs = TYPE_p)
             \<and> zero_padded fs,
        FORMAT_WARNING_flag_does_nothing, \<lambda>fs. fs\<lparr>zero_padded := False\<rparr>),
      (\<lambda>fs. type_fs fs = TYPE_n \<and> always_sign fs,
        FORMAT_WARNING_does_not_print, \<lambda>fs. fs\<lparr>always_sign := False\<rparr>),
      (\<lambda>fs. type_fs fs = TYPE_n \<and> empty_sign fs,
        FORMAT_WARNING_does_not_print, \<lambda>fs. fs\<lparr>empty_sign := False\<rparr>),
      (\<lambda>fs. type_fs fs = TYPE_n \<and> alternate_form fs,
        FORMAT_WARNING_does_not_print, \<lambda>fs. fs\<lparr>alternate_form := False\<rparr>),
      (\<lambda>fs. type_fs fs = TYPE_n \<and> zero_padded fs,
        FORMAT_WARNING_does_not_print, \<lambda>fs. fs\<lparr>zero_padded := False\<rparr>),
      (\<lambda>fs. type_fs fs = TYPE_n \<and> left_justify fs,
        FORMAT_WARNING_does_not_print, \<lambda>fs. fs\<lparr>left_justify := False\<rparr>),
      (\<lambda>fs. type_fs fs = TYPE_n \<and> width fs \<noteq> 0,
        FORMAT_WARNING_does_not_print, \<lambda>fs. fs\<lparr>width := 0\<rparr>),
      (\<lambda>fs. type_fs fs = TYPE_n \<and> precision fs \<noteq> - 1,
        FORMAT_WARNING_does_not_print, \<lambda>fs. fs\<lparr>precision := - 1\<rparr>),
      (\<lambda>fs. (type_fs fs = TYPE_c \<or> type_fs fs = TYPE_p) \<and> precision fs \<noteq> - 1,
        FORMAT_WARNING_precision_does_nothing, \<lambda>fs. fs\<lparr>precision := - 1\<rparr>),
      (\<lambda>fs. zero_padded fs \<and> left_justify fs,
        FORMAT_WARNING_flag_does_nothing, \<lambda>fs. fs\<lparr>zero_padded := False\<rparr>),
      (\<lambda>fs. precision fs \<noteq> - 1 \<and> zero_padded fs,
        FORMAT_WARNING_flag_does_nothing, \<lambda>fs. fs\<lparr>zero_padded := False\<rparr>)]"

definition format_string_check_unused_values ::
  "format_specifier \<Rightarrow> format_error \<times> format_specifier" where
  "format_string_check_unused_values fs = fold apply_rule unused_value_rules (FORMAT_okay, fs)"

section \<open>The argument vector (printf\_arguments.c)\<close>

text \<open>
  \<^verbatim>\<open>va_arg(valist->valist, T)\<close>: the next argument if it is of the class of \<open>T\<close>;
  reading past the end of the pack or with the wrong type is undefined (\<open>None\<close>).
\<close>

definition va_arg_int :: "machine \<Rightarrow> (32 word \<times> machine) option" where
  "va_arg_int out =
     (case valist out of VA_int w # rest \<Rightarrow> Some (w, out\<lparr>valist := rest\<rparr>) | _ \<Rightarrow> None)"

definition va_arg_long :: "machine \<Rightarrow> (64 word \<times> machine) option" where
  "va_arg_long out =
     (case valist out of VA_long w # rest \<Rightarrow> Some (w, out\<lparr>valist := rest\<rparr>) | _ \<Rightarrow> None)"

definition va_arg_string :: "machine \<Rightarrow> (char list option \<times> machine) option" where
  "va_arg_string out =
     (case valist out of VA_string s # rest \<Rightarrow> Some (s, out\<lparr>valist := rest\<rparr>) | _ \<Rightarrow> None)"

definition va_arg_pointer :: "machine \<Rightarrow> (nat \<times> machine) option" where
  "va_arg_pointer out =
     (case valist out of VA_pointer a # rest \<Rightarrow> Some (a, out\<lparr>valist := rest\<rparr>) | _ \<Rightarrow> None)"

text \<open>Any argument, whatever its class: what \<^verbatim>\<open>pop_and_store\<close> stores in a cell.\<close>

definition va_arg_of_class :: "(va_arg \<Rightarrow> bool) \<Rightarrow> machine \<Rightarrow> (va_arg \<times> machine) option" where
  "va_arg_of_class cls out =
     (case valist out of
        [] \<Rightarrow> None
      | v # rest \<Rightarrow> if cls v then Some (v, out\<lparr>valist := rest\<rparr>) else None)"

definition is_VA_int :: "va_arg \<Rightarrow> bool" where
  "is_VA_int v = (case v of VA_int _ \<Rightarrow> True | _ \<Rightarrow> False)"

definition is_VA_long :: "va_arg \<Rightarrow> bool" where
  "is_VA_long v = (case v of VA_long _ \<Rightarrow> True | _ \<Rightarrow> False)"

definition is_VA_double :: "va_arg \<Rightarrow> bool" where
  "is_VA_double v = (case v of VA_double \<Rightarrow> True | _ \<Rightarrow> False)"

definition is_VA_string :: "va_arg \<Rightarrow> bool" where
  "is_VA_string v = (case v of VA_string _ \<Rightarrow> True | _ \<Rightarrow> False)"

definition is_VA_pointer :: "va_arg \<Rightarrow> bool" where
  "is_VA_pointer v = (case v of VA_pointer _ \<Rightarrow> True | _ \<Rightarrow> False)"

text \<open>
  \<^verbatim>\<open>positional_items[position - 1].item\<close>, dereferenced: the value in the live cell the
  slot owns. An index outside the table, a null or freed item is undefined.
\<close>

definition load_item :: "machine \<Rightarrow> positional_info list \<Rightarrow> int \<Rightarrow> va_arg option" where
  "load_item out positional_items pos =
     (if 1 \<le> pos \<and> nat (pos - 1) < length positional_items then
        (case item (positional_items ! nat (pos - 1)) of
           None \<Rightarrow> None
         | Some a \<Rightarrow>
             if a < length (heap out) then
               (case heap out ! a of Some (Cell_item v) \<Rightarrow> Some v | _ \<Rightarrow> None)
             else None)
      else None)"

definition load_int :: "machine \<Rightarrow> positional_info list \<Rightarrow> int \<Rightarrow> 32 word option" where
  "load_int out positional_items pos =
     (case load_item out positional_items pos of Some (VA_int w) \<Rightarrow> Some w | _ \<Rightarrow> None)"

definition load_long :: "machine \<Rightarrow> positional_info list \<Rightarrow> int \<Rightarrow> 64 word option" where
  "load_long out positional_items pos =
     (case load_item out positional_items pos of Some (VA_long w) \<Rightarrow> Some w | _ \<Rightarrow> None)"

text \<open>The value of the positional slot or the next argument, as a 32-bit or 64-bit word.\<close>

definition pop_or_load_int ::
  "machine \<Rightarrow> bool \<Rightarrow> positional_info list \<Rightarrow> int \<Rightarrow> (32 word \<times> machine) option" where
  "pop_or_load_int out using_positions positional_items pos =
     (if using_positions then map_option (\<lambda>w. (w, out)) (load_int out positional_items pos)
      else va_arg_int out)"

definition pop_or_load_long ::
  "machine \<Rightarrow> bool \<Rightarrow> positional_info list \<Rightarrow> int \<Rightarrow> (64 word \<times> machine) option" where
  "pop_or_load_long out using_positions positional_items pos =
     (if using_positions then map_option (\<lambda>w. (w, out)) (load_long out positional_items pos)
      else va_arg_long out)"

text \<open>
  \<^verbatim>\<open>pop_or_load_integer\<close> returns an \<^verbatim>\<open>intmax_t\<close>: the value read, narrowed to
  \<^verbatim>\<open>signed char\<close> or \<^verbatim>\<open>short\<close> for \<^verbatim>\<open>hh\<close> and \<^verbatim>\<open>h\<close>.
\<close>

definition pop_or_load_integer ::
  "format_specifier \<Rightarrow> machine \<Rightarrow> bool \<Rightarrow> positional_info list \<Rightarrow> (int \<times> machine) option"
where
  "pop_or_load_integer fs out using_positions positional_items =
     (let int32 = (\<lambda>f. map_option (\<lambda>(w, out'). (f w, out'))
                         (pop_or_load_int out using_positions positional_items (position fs)));
          int64 = (\<lambda>f. map_option (\<lambda>(w, out'). (f w, out'))
                         (pop_or_load_long out using_positions positional_items (position fs)))
      in case length_fs fs of
           LENGTH_none \<Rightarrow> int32 sint
         | LENGTH_hh \<Rightarrow> int32 (\<lambda>w. sint (ucast w :: 8 word))
         | LENGTH_h \<Rightarrow> int32 (\<lambda>w. sint (ucast w :: 16 word))
         | LENGTH_l \<Rightarrow> int64 sint
         | LENGTH_ll \<Rightarrow> int64 sint
         | LENGTH_j \<Rightarrow> int64 sint
         | LENGTH_z \<Rightarrow> int64 sint
         | LENGTH_t \<Rightarrow> int64 sint
         | LENGTH_L \<Rightarrow> Some (0, out))"

definition pop_or_load_unsigned_integer ::
  "format_specifier \<Rightarrow> machine \<Rightarrow> bool \<Rightarrow> positional_info list \<Rightarrow> (nat \<times> machine) option"
where
  "pop_or_load_unsigned_integer fs out using_positions positional_items =
     (let int32 = (\<lambda>f. map_option (\<lambda>(w, out'). (f w, out'))
                         (pop_or_load_int out using_positions positional_items (position fs)));
          int64 = (\<lambda>f. map_option (\<lambda>(w, out'). (f w, out'))
                         (pop_or_load_long out using_positions positional_items (position fs)))
      in case length_fs fs of
           LENGTH_none \<Rightarrow> int32 unat
         | LENGTH_hh \<Rightarrow> int32 (\<lambda>w. unat (ucast w :: 8 word))
         | LENGTH_h \<Rightarrow> int32 (\<lambda>w. unat (ucast w :: 16 word))
         | LENGTH_l \<Rightarrow> int64 unat
         | LENGTH_ll \<Rightarrow> int64 unat
         | LENGTH_j \<Rightarrow> int64 unat
         | LENGTH_z \<Rightarrow> int64 unat
         | LENGTH_t \<Rightarrow> int64 unat
         | LENGTH_L \<Rightarrow> Some (0, out))"

definition pop_or_load_character ::
  "format_specifier \<Rightarrow> machine \<Rightarrow> bool \<Rightarrow> positional_info list \<Rightarrow> (nat \<times> machine) option"
where
  "pop_or_load_character fs out using_positions positional_items =
     map_option (\<lambda>(w, out'). (unat (ucast w :: 8 word), out'))
       (pop_or_load_int out using_positions positional_items (position fs))"

definition pop_or_load_string ::
  "format_specifier \<Rightarrow> machine \<Rightarrow> bool \<Rightarrow> positional_info list
     \<Rightarrow> (char list option \<times> machine) option" where
  "pop_or_load_string fs out using_positions positional_items =
     (if using_positions then
        (case load_item out positional_items (position fs) of
           Some (VA_string s) \<Rightarrow> Some (s, out)
         | _ \<Rightarrow> None)
      else va_arg_string out)"

definition pop_or_load_pointer ::
  "format_specifier \<Rightarrow> machine \<Rightarrow> bool \<Rightarrow> positional_info list \<Rightarrow> (nat \<times> machine) option"
where
  "pop_or_load_pointer fs out using_positions positional_items =
     (if using_positions then
        (case load_item out positional_items (position fs) of
           Some (VA_pointer a) \<Rightarrow> Some (a, out)
         | _ \<Rightarrow> None)
      else va_arg_pointer out)"

definition pop_or_load_width_precision ::
  "machine \<Rightarrow> bool \<Rightarrow> positional_info list \<Rightarrow> int \<Rightarrow> (int \<times> machine) option" where
  "pop_or_load_width_precision out using_positions positional_items pos =
     (if \<not> using_positions then map_option (\<lambda>(w, out'). (sint w, out')) (va_arg_int out)
      else map_option (\<lambda>w. (sint w, out)) (load_int out positional_items pos))"

text \<open>
  \<^verbatim>\<open>pop_or_load_n_pointer\<close>: without positions the source pops a pointer for every
  length but \<^verbatim>\<open>L\<close>, for which it returns the null pointer.
\<close>

definition pop_or_load_n_pointer ::
  "format_specifier \<Rightarrow> machine \<Rightarrow> bool \<Rightarrow> positional_info list \<Rightarrow> (nat \<times> machine) option"
where
  "pop_or_load_n_pointer fs out using_positions positional_items =
     (if using_positions then
        (case load_item out positional_items (position fs) of
           Some (VA_pointer a) \<Rightarrow> Some (a, out)
         | _ \<Rightarrow> None)
      else if length_fs fs = LENGTH_L then Some (0, out)
      else va_arg_pointer out)"

section \<open>The positional slot table (printf\_arguments.c)\<close>

text \<open>
  \<^verbatim>\<open>malloc\<close> of a cell: the address is the next free one. \<^verbatim>\<open>free\<close> of the null
  pointer does nothing; \<^verbatim>\<open>free\<close> of a cell that is not live is undefined.
\<close>

definition malloc_cell :: "machine \<Rightarrow> cell \<Rightarrow> (nat \<times> machine) option" where
  "malloc_cell out c =
     (if alloc_succeeds out then
        Some (length (heap out), (alloc_spend out)\<lparr>heap := heap out @ [Some c]\<rparr>)
      else None)"

definition free_cell :: "machine \<Rightarrow> nat option \<Rightarrow> machine option" where
  "free_cell out p =
     (case p of
        None \<Rightarrow> Some out
      | Some a \<Rightarrow>
          if a < length (heap out) \<and> heap out ! a \<noteq> None then
            Some (out\<lparr>heap := (heap out)[a := None]\<rparr>)
          else None)"

text \<open>
  The seven \<^verbatim>\<open>pop_and_store_*\<close> functions allocate a cell of the size of the type, pop
  the argument into it and store its address in the slot. \<open>pop_and_store\<close> is their
  common body, for the class of argument the type and length of the slot ask for;
  \<open>None\<close> as class is the \<^verbatim>\<open>default: return false\<close> of the source.
\<close>

definition pop_and_store ::
  "(va_arg \<Rightarrow> bool) option \<Rightarrow> positional_info \<Rightarrow> machine
     \<Rightarrow> machine error + (positional_info \<times> machine)" where
  "pop_and_store cls current_item out =
     (case cls of
        None \<Rightarrow> Inl (Failed out)
      | Some is_cls \<Rightarrow>
          if \<not> alloc_succeeds out then Inl (Failed out)
          else (case va_arg_of_class is_cls out of
                  None \<Rightarrow> Inl Undefined
                | Some (v, out1) \<Rightarrow>
                    (case malloc_cell out1 (Cell_item v) of
                       None \<Rightarrow> Inl (Failed out)
                     | Some (a, out2) \<Rightarrow> Inr (current_item\<lparr>item := Some a\<rparr>, out2))))"

definition integer_class :: "format_string_lengths \<Rightarrow> (va_arg \<Rightarrow> bool) option" where
  "integer_class l =
     (case l of
        LENGTH_none \<Rightarrow> Some is_VA_int
      | LENGTH_hh \<Rightarrow> Some is_VA_int
      | LENGTH_h \<Rightarrow> Some is_VA_int
      | LENGTH_L \<Rightarrow> None
      | _ \<Rightarrow> Some is_VA_long)"

definition pop_and_store_integer ::
  "positional_info \<Rightarrow> machine \<Rightarrow> machine error + (positional_info \<times> machine)" where
  "pop_and_store_integer current_item out =
     pop_and_store (integer_class (length_pi current_item)) current_item out"

definition pop_and_store_unsigned_integer ::
  "positional_info \<Rightarrow> machine \<Rightarrow> machine error + (positional_info \<times> machine)" where
  "pop_and_store_unsigned_integer current_item out =
     pop_and_store (integer_class (length_pi current_item)) current_item out"

definition pop_and_store_floating_point ::
  "positional_info \<Rightarrow> machine \<Rightarrow> machine error + (positional_info \<times> machine)" where
  "pop_and_store_floating_point current_item out =
     pop_and_store
       (if length_pi current_item = LENGTH_none \<or> length_pi current_item = LENGTH_L
        then Some is_VA_double else None)
       current_item out"

definition pop_and_store_character ::
  "positional_info \<Rightarrow> machine \<Rightarrow> machine error + (positional_info \<times> machine)" where
  "pop_and_store_character current_item out = pop_and_store (Some is_VA_int) current_item out"

definition pop_and_store_pointer ::
  "positional_info \<Rightarrow> machine \<Rightarrow> machine error + (positional_info \<times> machine)" where
  "pop_and_store_pointer current_item out = pop_and_store (Some is_VA_pointer) current_item out"

definition pop_and_store_string ::
  "positional_info \<Rightarrow> machine \<Rightarrow> machine error + (positional_info \<times> machine)" where
  "pop_and_store_string current_item out = pop_and_store (Some is_VA_string) current_item out"

definition pop_and_store_n_pointer ::
  "positional_info \<Rightarrow> machine \<Rightarrow> machine error + (positional_info \<times> machine)" where
  "pop_and_store_n_pointer current_item out =
     pop_and_store (if length_pi current_item = LENGTH_L then None else Some is_VA_pointer)
       current_item out"

text \<open>
  \<^verbatim>\<open>pop_and_store_cleanup\<close>:
  \<^verbatim>\<open>for (int i = 0; i < count - 1; i++) free((pia->array + i)->item);\<close>
\<close>

function pop_and_store_cleanup_loop ::
  "machine \<Rightarrow> positional_info_array \<Rightarrow> int \<Rightarrow> int \<Rightarrow> machine option" where
  "pop_and_store_cleanup_loop out pia count i =
     (if i < count - 1 then
        (if 0 \<le> i \<and> nat i < length (array pia) then
           (case free_cell out (item (array pia ! nat i)) of
              None \<Rightarrow> None
            | Some out' \<Rightarrow> pop_and_store_cleanup_loop out' pia count (i + 1))
         else None)
      else Some out)"
  by pat_completeness auto
termination
  by (relation "measure (\<lambda>(out, pia, count, i). nat (count - i))") auto

definition pop_and_store_cleanup :: "machine \<Rightarrow> positional_info_array \<Rightarrow> int \<Rightarrow> machine option"
where
  "pop_and_store_cleanup out pia count = pop_and_store_cleanup_loop out pia count 0"

definition pop_and_store_by_type ::
  "positional_info \<Rightarrow> machine \<Rightarrow> machine error + (positional_info \<times> machine)" where
  "pop_and_store_by_type current_item out =
     (case type_pi current_item of
        TYPE_d \<Rightarrow> pop_and_store_integer current_item out
      | TYPE_i \<Rightarrow> pop_and_store_integer current_item out
      | TYPE_o \<Rightarrow> pop_and_store_unsigned_integer current_item out
      | TYPE_x \<Rightarrow> pop_and_store_unsigned_integer current_item out
      | TYPE_X \<Rightarrow> pop_and_store_unsigned_integer current_item out
      | TYPE_u \<Rightarrow> pop_and_store_unsigned_integer current_item out
      | TYPE_c \<Rightarrow> pop_and_store_character current_item out
      | TYPE_s \<Rightarrow> pop_and_store_string current_item out
      | TYPE_p \<Rightarrow> pop_and_store_pointer current_item out
      | TYPE_n \<Rightarrow> pop_and_store_n_pointer current_item out
      | TYPE_ERROR \<Rightarrow> Inl (Failed out)
      | _ \<Rightarrow> pop_and_store_floating_point current_item out)"

text \<open>
  \<^verbatim>\<open>pop_and_store_argument_list\<close>: every failure runs
  \<^verbatim>\<open>pop_and_store_cleanup(pia, count)\<close> before it returns \<^verbatim>\<open>false\<close>.
\<close>

function pop_and_store_argument_list_loop ::
  "machine \<Rightarrow> positional_info_array \<Rightarrow> int \<Rightarrow> int
     \<Rightarrow> machine error + (positional_info_array \<times> machine)" where
  "pop_and_store_argument_list_loop out pia count i =
     (if i < count then
        (if 0 \<le> i \<and> nat i < length (array pia) then
           (case pop_and_store_by_type (array pia ! nat i) out of
              Inl Undefined \<Rightarrow> Inl Undefined
            | Inl (Failed out') \<Rightarrow>
                (case pop_and_store_cleanup out' pia count of
                   None \<Rightarrow> Inl Undefined
                 | Some out'' \<Rightarrow> Inl (Failed out''))
            | Inr (current_item, out') \<Rightarrow>
                pop_and_store_argument_list_loop out'
                  (pia\<lparr>array := (array pia)[nat i := current_item]\<rparr>) count (i + 1))
         else Inl Undefined)
      else Inr (pia, out))"
  by pat_completeness auto
termination
  by (relation "measure (\<lambda>(out, pia, count, i). nat (count - i))") auto

definition pop_and_store_argument_list ::
  "machine \<Rightarrow> positional_info_array \<Rightarrow> int
     \<Rightarrow> machine error + (positional_info_array \<times> machine)" where
  "pop_and_store_argument_list out pia count = pop_and_store_argument_list_loop out pia count 0"

definition new_member :: positional_info where
  "new_member = \<lparr>length_pi = LENGTH_none, type_pi = TYPE_ERROR, item = None\<rparr>"

definition pia_initialise :: "machine \<Rightarrow> machine error + (positional_info_array \<times> machine)" where
  "pia_initialise out =
     (case malloc_cell out Cell_array of
        None \<Rightarrow> Inl (Failed out)
      | Some (a, out') \<Rightarrow>
          Inr (\<lparr>size_pia = DEFAULT_PIA_SIZE, array_block = Some a,
                array = replicate DEFAULT_PIA_SIZE new_member\<rparr>, out'))"

text \<open>
  \<^verbatim>\<open>while (current_size < required_size) current_size *= 2;\<close> on an \<^verbatim>\<open>int\<close>, which
  the source leaves unchecked (\<^verbatim>\<open>FIXME Check overflow\<close>). A doubling beyond
  \<^verbatim>\<open>INT_MAX\<close> overflows a signed \<^verbatim>\<open>int\<close>, and from size 0 the loop does not end: both
  are \<open>None\<close> here. The size is at least \<^verbatim>\<open>DEFAULT_PIA_SIZE\<close> once
  \<^verbatim>\<open>pia_initialise\<close> has run.
\<close>

function grow_size :: "nat \<Rightarrow> nat \<Rightarrow> nat option" where
  "grow_size current_size required_size =
     (if current_size < required_size then
        (if current_size = 0 \<or> int (current_size * 2) > INT_MAX then None
         else grow_size (current_size * 2) required_size)
      else Some current_size)"
  by pat_completeness auto
termination
  by (relation "measure (\<lambda>(current_size, required_size). required_size - current_size)") auto

text \<open>
  \<^verbatim>\<open>pia_check_size_and_update\<close>: \<^verbatim>\<open>realloc\<close> keeps the elements and the model keeps the
  address of the block.
\<close>

definition pia_check_size_and_update ::
  "machine \<Rightarrow> positional_info_array \<Rightarrow> int
     \<Rightarrow> machine error + (positional_info_array \<times> machine)" where
  "pia_check_size_and_update out pia required_size =
     (if required_size > int (size_pia pia) then
        (case grow_size (size_pia pia) (nat required_size) of
           None \<Rightarrow> Inl Undefined
         | Some current_size \<Rightarrow>
             if \<not> alloc_succeeds out then Inl (Failed out)
             else Inr (pia\<lparr>array := array pia @ replicate (current_size - size_pia pia) new_member,
                           size_pia := current_size\<rparr>, alloc_spend out))
      else Inr (pia, out))"

text \<open>\<^verbatim>\<open>free(pia->array); return false;\<close>\<close>

definition free_array_and_fail ::
  "machine \<Rightarrow> positional_info_array \<Rightarrow> machine error + 'a" where
  "free_array_and_fail out pia =
     (case free_cell out (array_block pia) of
        None \<Rightarrow> Inl Undefined
      | Some out' \<Rightarrow> Inl (Failed out'))"

text \<open>
  The block of \<^verbatim>\<open>parse_format_string_for_positions\<close> that the source repeats for the
  width, the precision and the value: make room for \<open>required_size\<close> slots, take
  \<^verbatim>\<open>current_item = pia->array + index\<close>, fail if the slot already has another type or
  length, then record the type and length. A slot outside the table is undefined.
\<close>

definition record_slot ::
  "machine \<Rightarrow> positional_info_array \<Rightarrow> int \<Rightarrow> int \<Rightarrow> format_string_types
     \<Rightarrow> format_string_lengths \<Rightarrow> machine error + (positional_info_array \<times> machine)" where
  "record_slot out pia required_size index ty len =
     (case pia_check_size_and_update out pia required_size of
        Inl Undefined \<Rightarrow> Inl Undefined
      | Inl (Failed out') \<Rightarrow> free_array_and_fail out' pia
      | Inr (pia', out') \<Rightarrow>
          if 0 \<le> index \<and> nat index < length (array pia') then
            (let current_item = array pia' ! nat index
             in if type_pi current_item \<noteq> TYPE_ERROR
                   \<and> (type_pi current_item \<noteq> ty \<or> length_pi current_item \<noteq> len)
                then free_array_and_fail out' pia'
                else Inr (pia'\<lparr>array := (array pia')
                                 [nat index := current_item\<lparr>type_pi := ty, length_pi := len\<rparr>]\<rparr>,
                          out'))
          else Inl Undefined)"

text \<open>
  The body of the scan loop for one directive. The precision block asks for room for
  \<^verbatim>\<open>fs.preceding_precision\<close> slots and then takes
  \<^verbatim>\<open>current_item = pia->array + fs.preceding_width - 1\<close>, as the source does.
\<close>

definition parse_directive_for_positions ::
  "machine \<Rightarrow> positional_info_array \<Rightarrow> int \<Rightarrow> format_specifier
     \<Rightarrow> machine error + (positional_info_array \<times> int \<times> machine)" where
  "parse_directive_for_positions out pia max_found fs =
     (if position fs = 0 then free_array_and_fail out pia
      else
        and_then
          (if preceding_width fs \<noteq> 0 then
             and_then
               (record_slot out pia (preceding_width fs) (preceding_width fs - 1)
                  TYPE_i LENGTH_none)
               (\<lambda>(pia1, out1). Inr (pia1, max max_found (preceding_width fs), out1))
           else Inr (pia, max_found, out))
          (\<lambda>(pia1, max1, out1).
        and_then
          (if preceding_precision fs \<noteq> 0 then
             and_then
               (record_slot out1 pia1 (preceding_precision fs) (preceding_width fs - 1)
                  TYPE_i LENGTH_none)
               (\<lambda>(pia2, out2). Inr (pia2, max max1 (preceding_precision fs), out2))
           else Inr (pia1, max1, out1))
          (\<lambda>(pia2, max2, out2).
        and_then
          (record_slot out2 pia2 (position fs) (position fs - 1) (type_fs fs) (length_fs fs))
          (\<lambda>(pia3, out3). Inr (pia3, max max2 (position fs), out3)))))"

fun parse_format_string_for_positions_loop ::
  "char list \<Rightarrow> machine \<Rightarrow> positional_info_array \<Rightarrow> int
     \<Rightarrow> machine error + (positional_info_array \<times> int \<times> machine)" where
  "parse_format_string_for_positions_loop [] out pia max_found = Inr (pia, max_found, out)"
| "parse_format_string_for_positions_loop (c # format) out pia max_found =
     (if c = NUL then Inr (pia, max_found, out)
      else if c = CHR ''%'' \<and> peek format = CHR ''%'' then
        parse_format_string_for_positions_loop (tl format) out pia max_found
      else if c = CHR ''%'' then
        (case read_format_string format of
           None \<Rightarrow> Inl Undefined
         | Some (err, fs) \<Rightarrow>
             if format_error_is_error err then free_array_and_fail out pia
             else
               (case parse_directive_for_positions out pia max_found fs of
                  Inl e \<Rightarrow> Inl e
                | Inr (pia', max_found', out') \<Rightarrow>
                    parse_format_string_for_positions_loop format out' pia' max_found'))
      else parse_format_string_for_positions_loop format out pia max_found)"

text \<open>
  The last loop of \<^verbatim>\<open>parse_format_string_for_positions\<close>: every slot up to
  \<open>max_found\<close> has been given.
\<close>

definition all_slots_given :: "positional_info_array \<Rightarrow> int \<Rightarrow> bool" where
  "all_slots_given pia max_found =
     list_all (\<lambda>i. type_pi (array pia ! i) \<noteq> TYPE_ERROR) [0..<nat max_found]"

definition parse_format_string_for_positions ::
  "char list \<Rightarrow> machine \<Rightarrow> machine error + (positional_info_array \<times> int \<times> machine)" where
  "parse_format_string_for_positions format out =
     (case pia_initialise out of
        Inl e \<Rightarrow> Inl e
      | Inr (pia, out0) \<Rightarrow>
          (case parse_format_string_for_positions_loop format out0 pia 0 of
             Inl e \<Rightarrow> Inl e
           | Inr (pia', max_found, out') \<Rightarrow>
               if all_slots_given pia' max_found then Inr (pia', max_found, out')
               else free_array_and_fail out' pia'))"

section \<open>The engine (printf.c)\<close>

text \<open>The locals of \<^verbatim>\<open>generic_printf\<close> that live across the iterations of its loop.\<close>

record locals =
  using_positions :: bool
  first_element :: bool
  pia :: positional_info_array
  position_count :: int

text \<open>
  The block the source repeats on its failure paths:
  \<^verbatim>\<open>if (using_positions) { pop_and_store_cleanup(&pia, position_count); free(pia.array); }\<close>
\<close>

definition cleanup_positions :: "machine \<Rightarrow> locals \<Rightarrow> machine option" where
  "cleanup_positions out l =
     (if using_positions l then
        (case pop_and_store_cleanup out (pia l) (position_count l) of
           None \<Rightarrow> None
         | Some out' \<Rightarrow> free_cell out' (array_block (pia l)))
      else Some out)"

definition cleanup_and_fail :: "machine \<Rightarrow> locals \<Rightarrow> machine error + 'a" where
  "cleanup_and_fail out l =
     (case cleanup_positions out l of None \<Rightarrow> Inl Undefined | Some out' \<Rightarrow> Inl (Failed out'))"

text \<open>Lines 736 to 754: the width given by an argument.\<close>

definition fetch_width ::
  "machine \<Rightarrow> locals \<Rightarrow> format_specifier \<Rightarrow> (format_specifier \<times> machine) option" where
  "fetch_width out l fs =
     (if preceding_width fs \<noteq> 0 then
        (case pop_or_load_width_precision out (using_positions l) (array (pia l))
                (preceding_width fs) of
           None \<Rightarrow> None
         | Some (w, out') \<Rightarrow>
             Some (if w \<ge> 0 then fs\<lparr>width := nat w\<rparr>
                   else if w = INT_MIN then fs\<lparr>left_justify := True, width := nat INT_MAX\<rparr>
                   else fs\<lparr>left_justify := True, width := nat (- w)\<rparr>,
                   out'))
      else Some (fs, out))"

text \<open>Lines 757 to 764: the precision given by an argument.\<close>

definition fetch_precision ::
  "machine \<Rightarrow> locals \<Rightarrow> format_specifier \<Rightarrow> (format_specifier \<times> machine) option" where
  "fetch_precision out l fs =
     (if preceding_precision fs \<noteq> 0 then
        (case pop_or_load_width_precision out (using_positions l) (array (pia l))
                (preceding_precision fs) of
           None \<Rightarrow> None
         | Some (p, out') \<Rightarrow> Some (if p \<ge> 0 then fs\<lparr>precision := p\<rparr> else fs, out'))
      else Some (fs, out))"

definition is_float_type :: "format_string_types \<Rightarrow> bool" where
  "is_float_type t =
     (t = TYPE_f \<or> t = TYPE_F \<or> t = TYPE_e \<or> t = TYPE_E \<or> t = TYPE_g \<or> t = TYPE_G
      \<or> t = TYPE_a \<or> t = TYPE_A)"

definition pop_then ::
  "('a \<times> machine) option \<Rightarrow> ('a \<Rightarrow> machine \<Rightarrow> result) \<Rightarrow> result" where
  "pop_then m f = (case m of None \<Rightarrow> Inl Undefined | Some (v, out) \<Rightarrow> f v out)"

text \<open>
  The cases of \<^verbatim>\<open>switch (fs.type)\<close> that set \<^verbatim>\<open>result\<close>. The floating-point cases
  return from \<^verbatim>\<open>generic_printf\<close> at once and are in \<open>generic_printf_step\<close>.
\<close>

definition directive_output :: "machine \<Rightarrow> locals \<Rightarrow> format_specifier \<Rightarrow> result" where
  "directive_output out l fs =
     (let up = using_positions l; items = array (pia l)
      in case type_fs fs of
           TYPE_d \<Rightarrow>
             pop_then (pop_or_load_integer fs out up items) (\<lambda>int_value out'.
               if int_value \<ge> 0 then write_integer_positive out' (nat int_value) fs
               else write_decimal_negative out' int_value fs)
         | TYPE_i \<Rightarrow>
             pop_then (pop_or_load_integer fs out up items) (\<lambda>int_value out'.
               if int_value \<ge> 0 then write_integer_positive out' (nat int_value) fs
               else write_decimal_negative out' int_value fs)
         | TYPE_o \<Rightarrow>
             pop_then (pop_or_load_unsigned_integer fs out up items) (\<lambda>uint_value out'.
               write_integer_positive out' uint_value fs)
         | TYPE_x \<Rightarrow>
             pop_then (pop_or_load_unsigned_integer fs out up items) (\<lambda>uint_value out'.
               write_integer_positive out' uint_value fs)
         | TYPE_X \<Rightarrow>
             pop_then (pop_or_load_unsigned_integer fs out up items) (\<lambda>uint_value out'.
               write_integer_positive out' uint_value fs)
         | TYPE_u \<Rightarrow>
             pop_then (pop_or_load_unsigned_integer fs out up items) (\<lambda>uint_value out'.
               write_integer_positive out' uint_value fs)
         | TYPE_c \<Rightarrow>
             pop_then (pop_or_load_character fs out up items) (\<lambda>uint_value out'.
               write_character out' uint_value fs)
         | TYPE_s \<Rightarrow>
             pop_then (pop_or_load_string fs out up items) (\<lambda>string_value out'.
               write_string out' string_value fs)
         | TYPE_p \<Rightarrow>
             pop_then (pop_or_load_pointer fs out up items) (\<lambda>pointer_value out'.
               write_pointer out' pointer_value fs)
         | TYPE_n \<Rightarrow>
             pop_then (pop_or_load_n_pointer fs out up items) (\<lambda>pointer_value out'.
               write_characters_written out' pointer_value fs)
         | _ \<Rightarrow> Inl (Failed out))"

text \<open>
  Lines 699 to 714: the first directive decides; with a position, the whole template is
  scanned and the slots are filled.
\<close>

definition decide_positions ::
  "char list \<Rightarrow> machine \<Rightarrow> locals \<Rightarrow> format_specifier \<Rightarrow> machine error + (locals \<times> machine)"
where
  "decide_positions format_start out l fs =
     (if first_element l \<and> position fs \<noteq> 0 then
        (case parse_format_string_for_positions format_start out of
           Inl e \<Rightarrow> Inl e
         | Inr (pia1, count1, out1) \<Rightarrow>
             (case pop_and_store_argument_list out1 pia1 count1 of
                Inl Undefined \<Rightarrow> Inl Undefined
              | Inl (Failed out2) \<Rightarrow> free_array_and_fail out2 pia1
              | Inr (pia2, out2) \<Rightarrow>
                  Inr (l\<lparr>using_positions := True, first_element := False, pia := pia2,
                         position_count := count1\<rparr>, out2)))
      else Inr (l\<lparr>first_element := False\<rparr>, out))"

text \<open>Lines 735 to 853: fetch, normalise, emit; the result is the new machine state.\<close>

definition process_directive :: "machine \<Rightarrow> locals \<Rightarrow> format_specifier \<Rightarrow> result" where
  "process_directive out l fs0 =
     (case fetch_width out l fs0 of
        None \<Rightarrow> Inl Undefined
      | Some (fs1, out1) \<Rightarrow>
          (case fetch_precision out1 l fs1 of
             None \<Rightarrow> Inl Undefined
           | Some (fs2, out2) \<Rightarrow>
               (let fs = snd (format_string_check_unused_values fs2)
                in if is_float_type (type_fs fs) then Inl (Failed out2)
                   else (case directive_output out2 l fs of
                           Inl Undefined \<Rightarrow> Inl Undefined
                         | Inl (Failed out3) \<Rightarrow> cleanup_and_fail out3 l
                         | Inr out3 \<Rightarrow> Inr out3))))"

text \<open>
  One iteration of the loop of \<^verbatim>\<open>generic_printf\<close>, on the character \<open>c\<close> under the
  cursor and the template \<open>rest\<close> behind it. It returns the number of characters the
  cursor moves beyond \<open>c\<close> (1 for \<^verbatim>\<open>%%\<close>, \<^verbatim>\<open>fs.input_length\<close> for a directive, 0 for
  a plain character), the locals and the machine state.
\<close>

definition generic_printf_step ::
  "char list \<Rightarrow> machine \<Rightarrow> locals \<Rightarrow> char \<Rightarrow> char list
     \<Rightarrow> machine error + (nat \<times> locals \<times> machine)" where
  "generic_printf_step format_start out l c rest =
     (if c = CHR ''%'' \<and> peek rest = CHR ''%'' then
        and_then (printf_output out CHR ''%'') (\<lambda>out'. Inr (1, l, out'))
      else if c = CHR ''%'' then
        (case read_format_string rest of
           None \<Rightarrow> Inl Undefined
         | Some (err, fs) \<Rightarrow>
             if format_error_is_error err then cleanup_and_fail out l
             else
               and_then (decide_positions format_start out l fs) (\<lambda>(l', out').
                 if (position fs = 0 \<and> using_positions l')
                    \<or> (position fs \<noteq> 0 \<and> \<not> using_positions l')
                 then cleanup_and_fail out' l'
                 else and_then (process_directive out' l' fs)
                        (\<lambda>out''. Inr (input_length fs, l', out''))))
      else
        (case printf_output out c of
           Inl Undefined \<Rightarrow> Inl Undefined
         | Inl (Failed out') \<Rightarrow> cleanup_and_fail out' l
         | Inr out' \<Rightarrow> Inr (0, l, out')))"

text \<open>The end of \<^verbatim>\<open>generic_printf\<close>: release the slot table and return \<^verbatim>\<open>true\<close>.\<close>

definition generic_printf_finish :: "machine \<Rightarrow> locals \<Rightarrow> result" where
  "generic_printf_finish out l =
     (case cleanup_positions out l of None \<Rightarrow> Inl Undefined | Some out' \<Rightarrow> Inr out')"

fun generic_printf_loop :: "char list \<Rightarrow> machine \<Rightarrow> locals \<Rightarrow> char list \<Rightarrow> result" where
  "generic_printf_loop format_start out l [] = generic_printf_finish out l"
| "generic_printf_loop format_start out l (c # rest) =
     (if c = NUL then generic_printf_finish out l
      else (case generic_printf_step format_start out l c rest of
              Inl e \<Rightarrow> Inl e
            | Inr (n, l', out') \<Rightarrow> generic_printf_loop format_start out' l' (drop n rest)))"

definition generic_printf :: "machine \<Rightarrow> char list \<Rightarrow> result" where
  "generic_printf out format =
     generic_printf_loop format out
       \<lparr>using_positions = False, first_element = True,
        pia = \<lparr>size_pia = 0, array_block = None, array = []\<rparr>, position_count = 0\<rparr>
       format"

section \<open>The entry points (printf.c)\<close>

text \<open>
  An entry point takes the world it runs in (the fields of the \<^verbatim>\<open>output_specifier\<close> in
  \<open>env\<close> are overwritten by the ones the entry point builds), its C parameters and the
  variadic pack. It returns the \<^verbatim>\<open>int\<close> it returns in C and the machine state it
  leaves, or \<open>None\<close> where the call has no defined behaviour. The template is
  \<open>None\<close> for a null pointer; \<^verbatim>\<open>assert\<close> is compiled out (\<^verbatim>\<open>NDEBUG\<close>), so the
  checks after it decide.

  \<^verbatim>\<open>return output.characters_written;\<close> converts the \<^verbatim>\<open>size_t\<close> to \<^verbatim>\<open>int\<close>.
\<close>

definition int_of_size_t :: "nat \<Rightarrow> int" where
  "int_of_size_t n = sint (word_of_nat n :: 32 word)"

definition make_output ::
  "machine \<Rightarrow> printf_output_type \<Rightarrow> nat option \<Rightarrow> nat option \<Rightarrow> int \<Rightarrow> nat \<Rightarrow> nat
     \<Rightarrow> va_arg list \<Rightarrow> machine" where
  "make_output env t f str d alloc limit args =
     env\<lparr>type_out := t, stream := f, fd := d, string := str, allocated_size := alloc,
         character_limit := limit, characters_written := 0, valist := args\<rparr>"

text \<open>\<^verbatim>\<open>if (result) return output.characters_written; else return -1;\<close>\<close>

definition return_count :: "result \<Rightarrow> (int \<times> machine) option" where
  "return_count r =
     (case r of
        Inl Undefined \<Rightarrow> None
      | Inl (Failed out) \<Rightarrow> Some (- 1, out)
      | Inr out \<Rightarrow> Some (int_of_size_t (characters_written out), out))"

definition stdout :: nat where
  "stdout = 1"

definition new_fprintf ::
  "machine \<Rightarrow> nat option \<Rightarrow> char list option \<Rightarrow> va_arg list \<Rightarrow> (int \<times> machine) option" where
  "new_fprintf env f format args =
     (let out = make_output env OUTPUT_stream f None 0 0 SIZE_MAX args
      in case format of
           None \<Rightarrow> Some (- 1, out)
         | Some fmt \<Rightarrow> return_count (generic_printf out fmt))"

definition new_vfprintf ::
  "machine \<Rightarrow> nat option \<Rightarrow> char list option \<Rightarrow> va_arg list \<Rightarrow> (int \<times> machine) option" where
  "new_vfprintf env f format args =
     (let out = make_output env OUTPUT_stream f None 0 0 SIZE_MAX args
      in case format of
           None \<Rightarrow> Some (- 1, out)
         | Some fmt \<Rightarrow> return_count (generic_printf out fmt))"

definition new_printf ::
  "machine \<Rightarrow> char list option \<Rightarrow> va_arg list \<Rightarrow> (int \<times> machine) option" where
  "new_printf env format args =
     (let out = make_output env OUTPUT_stream (Some stdout) None 0 0 SIZE_MAX args
      in case format of
           None \<Rightarrow> Some (- 1, out)
         | Some fmt \<Rightarrow> return_count (generic_printf out fmt))"

definition new_vprintf ::
  "machine \<Rightarrow> char list option \<Rightarrow> va_arg list \<Rightarrow> (int \<times> machine) option" where
  "new_vprintf env format args =
     (let out = make_output env OUTPUT_stream (Some stdout) None 0 0 SIZE_MAX args
      in case format of
           None \<Rightarrow> Some (- 1, out)
         | Some fmt \<Rightarrow> return_count (generic_printf out fmt))"

text \<open>
  The string sinks: on success \<^verbatim>\<open>*(output.string) = 0\<close> stores the terminator where the
  cursor stands.
\<close>

definition terminate_string :: "machine \<Rightarrow> machine option" where
  "terminate_string out =
     (case string out of
        None \<Rightarrow> None
      | Some p \<Rightarrow> Some (out\<lparr>memory := (memory out)(p \<mapsto> NUL)\<rparr>))"

definition return_count_string :: "bool \<Rightarrow> result \<Rightarrow> (int \<times> machine) option" where
  "return_count_string terminate r =
     (case r of
        Inl Undefined \<Rightarrow> None
      | Inl (Failed out) \<Rightarrow> Some (- 1, out)
      | Inr out \<Rightarrow>
          if terminate then
            map_option (\<lambda>out'. (int_of_size_t (characters_written out'), out'))
              (terminate_string out)
          else Some (int_of_size_t (characters_written out), out))"

definition new_sprintf ::
  "machine \<Rightarrow> nat option \<Rightarrow> char list option \<Rightarrow> va_arg list \<Rightarrow> (int \<times> machine) option" where
  "new_sprintf env str format args =
     (let out = make_output env OUTPUT_string None str 0 0 SIZE_MAX args
      in case format of
           None \<Rightarrow> Some (- 1, out)
         | Some fmt \<Rightarrow>
             if str = None then Some (- 1, out)
             else return_count_string True (generic_printf out fmt))"

definition new_vsprintf ::
  "machine \<Rightarrow> nat option \<Rightarrow> char list option \<Rightarrow> va_arg list \<Rightarrow> (int \<times> machine) option" where
  "new_vsprintf env str format args =
     (let out = make_output env OUTPUT_string None str 0 0 SIZE_MAX args
      in case format of
           None \<Rightarrow> Some (- 1, out)
         | Some fmt \<Rightarrow>
             if str = None then Some (- 1, out)
             else return_count_string True (generic_printf out fmt))"

definition new_snprintf ::
  "machine \<Rightarrow> nat option \<Rightarrow> nat \<Rightarrow> char list option \<Rightarrow> va_arg list
     \<Rightarrow> (int \<times> machine) option" where
  "new_snprintf env str size_n format args =
     (let out = make_output env OUTPUT_string None str 0 0 size_n args
      in case format of
           None \<Rightarrow> Some (- 1, out)
         | Some fmt \<Rightarrow>
             if size_n \<noteq> 0 \<and> str = None then Some (- 1, out)
             else return_count_string (size_n \<noteq> 0) (generic_printf out fmt))"

definition new_vsnprintf ::
  "machine \<Rightarrow> nat option \<Rightarrow> nat \<Rightarrow> char list option \<Rightarrow> va_arg list
     \<Rightarrow> (int \<times> machine) option" where
  "new_vsnprintf env str size_n format args =
     (let out = make_output env OUTPUT_string None str 0 0 size_n args
      in case format of
           None \<Rightarrow> Some (- 1, out)
         | Some fmt \<Rightarrow>
             if size_n \<noteq> 0 \<and> str = None then Some (- 1, out)
             else return_count_string (size_n \<noteq> 0) (generic_printf out fmt))"

text \<open>
  The growable sink. \<^verbatim>\<open>malloc(BASE_ALLOCATED_STRING_SIZE)\<close> gives a block at offset 0
  or the null pointer. Beside the return value the result carries the store to
  \<^verbatim>\<open>*strp\<close>: \<open>None\<close> when the call stores nothing there, \<open>Some p\<close> when it stores the
  pointer \<open>p\<close> (\<open>Some None\<close> is \<^verbatim>\<open>*strp = NULL\<close>); \<open>strp_given\<close> is
  \<^verbatim>\<open>strp != NULL\<close>. With a null \<^verbatim>\<open>format\<close> or \<^verbatim>\<open>strp\<close> the source frees the block and
  returns \<^verbatim>\<open>-1\<close> without a store to \<^verbatim>\<open>*strp\<close>.
\<close>

definition asprintf_start :: "machine \<Rightarrow> va_arg list \<Rightarrow> machine" where
  "asprintf_start env args =
     (if alloc_succeeds env then
        make_output ((alloc_spend env)\<lparr>block_size := Some BASE_ALLOCATED_STRING_SIZE\<rparr>)
          OUTPUT_allocated_string None (Some 0) 0 BASE_ALLOCATED_STRING_SIZE SIZE_MAX args
      else
        make_output env OUTPUT_allocated_string None None 0 BASE_ALLOCATED_STRING_SIZE
          SIZE_MAX args)"

text \<open>
  The success path behind \<^verbatim>\<open>generic_printf\<close>, from \<^verbatim>\<open>if (result) {\<close> on:
  \<^verbatim>\<open>realloc(output.string, output.allocated_size + 1)\<close> when the terminator does not
  fit, then \<^verbatim>\<open>output.allocated_size *= 2\<close>, then the store of the terminator.
\<close>

definition asprintf_terminate ::
  "machine \<Rightarrow> (int \<times> nat option option \<times> machine) option" where
  "asprintf_terminate out =
     (if characters_written out \<ge> allocated_size out \<and> \<not> alloc_succeeds out then
        Some (- 1, Some None, out\<lparr>block_size := None\<rparr>)
      else
        (let out1 = (if characters_written out \<ge> allocated_size out then
                       (alloc_spend out)\<lparr>block_size := Some (allocated_size out + 1),
                                          allocated_size := allocated_size out * 2\<rparr>
                     else out)
         in case (string out1, block_size out1) of
              (Some p, Some n) \<Rightarrow>
                if p + characters_written out1 < n then
                  Some (int_of_size_t (characters_written out1), Some (string out1),
                        out1\<lparr>memory := (memory out1)(p + characters_written out1 \<mapsto> NUL)\<rparr>)
                else None
            | _ \<Rightarrow> None))"

definition asprintf_finish ::
  "result \<Rightarrow> (int \<times> nat option option \<times> machine) option" where
  "asprintf_finish r =
     (case r of
        Inl Undefined \<Rightarrow> None
      | Inl (Failed out) \<Rightarrow> Some (- 1, Some None, out)
      | Inr out \<Rightarrow> asprintf_terminate out)"

definition new_asprintf ::
  "machine \<Rightarrow> bool \<Rightarrow> char list option \<Rightarrow> va_arg list
     \<Rightarrow> (int \<times> nat option option \<times> machine) option" where
  "new_asprintf env strp_given format args =
     (let out = asprintf_start env args
      in if format = None \<or> \<not> strp_given then Some (- 1, None, out\<lparr>block_size := None\<rparr>)
         else if string out = None then Some (- 1, Some None, out)
         else asprintf_finish (generic_printf out (the format)))"

definition new_vasprintf ::
  "machine \<Rightarrow> bool \<Rightarrow> char list option \<Rightarrow> va_arg list
     \<Rightarrow> (int \<times> nat option option \<times> machine) option" where
  "new_vasprintf env strp_given format args =
     (let out = asprintf_start env args
      in if format = None \<or> \<not> strp_given then Some (- 1, None, out\<lparr>block_size := None\<rparr>)
         else if string out = None then Some (- 1, Some None, out)
         else asprintf_finish (generic_printf out (the format)))"

text \<open>
  The descriptor sinks. \<^verbatim>\<open>new_dprintf\<close> sets \<^verbatim>\<open>output.type = OUTPUT_stream\<close> and
  \<^verbatim>\<open>output.stream = NULL\<close>; \<^verbatim>\<open>new_vdprintf\<close> sets
  \<^verbatim>\<open>output.type = OUTPUT_file_descriptor\<close>.
\<close>

definition new_dprintf ::
  "machine \<Rightarrow> int \<Rightarrow> char list option \<Rightarrow> va_arg list \<Rightarrow> (int \<times> machine) option" where
  "new_dprintf env d format args =
     (let out = make_output env OUTPUT_stream None None d 0 SIZE_MAX args
      in case format of
           None \<Rightarrow> Some (- 1, out)
         | Some fmt \<Rightarrow> return_count (generic_printf out fmt))"

definition new_vdprintf ::
  "machine \<Rightarrow> int \<Rightarrow> char list option \<Rightarrow> va_arg list \<Rightarrow> (int \<times> machine) option" where
  "new_vdprintf env d format args =
     (let out = make_output env OUTPUT_file_descriptor None None d 0 SIZE_MAX args
      in case format of
           None \<Rightarrow> Some (- 1, out)
         | Some fmt \<Rightarrow> return_count (generic_printf out fmt))"

text \<open>A world with nothing written, nothing allocated, and no failing call.\<close>

definition empty_world :: machine where
  "empty_world =
     \<lparr>type_out = OUTPUT_stream, stream = None, fd = 0, string = None, allocated_size = 0,
      character_limit = 0, characters_written = 0, stream_out = [], fd_out = [],
      io_budget = None, memory = Map.empty, block_size = None, alloc_budget = None,
      heap = [], valist = [], n_store = []\<rparr>"

text \<open>The bytes of the buffer at the offsets \<open>0\<close> to \<open>n - 1\<close>, where stored.\<close>

definition stored_bytes :: "machine \<Rightarrow> nat \<Rightarrow> char option list" where
  "stored_bytes out n = map (memory out) [0..<n]"

section \<open>Definitions used in the statements\<close>

text \<open>
  The range every descriptor is in once it is parsed and its \<^verbatim>\<open>*\<close> values are fetched;
  the last part says that a precision given by an argument leaves \<^verbatim>\<open>fs->precision\<close> at
  the sentinel until the fetch.
\<close>

definition descriptor_in_range :: "format_specifier \<Rightarrow> bool" where
  "descriptor_in_range fs =
     (int (width fs) \<le> INT_MAX \<and> - 1 \<le> precision fs \<and> precision fs \<le> INT_MAX
      \<and> (preceding_precision fs = 0 \<or> precision fs = - 1))"

text \<open>The descriptor of \<^verbatim>\<open>%d\<close>, \<^verbatim>\<open>%c\<close>, ...: one character read, nothing set but the type.\<close>

definition plain_directive :: "format_string_types \<Rightarrow> format_specifier" where
  "plain_directive t =
     \<lparr>input_length = 1, left_justify = False, always_sign = False, empty_sign = False,
      alternate_form = False, zero_padded = False, preceding_width = 0, width = 0,
      preceding_precision = 0, precision = - 1, length_fs = LENGTH_none, type_fs = t,
      position = 0\<rparr>"

text \<open>The locals of \<^verbatim>\<open>generic_printf\<close> in sequential mode, behind the first directive.\<close>

definition sequential :: locals where
  "sequential =
     \<lparr>using_positions = False, first_element = False,
      pia = \<lparr>size_pia = 0, array_block = None, array = []\<rparr>, position_count = 0\<rparr>"

text \<open>A buffer sink of the given size at offset 0 of the empty world, with a variadic pack.\<close>

definition buffer_sink :: "nat \<Rightarrow> va_arg list \<Rightarrow> machine" where
  "buffer_sink n args = make_output empty_world OUTPUT_string None (Some 0) 0 0 n args"

text \<open>
  Emitting a list of characters: \<^verbatim>\<open>printf_output\<close> on each in turn, stopping at the
  first that fails. The emitters are compared with it below.
\<close>

fun output_chars :: "machine \<Rightarrow> char list \<Rightarrow> result" where
  "output_chars out [] = Inr out"
| "output_chars out (c # cs) = and_then (printf_output out c) (\<lambda>out'. output_chars out' cs)"

text \<open>
  The integer field as the specification words it. \<open>digits_field\<close>: the precision is
  the minimum digit count, the number is zero-extended on the left to reach it; precision
  0 with value 0 gives no digit; the default precision \<open>- 1\<close> behaves as 1.
  \<open>padded_field\<close>: the width is the minimum total width of sign or prefix and digits;
  the slack is filled with \<^verbatim>\<open>0\<close> between prefix and digits under zero-pad, with
  spaces behind the digits under left-justify, with spaces in front of the prefix
  otherwise.
\<close>

definition digits_field :: "int \<Rightarrow> bool \<Rightarrow> char list \<Rightarrow> char list" where
  "digits_field prec is_zero digits =
     (if prec = 0 \<and> is_zero then []
      else replicate (nat (if prec = - 1 then 1 else prec) - length digits) CHR ''0'' @ digits)"

definition padded_field :: "format_specifier \<Rightarrow> char list \<Rightarrow> char list \<Rightarrow> char list" where
  "padded_field fs prefix body =
     (let slack = width fs - (length prefix + length body)
      in if zero_padded fs then prefix @ replicate slack CHR ''0'' @ body
         else if left_justify fs then prefix @ body @ replicate slack CHR '' ''
         else replicate slack CHR '' '' @ prefix @ body)"

text \<open>The sign of a non-negative decimal, and the prefixes of the alternate forms.\<close>

definition sign_prefix :: "format_specifier \<Rightarrow> char list" where
  "sign_prefix fs = (if always_sign fs then ''+'' else if empty_sign fs then '' '' else [])"

definition hexadecimal_prefix :: "format_specifier \<Rightarrow> char list" where
  "hexadecimal_prefix fs =
     (if alternate_form fs then (if type_fs fs = TYPE_X then ''0X'' else ''0x'') else [])"

definition octal_prefix :: "format_specifier \<Rightarrow> nat \<Rightarrow> char list" where
  "octal_prefix fs n_digits =
     (if alternate_form fs \<and> \<not> (precision fs \<noteq> - 1 \<and> nat (precision fs) > n_digits)
      then ''0'' else [])"

text \<open>
  The string field: the characters of the argument in front of its terminator, at most
  \<^verbatim>\<open>precision\<close> of them when a precision is given, padded with spaces to the width.
\<close>

definition c_string :: "char list \<Rightarrow> char list" where
  "c_string cs = takeWhile (\<lambda>c. c \<noteq> NUL) cs"

definition string_field :: "format_specifier \<Rightarrow> char list \<Rightarrow> char list" where
  "string_field fs cs =
     (let body = (if precision fs = - 1 then c_string cs
                  else take (nat (precision fs)) (c_string cs))
      in if left_justify fs then body @ replicate (width fs - length body) CHR '' ''
         else replicate (width fs - length body) CHR '' '' @ body)"

text \<open>A stretch of template with no directive in it: no \<^verbatim>\<open>%\<close> and no terminator.\<close>

definition plain_text :: "char list \<Rightarrow> bool" where
  "plain_text cs = list_all (\<lambda>c. c \<noteq> CHR ''%'' \<and> c \<noteq> NUL) cs"

text \<open>
  The engine and the sink. \<open>frame t out\<close> is the machine state with the sink of \<open>t\<close>
  (the \<^verbatim>\<open>output_specifier\<close>, what was written, the buffer, the budget of the write
  calls) and everything else (the variadic pack, the heap of the slot table, the
  allocation budget, the stores of \<^verbatim>\<open>%n\<close>) of \<open>out\<close>.
\<close>

definition frame :: "machine \<Rightarrow> machine \<Rightarrow> machine" where
  "frame t out =
     t\<lparr>alloc_budget := alloc_budget out, heap := heap out, valist := valist out,
       n_store := n_store out\<rparr>"

text \<open>
  The state of a fixed-buffer sink of size \<open>S\<close> on the caller's buffer \<open>str\<close>, in a
  world whose memory was \<open>mem0\<close>: the cursor has moved by the number of characters
  stored, which is the counter cut at \<open>S - 1\<close>, and nothing is stored outside that range.
\<close>

definition buffer_inv :: "(nat \<rightharpoonup> char) \<Rightarrow> nat option \<Rightarrow> nat \<Rightarrow> machine \<Rightarrow> bool" where
  "buffer_inv mem0 str S out =
     (type_out out = OUTPUT_string \<and> character_limit out = S
      \<and> (S = 0 \<or> str \<noteq> None)
      \<and> string out = map_option (\<lambda>b. b + min (characters_written out) (S - 1)) str
      \<and> (\<forall>a. (\<forall>b. str = Some b
                   \<longrightarrow> a < b \<or> b + min (characters_written out) (S - 1) \<le> a)
             \<longrightarrow> memory out a = mem0 a))"

text \<open>
  Two runs of the engine on two fixed-buffer sinks: the same counter, and the same state
  outside the sinks.
\<close>

definition twin ::
  "(nat \<rightharpoonup> char) \<Rightarrow> nat option \<Rightarrow> nat \<Rightarrow> (nat \<rightharpoonup> char) \<Rightarrow> nat option \<Rightarrow> nat
     \<Rightarrow> machine \<Rightarrow> machine \<Rightarrow> bool" where
  "twin m1 s1 S1 m2 s2 S2 a b =
     (buffer_inv m1 s1 S1 a \<and> buffer_inv m2 s2 S2 b
      \<and> characters_written a = characters_written b \<and> frame b a = b)"

section \<open>What a call leaves behind\<close>

text \<open>The value an entry point returns, and a field of the machine state it leaves.\<close>

definition returned :: "(int \<times> machine) option \<Rightarrow> int option" where
  "returned r = map_option fst r"

definition observe :: "(machine \<Rightarrow> 'a) \<Rightarrow> (int \<times> machine) option \<Rightarrow> 'a option" where
  "observe f r = map_option (\<lambda>p. f (snd p)) r"

definition buffer_after :: "nat \<Rightarrow> (int \<times> machine) option \<Rightarrow> char option list option" where
  "buffer_after n r = map_option (\<lambda>p. stored_bytes (snd p) n) r"

text \<open>The same for the growable sink, whose result also carries \<^verbatim>\<open>*strp\<close>.\<close>

definition returned_as ::
  "(int \<times> nat option option \<times> machine) option \<Rightarrow> int option" where
  "returned_as r = map_option fst r"

definition observe_as ::
  "(machine \<Rightarrow> 'a) \<Rightarrow> (int \<times> nat option option \<times> machine) option \<Rightarrow> 'a option" where
  "observe_as f r = map_option (\<lambda>p. f (snd (snd p))) r"

section \<open>Properties\<close>

text \<open>
  The equations of the loops are used by hand: as rewrite rules they would unfold without
  end once the simplifier looks into the branches of a conditional.
\<close>

declare write_backwards_buffer_loop.simps [simp del]
declare write_forwards_buffer_loop.simps [simp del]
declare pad_output_loop.simps [simp del]
declare write_integer_backwards.simps [simp del]
declare write_decimal_negative_backwards.simps [simp del]
declare pop_and_store_cleanup_loop.simps [simp del]
declare pop_and_store_argument_list_loop.simps [simp del]
declare grow_size.simps [simp del]

lemma and_then_simps [simp]:
  "and_then (Inl e) f = Inl e"
  "and_then (Inr a) f = f a"
  by (simp_all add: and_then_def)

subsection \<open>The descriptor entry points\<close>

text \<open>
  C2. \<^verbatim>\<open>new_dprintf\<close> builds a stream sink with a null stream, so the first character
  it emits goes to \<^verbatim>\<open>putc(c, NULL)\<close>, which has no defined behaviour, and nothing
  reaches the descriptor; \<^verbatim>\<open>new_vdprintf\<close> on the same call writes the character to
  descriptor 1 and returns 1.
\<close>

theorem new_dprintf_writes_to_null_stream:
  "new_dprintf empty_world 1 (Some ''a'') [] = None
   \<and> returned (new_vdprintf empty_world 1 (Some ''a'') []) = Some 1
   \<and> observe fd_out (new_vdprintf empty_world 1 (Some ''a'') []) = Some [(1, CHR ''a'')]"
  by (simp add: new_dprintf_def new_vdprintf_def make_output_def generic_printf_def
      generic_printf_step_def printf_output_def printf_output_fprintf_def
      printf_output_dprintf_def return_count_def peek_def NUL_def empty_world_def
      io_succeeds_def io_spend_def generic_printf_finish_def cleanup_positions_def
      int_of_size_t_def returned_def observe_def)

subsection \<open>The growable sink\<close>

text \<open>
  C8. A template of 16 characters fills the first block of 16 bytes, so the terminator
  does not fit: \<^verbatim>\<open>new_asprintf\<close> reallocates to 17 bytes and then doubles
  \<^verbatim>\<open>allocated_size\<close> to 32. The call returns 16; the capacity field is 32 and the
  block has 17 bytes.
\<close>

theorem new_asprintf_capacity_field_doubled:
  "returned_as (new_asprintf empty_world True (Some ''0123456789abcdef'') []) = Some 16
   \<and> observe_as allocated_size (new_asprintf empty_world True (Some ''0123456789abcdef'') [])
       = Some 32
   \<and> observe_as block_size (new_asprintf empty_world True (Some ''0123456789abcdef'') [])
       = Some (Some 17)"
  by (simp add: new_asprintf_def asprintf_start_def asprintf_finish_def asprintf_terminate_def
      make_output_def generic_printf_def generic_printf_step_def printf_output_def
      printf_output_asprintf_def asprintf_store_def peek_def NUL_def empty_world_def
      alloc_succeeds_def alloc_spend_def generic_printf_finish_def cleanup_positions_def
      int_of_size_t_def BASE_ALLOCATED_STRING_SIZE_def returned_as_def observe_as_def)

subsection \<open>The positional slot table\<close>

text \<open>
  C3. In \<^verbatim>\<open>%1$*2$.*3$d\<close> the precision is the argument of slot 3. The scan records
  the precision at the index of the width (slot 2) once more, slot 3 stays unrecorded,
  and the call fails with \<open>- 1\<close>, although the three arguments are there; without the
  precision the same directive prints.
\<close>

theorem precision_slot_recorded_at_width_index:
  "returned (new_snprintf empty_world (Some 0) 30 (Some ''%1$*2$.*3$d'')
               [VA_int 7, VA_int 5, VA_int 3]) = Some (- 1)
   \<and> returned (new_snprintf empty_world (Some 0) 30 (Some ''%1$*2$d'')
                 [VA_int 7, VA_int 5]) = Some 5"
  by code_simp

text \<open>
  C4. \<^verbatim>\<open>%1$d\<close> with one argument: the slot table has one item. The call succeeds and
  returns 1; the block of the table (address 0) is freed, the cell of the item
  (address 1) is still live when the call returns.
\<close>

theorem cleanup_leaves_last_item:
  "returned (new_snprintf empty_world (Some 0) 30 (Some ''%1$d'') [VA_int 7]) = Some 1
   \<and> observe heap (new_snprintf empty_world (Some 0) 30 (Some ''%1$d'') [VA_int 7])
       = Some [None, Some (Cell_item (VA_int 7))]"
  by code_simp

subsection \<open>The parser: the range of its descriptors\<close>

lemma format_string_atoi_loop_range:
  "format_string_atoi_loop format n cur = Some (n', v) \<Longrightarrow> 0 \<le> cur \<Longrightarrow> cur \<le> INT_MAX
   \<Longrightarrow> 0 \<le> v \<and> v \<le> INT_MAX"
proof (induction format arbitrary: n cur)
  case Nil
  then show ?case by simp
next
  case (Cons c format)
  show ?case
  proof (cases "is_digit c")
    case True
    with Cons.prems have le: "cur * 10 + (int (of_char c) - 48) \<le> INT_MAX"
      and rec: "format_string_atoi_loop format (n + 1) (cur * 10 + (int (of_char c) - 48))
                = Some (n', v)"
      by (simp_all split: if_splits)
    from True Cons.prems have "0 \<le> cur * 10 + (int (of_char c) - 48)"
      by (simp add: is_digit_def)
    from Cons.IH [OF rec this le] show ?thesis .
  next
    case False
    with Cons.prems show ?thesis by simp
  qed
qed

lemma format_string_atoi_range:
  "format_string_atoi format = Some (n, v) \<Longrightarrow> 0 \<le> v \<and> v \<le> INT_MAX"
  unfolding format_string_atoi_def
  by (erule format_string_atoi_loop_range) (simp_all add: INT_MAX_def)

text \<open>The later stages of the parser leave the width and the precision alone.\<close>

lemma read_format_string_type_keeps:
  "read_format_string_type format fs = (e, fs')
   \<Longrightarrow> width fs' = width fs \<and> precision fs' = precision fs
       \<and> preceding_precision fs' = preceding_precision fs"
  by (auto simp: read_format_string_type_def Let_def split: if_splits)

lemma read_format_string_length_keeps:
  "read_format_string_length format fs = (e, fs')
   \<Longrightarrow> width fs' = width fs \<and> precision fs' = precision fs
       \<and> preceding_precision fs' = preceding_precision fs"
  by (auto simp: read_format_string_length_def Let_def split: if_splits
      dest!: read_format_string_type_keeps)

lemma read_format_string_precision_range:
  assumes "read_format_string_precision format fs = Some (e, fs')"
    and "preceding_precision fs = 0" and "precision fs = - 1" and "int (width fs) \<le> INT_MAX"
  shows "descriptor_in_range fs'"
  using assms
  by (auto simp: read_format_string_precision_def Let_def descriptor_in_range_def INT_MAX_def
      split: if_splits option.splits
      dest!: read_format_string_length_keeps format_string_atoi_range)


lemma read_format_string_width_range:
  assumes "read_format_string_width format fs = Some (e, fs')"
    and "preceding_precision fs = 0" and "precision fs = - 1" and "int (width fs) \<le> INT_MAX"
  shows "descriptor_in_range fs'"
proof (cases "peek format = CHR ''*''")
  case True
  show ?thesis
  proof (cases "position fs \<noteq> 0")
    case pos: True
    from assms True pos obtain n w where
      a: "format_string_atoi (drop 1 format) = Some (n, w)"
      by (auto simp: read_format_string_width_def Let_def split: option.splits)
    show ?thesis
    proof (cases "w = 0 \<or> peek (drop n (drop 1 format)) \<noteq> CHR ''$''")
      case True
      with assms \<open>peek format = CHR ''*''\<close> pos a show ?thesis
        by (auto simp: read_format_string_width_def Let_def descriptor_in_range_def)
    next
      case False
      with assms \<open>peek format = CHR ''*''\<close> pos a show ?thesis
        by (auto simp: read_format_string_width_def Let_def
            intro!: read_format_string_precision_range)
    qed
  next
    case False
    with assms True show ?thesis
      by (auto simp: read_format_string_width_def Let_def
          intro!: read_format_string_precision_range)
  qed
next
  case False
  with assms obtain n w where
    a: "format_string_atoi format = Some (n, w)"
    and r: "read_format_string_precision (drop n format)
              (fs\<lparr>width := nat w, input_length := input_length fs + n\<rparr>) = Some (e, fs')"
    by (auto simp: read_format_string_width_def Let_def split: option.splits)
  from format_string_atoi_range [OF a] have "int (nat w) \<le> INT_MAX" by simp
  with r assms show ?thesis
    by (auto intro!: read_format_string_precision_range)
qed

lemma read_format_string_flags_loop_keeps:
  "read_format_string_flags_loop format fs err = (format', fs', err')
   \<Longrightarrow> width fs' = width fs \<and> precision fs' = precision fs
       \<and> preceding_precision fs' = preceding_precision fs"
  by (induction format fs err rule: read_format_string_flags_loop.induct)
     (auto split: if_splits)

lemma read_format_string_flags_range:
  assumes "read_format_string_flags format fs = Some (e, fs')"
    and "preceding_precision fs = 0" and "precision fs = - 1" and "int (width fs) \<le> INT_MAX"
  shows "descriptor_in_range fs'"
proof -
  obtain format1 fs1 err where l: "read_format_string_flags_loop format fs FORMAT_okay
      = (format1, fs1, err)"
    by (cases "read_format_string_flags_loop format fs FORMAT_okay") auto
  with assms obtain rest where "read_format_string_width format1 fs1 = Some (rest, fs')"
    by (auto simp: read_format_string_flags_def split: option.splits)
  moreover from read_format_string_flags_loop_keeps [OF l] assms
  have "preceding_precision fs1 = 0" "precision fs1 = - 1" "int (width fs1) \<le> INT_MAX"
    by simp_all
  ultimately show ?thesis by (rule read_format_string_width_range)
qed

lemma read_format_string_position_range:
  assumes "read_format_string_position format fs = Some (e, fs')"
    and "preceding_precision fs = 0" and "precision fs = - 1" and "int (width fs) \<le> INT_MAX"
  shows "descriptor_in_range fs'"
proof (cases "(of_char (peek format) :: nat) > 48 \<and> (of_char (peek format) :: nat) \<le> 57")
  case True
  with assms obtain n pos where a: "format_string_atoi format = Some (n, pos)"
    by (auto simp: read_format_string_position_def split: option.splits)
  from format_string_atoi_range [OF a] have w: "int (nat pos) \<le> INT_MAX" by simp
  have w': "(0 \<le> pos \<longrightarrow> pos \<le> INT_MAX) \<and> (\<not> 0 \<le> pos \<longrightarrow> 0 \<le> INT_MAX)"
    using format_string_atoi_range [OF a] by simp
  show ?thesis
  proof (cases "peek (drop n format) = CHR ''$''")
    case dollar: True
    with assms True a have "read_format_string_flags (drop 1 (drop n format))
        (fs\<lparr>input_length := input_length fs + n + 1, position := pos\<rparr>) = Some (e, fs')"
      by (simp add: read_format_string_position_def Let_def)
    then show ?thesis
      by (rule read_format_string_flags_range) (simp_all add: assms)
  next
    case False
    with assms True a have "read_format_string_precision (drop n format)
        (fs\<lparr>input_length := input_length fs + n, width := nat pos\<rparr>) = Some (e, fs')"
      by (simp add: read_format_string_position_def Let_def)
    then show ?thesis
      by (rule read_format_string_precision_range) (simp_all add: assms w')
  qed
next
  case False
  with assms show ?thesis
    by (auto simp: read_format_string_position_def intro!: read_format_string_flags_range)
qed

lemma read_format_string_range:
  "read_format_string format = Some (e, fs) \<Longrightarrow> descriptor_in_range fs"
  by (auto simp: read_format_string_def INT_MAX_def split: option.splits if_splits
      intro!: read_format_string_position_range)

lemma pop_or_load_width_precision_range:
  "pop_or_load_width_precision out up items pos = Some (w, out')
   \<Longrightarrow> INT_MIN \<le> w \<and> w \<le> INT_MAX"
proof -
  have "INT_MIN \<le> sint a \<and> sint a \<le> INT_MAX" for a :: "32 word"
    using sint_ge [of a] sint_lt [of a] by (simp add: INT_MIN_def INT_MAX_def)
  then show "pop_or_load_width_precision out up items pos = Some (w, out')
    \<Longrightarrow> INT_MIN \<le> w \<and> w \<le> INT_MAX"
    by (auto simp: pop_or_load_width_precision_def split: if_splits)
qed

lemma fetch_width_range:
  "fetch_width out l fs = Some (fs', out') \<Longrightarrow> descriptor_in_range fs
   \<Longrightarrow> descriptor_in_range fs'"
  by (auto simp: fetch_width_def descriptor_in_range_def INT_MAX_def INT_MIN_def
      split: if_splits option.splits dest!: pop_or_load_width_precision_range)

lemma fetch_precision_range:
  "fetch_precision out l fs = Some (fs', out') \<Longrightarrow> descriptor_in_range fs
   \<Longrightarrow> int (width fs') \<le> INT_MAX \<and> - 1 \<le> precision fs' \<and> precision fs' \<le> INT_MAX"
  by (auto simp: fetch_precision_def descriptor_in_range_def INT_MAX_def INT_MIN_def
      split: if_splits option.splits dest!: pop_or_load_width_precision_range)

text \<open>
  On these descriptors the conversions of the precision to \<^verbatim>\<open>unsigned int\<close> and to
  \<^verbatim>\<open>size_t\<close> in the emitters are \<open>nat\<close>.
\<close>

lemma precision_unsigned_conversion:
  assumes "descriptor_in_range fs" and "precision fs \<noteq> - 1"
  shows "unat (word_of_int (precision fs) :: 32 word) = nat (precision fs)"
    and "unat (word_of_int (precision fs) :: 64 word) = nat (precision fs)"
proof -
  from assms have r: "0 \<le> precision fs" "precision fs < 2 ^ 31"
    by (simp_all add: descriptor_in_range_def INT_MAX_def)
  then have "precision fs mod 2 ^ 32 = precision fs" "precision fs mod 2 ^ 64 = precision fs"
    by simp_all
  then show "unat (word_of_int (precision fs) :: 32 word) = nat (precision fs)"
    and "unat (word_of_int (precision fs) :: 64 word) = nat (precision fs)"
    by (simp_all add: unat_eq_nat_uint uint_word_of_int)
qed

subsection \<open>The validator and the normaliser\<close>

lemma apply_rule_simp:
  "apply_rule (cond, w, upd) p = (if cond (snd p) then (w, upd (snd p)) else p)"
  by (simp add: apply_rule_def)

lemma fold_rules_commute:
  assumes "list_all (\<lambda>r. case r of (cond, w, upd) \<Rightarrow>
              (\<forall>fs. cond (g fs) = cond fs \<and> upd (g fs) = g (upd fs))) rules"
  shows "fold apply_rule rules (e, g fs) = apsnd g (fold apply_rule rules (e, fs))"
  using assms
proof (induction rules arbitrary: e fs)
  case Nil
  then show ?case by simp
next
  case (Cons r rules)
  obtain cond w upd where r: "r = (cond, w, upd)" by (cases r)
  from Cons.prems have c: "\<And>fs. cond (g fs) = cond fs" and u: "\<And>fs. upd (g fs) = g (upd fs)"
    and rest: "list_all (\<lambda>r. case r of (cond, w, upd) \<Rightarrow>
              (\<forall>fs. cond (g fs) = cond fs \<and> upd (g fs) = g (upd fs))) rules"
    by (simp_all add: r)
  show ?case
    by (cases "cond fs") (simp_all add: r apply_rule_simp c u Cons.IH [OF rest])
qed

lemma check_unused_values_length:
  "snd (format_string_check_unused_values (fs\<lparr>length_fs := x\<rparr>))
   = (snd (format_string_check_unused_values fs))\<lparr>length_fs := x\<rparr>"
proof -
  have "fold apply_rule unused_value_rules (FORMAT_okay, (\<lambda>fs. fs\<lparr>length_fs := x\<rparr>) fs)
        = apsnd (\<lambda>fs. fs\<lparr>length_fs := x\<rparr>) (fold apply_rule unused_value_rules (FORMAT_okay, fs))"
    by (rule fold_rules_commute) (simp add: unused_value_rules_def)
  then show ?thesis by (simp add: format_string_check_unused_values_def)
qed

lemma check_unused_values_preceding_precision:
  "snd (format_string_check_unused_values (fs\<lparr>preceding_precision := x\<rparr>))
   = (snd (format_string_check_unused_values fs))\<lparr>preceding_precision := x\<rparr>"
proof -
  have "fold apply_rule unused_value_rules (FORMAT_okay, (\<lambda>fs. fs\<lparr>preceding_precision := x\<rparr>) fs)
        = apsnd (\<lambda>fs. fs\<lparr>preceding_precision := x\<rparr>) (fold apply_rule unused_value_rules (FORMAT_okay, fs))"
    by (rule fold_rules_commute) (simp add: unused_value_rules_def)
  then show ?thesis by (simp add: format_string_check_unused_values_def)
qed

lemma fold_rules_invariant:
  assumes "list_all (\<lambda>r. case r of (cond, w, upd) \<Rightarrow> (\<forall>fs. P fs \<longrightarrow> P (upd fs))) rules"
    and "P (snd p)"
  shows "P (snd (fold apply_rule rules p))"
  using assms
proof (induction rules arbitrary: p)
  case Nil
  then show ?case by simp
next
  case (Cons r rules)
  then show ?case by (cases r) (auto simp: apply_rule_simp)
qed

lemma check_unused_values_type:
  "type_fs (snd (format_string_check_unused_values fs)) = type_fs fs"
  unfolding format_string_check_unused_values_def
  by (rule fold_rules_invariant [where P = "\<lambda>f. type_fs f = type_fs fs"])
     (simp_all add: unused_value_rules_def)

lemma check_unused_values_range:
  assumes "int (width fs) \<le> INT_MAX \<and> - 1 \<le> precision fs \<and> precision fs \<le> INT_MAX"
  shows "int (width (snd (format_string_check_unused_values fs))) \<le> INT_MAX
         \<and> - 1 \<le> precision (snd (format_string_check_unused_values fs))
         \<and> precision (snd (format_string_check_unused_values fs)) \<le> INT_MAX"
proof -
  have "(\<lambda>f. int (width f) \<le> INT_MAX \<and> - 1 \<le> precision f \<and> precision f \<le> INT_MAX)
          (snd (fold apply_rule unused_value_rules (FORMAT_okay, fs)))"
  proof (rule fold_rules_invariant)
    show "list_all (\<lambda>r. case r of (cond, w, upd) \<Rightarrow>
            (\<forall>fs. int (width fs) \<le> INT_MAX \<and> - 1 \<le> precision fs \<and> precision fs \<le> INT_MAX
              \<longrightarrow> int (width (upd fs)) \<le> INT_MAX \<and> - 1 \<le> precision (upd fs)
                  \<and> precision (upd fs) \<le> INT_MAX)) unused_value_rules"
      by (simp add: unused_value_rules_def INT_MAX_def)
    show "int (width (snd (FORMAT_okay, fs))) \<le> INT_MAX \<and> - 1 \<le> precision (snd (FORMAT_okay, fs))
          \<and> precision (snd (FORMAT_okay, fs)) \<le> INT_MAX"
      using assms by simp
  qed
  then show ?thesis by (simp add: format_string_check_unused_values_def)
qed

lemma fetch_width_length:
  "fetch_width out l (fs\<lparr>length_fs := x\<rparr>)
   = map_option (\<lambda>(fs', out'). (fs'\<lparr>length_fs := x\<rparr>, out')) (fetch_width out l fs)"
  by (auto simp: fetch_width_def split: option.splits)

lemma fetch_precision_length:
  "fetch_precision out l (fs\<lparr>length_fs := x\<rparr>)
   = map_option (\<lambda>(fs', out'). (fs'\<lparr>length_fs := x\<rparr>, out')) (fetch_precision out l fs)"
  by (auto simp: fetch_precision_def split: option.splits)

lemma fetch_width_type:
  "fetch_width out l fs = Some (fs', out') \<Longrightarrow> type_fs fs' = type_fs fs"
  by (auto simp: fetch_width_def split: option.splits if_splits)

lemma fetch_precision_type:
  "fetch_precision out l fs = Some (fs', out') \<Longrightarrow> type_fs fs' = type_fs fs"
  by (auto simp: fetch_precision_def split: option.splits if_splits)

lemma write_character_length:
  "write_character out v (fs\<lparr>length_fs := x\<rparr>) = write_character out v fs"
  by (simp add: write_character_def write_backwards_buffer_with_padding_def Let_def cong: if_cong)

lemma write_string_length:
  "write_string out s (fs\<lparr>length_fs := x\<rparr>) = write_string out s fs"
  by (simp add: write_string_def Let_def cong: option.case_cong if_cong)

lemma directive_output_narrow:
  assumes "type_fs fs = TYPE_c \<or> type_fs fs = TYPE_s"
  shows "directive_output out l (fs\<lparr>length_fs := LENGTH_l\<rparr>)
         = directive_output out l (fs\<lparr>length_fs := LENGTH_none\<rparr>)"
  using assms
  by (auto simp: directive_output_def pop_or_load_character_def pop_or_load_string_def
      write_character_length write_string_length)

subsection \<open>Width and precision given by an argument\<close>

text \<open>
  C6. A width fetched from an argument (\<^verbatim>\<open>*\<close> or \<^verbatim>\<open>*M$\<close>) that is negative sets
  left-justify and the width \<open>- w\<close>, and \<^verbatim>\<open>INT_MAX\<close> for \<open>w = INT_MIN\<close>. So the
  directive behaves as the same directive with the \<^verbatim>\<open>-\<close> flag whose width argument is
  \<open>- w\<close>: from the fetch to the output both do the same.
\<close>

theorem negative_width_left_justifies:
  assumes "preceding_width fs \<noteq> 0"
    and "pop_or_load_width_precision out (using_positions l) (array (pia l))
           (preceding_width fs) = Some (w, out')"
    and "w < 0"
  shows "fetch_width out l fs
         = Some (fs\<lparr>left_justify := True,
                   width := (if w = INT_MIN then nat INT_MAX else nat (- w))\<rparr>, out')
         \<and> (pop_or_load_width_precision out2 (using_positions l) (array (pia l))
               (preceding_width fs) = Some (- w, out')
             \<longrightarrow> process_directive out l fs
                 = process_directive out2 l (fs\<lparr>left_justify := True\<rparr>))"
proof (intro conjI impI)
  show fw: "fetch_width out l fs
         = Some (fs\<lparr>left_justify := True,
                   width := (if w = INT_MIN then nat INT_MAX else nat (- w))\<rparr>, out')"
    using assms by (simp add: fetch_width_def)
  assume pop2: "pop_or_load_width_precision out2 (using_positions l) (array (pia l))
               (preceding_width fs) = Some (- w, out')"
  from pop_or_load_width_precision_range [OF pop2] have "w \<noteq> INT_MIN"
    by (auto simp: INT_MIN_def INT_MAX_def)
  with assms have 1: "fetch_width out l fs
      = Some (fs\<lparr>left_justify := True, width := nat (- w)\<rparr>, out')"
    by (simp add: fetch_width_def)
  from assms pop2 have 2: "fetch_width out2 l (fs\<lparr>left_justify := True\<rparr>)
      = Some (fs\<lparr>left_justify := True, width := nat (- w)\<rparr>, out')"
    by (simp add: fetch_width_def)
  show "process_directive out l fs = process_directive out2 l (fs\<lparr>left_justify := True\<rparr>)"
    by (simp add: process_directive_def 1 2)
qed

theorem negative_width_left_justifies_witness:
  "fetch_width (buffer_sink 30 [VA_int (- 5), VA_int 42]) sequential
     ((plain_directive TYPE_d)\<lparr>preceding_width := 1\<rparr>)
   = Some ((plain_directive TYPE_d)\<lparr>preceding_width := 1, left_justify := True, width := 5\<rparr>,
           buffer_sink 30 [VA_int 42])
   \<and> process_directive (buffer_sink 30 [VA_int (- 5), VA_int 42]) sequential
       ((plain_directive TYPE_d)\<lparr>preceding_width := 1\<rparr>)
     = process_directive (buffer_sink 30 [VA_int 5, VA_int 42]) sequential
       ((plain_directive TYPE_d)\<lparr>preceding_width := 1, left_justify := True\<rparr>)
   \<and> fetch_width (buffer_sink 30 [VA_int (- 2147483648), VA_int 42]) sequential
       ((plain_directive TYPE_d)\<lparr>preceding_width := 1\<rparr>)
     = Some ((plain_directive TYPE_d)
               \<lparr>preceding_width := 1, left_justify := True, width := 2147483647\<rparr>,
             buffer_sink 30 [VA_int 42])"
proof -
  let ?fs = "(plain_directive TYPE_d)\<lparr>preceding_width := 1\<rparr>"
  have p1: "pop_or_load_width_precision (buffer_sink 30 [VA_int (- 5), VA_int 42])
              (using_positions sequential) (array (pia sequential)) (preceding_width ?fs)
            = Some (- 5, buffer_sink 30 [VA_int 42])"
    by (simp add: pop_or_load_width_precision_def sequential_def va_arg_int_def
        buffer_sink_def make_output_def)
  have p2: "pop_or_load_width_precision (buffer_sink 30 [VA_int 5, VA_int 42])
              (using_positions sequential) (array (pia sequential)) (preceding_width ?fs)
            = Some (- (- 5), buffer_sink 30 [VA_int 42])"
    by (simp add: pop_or_load_width_precision_def sequential_def va_arg_int_def
        buffer_sink_def make_output_def)
  have p3: "pop_or_load_width_precision (buffer_sink 30 [VA_int (- 2147483648), VA_int 42])
              (using_positions sequential) (array (pia sequential)) (preceding_width ?fs)
            = Some (- 2147483648, buffer_sink 30 [VA_int 42])"
    by (simp add: pop_or_load_width_precision_def sequential_def va_arg_int_def
        buffer_sink_def make_output_def)
  have pw: "preceding_width ?fs \<noteq> 0" by (simp add: plain_directive_def)
  from negative_width_left_justifies [OF pw p1, of "buffer_sink 30 [VA_int 5, VA_int 42]"]
       negative_width_left_justifies [OF pw p3, of "buffer_sink 30 [VA_int 5, VA_int 42]"]
       p2
  show ?thesis
    by (simp add: INT_MIN_def INT_MAX_def plain_directive_def)
qed

lemma write_integer_backwards_type:
  "type_fs fs' = type_fs fs
   \<Longrightarrow> write_integer_backwards val fs' base = write_integer_backwards val fs base"
proof (induction val fs base rule: write_integer_backwards.induct)
  case (1 val fs base)
  have l: "write_integer_backwards val fs' base
           = (let char_values = (if type_fs fs' = TYPE_X then base_conversion_capital
                                 else base_conversion_small)
              in if 2 \<le> base \<and> val div base \<noteq> 0 then
                   char_values ! (val mod base) # write_integer_backwards (val div base) fs' base
                 else [char_values ! (val mod base)])"
    by (rule write_integer_backwards.simps)
  have r: "write_integer_backwards val fs base
           = (let char_values = (if type_fs fs = TYPE_X then base_conversion_capital
                                 else base_conversion_small)
              in if 2 \<le> base \<and> val div base \<noteq> 0 then
                   char_values ! (val mod base) # write_integer_backwards (val div base) fs base
                 else [char_values ! (val mod base)])"
    by (rule write_integer_backwards.simps)
  show ?case
  proof (cases "2 \<le> base \<and> val div base \<noteq> 0")
    case True
    with 1 have ih: "write_integer_backwards (val div base) fs' base
                 = write_integer_backwards (val div base) fs base"
      by simp
    show ?thesis by (simp only: l r Let_def True if_True ih 1(2))
  next
    case False
    show ?thesis by (simp only: l r Let_def False if_False 1(2))
  qed
qed

lemma write_backwards_buffer_with_padding_pp:
  "write_backwards_buffer_with_padding out buffer len (fs\<lparr>preceding_precision := x\<rparr>) p1 p2 pad pp
   = write_backwards_buffer_with_padding out buffer len fs p1 p2 pad pp"
  by (simp add: write_backwards_buffer_with_padding_def cong: if_cong)

lemma write_integer_positive_pp:
  "write_integer_positive out v (fs\<lparr>preceding_precision := x\<rparr>) = write_integer_positive out v fs"
  by (simp add: write_integer_positive_def write_decimal_positive_def write_octal_def
      write_hexadecimal_def precision_length_of_def precision_padding_of_def Let_def
      write_backwards_buffer_with_padding_def
      write_integer_backwards_type [of "fs\<lparr>preceding_precision := x\<rparr>" fs]
      cong: if_cong)

lemma write_decimal_negative_pp:
  "write_decimal_negative out v (fs\<lparr>preceding_precision := x\<rparr>) = write_decimal_negative out v fs"
  by (simp add: write_decimal_negative_def precision_length_of_def precision_padding_of_def
      Let_def write_backwards_buffer_with_padding_pp cong: if_cong)

lemma write_character_pp:
  "write_character out v (fs\<lparr>preceding_precision := x\<rparr>) = write_character out v fs"
  by (simp add: write_character_def write_backwards_buffer_with_padding_pp Let_def cong: if_cong)

lemma write_string_pp:
  "write_string out s (fs\<lparr>preceding_precision := x\<rparr>) = write_string out s fs"
  by (simp add: write_string_def Let_def cong: option.case_cong if_cong)

lemma write_pointer_pp:
  "write_pointer out v (fs\<lparr>preceding_precision := x\<rparr>) = write_pointer out v fs"
  by (simp add: write_pointer_def Let_def cong: if_cong)

lemma write_characters_written_pp:
  "write_characters_written out v (fs\<lparr>preceding_precision := x\<rparr>) = write_characters_written out v fs"
  by (simp add: write_characters_written_def Let_def cong: if_cong)

lemma directive_output_pp:
  "directive_output out l (fs\<lparr>preceding_precision := x\<rparr>) = directive_output out l fs"
  by (simp add: directive_output_def pop_or_load_integer_def pop_or_load_unsigned_integer_def
      pop_or_load_character_def pop_or_load_string_def pop_or_load_pointer_def
      pop_or_load_n_pointer_def write_integer_positive_pp write_decimal_negative_pp
      write_character_pp write_string_pp write_pointer_pp write_characters_written_pp
      Let_def cong: format_string_types.case_cong if_cong)

lemma fetch_width_keeps_precision:
  "fetch_width out l fs = Some (fs1, out1)
   \<Longrightarrow> preceding_precision fs1 = preceding_precision fs \<and> precision fs1 = precision fs"
  by (auto simp: fetch_width_def split: option.splits if_splits)

lemma read_format_string_precision_unset:
  "read_format_string format = Some (err, fs) \<Longrightarrow> preceding_precision fs \<noteq> 0
   \<Longrightarrow> precision fs = - 1"
  by (drule read_format_string_range) (simp add: descriptor_in_range_def)

text \<open>
  C10. A precision fetched from an argument (\<^verbatim>\<open>.*\<close> or \<^verbatim>\<open>.*M$\<close>) that is negative
  is ignored: the parser has left \<^verbatim>\<open>fs.precision\<close> at \<open>- 1\<close>, the fetch leaves the
  descriptor as it is, and the directive then does what the directive without a
  precision does on the arguments that are left.
\<close>

theorem negative_precision_ignored:
  assumes parse: "read_format_string format = Some (err, fs)"
    and pp: "preceding_precision fs \<noteq> 0"
    and fw: "fetch_width out l fs = Some (fs1, out1)"
    and pop: "pop_or_load_width_precision out1 (using_positions l) (array (pia l))
                (preceding_precision fs) = Some (p, out2)"
    and neg: "p < 0"
  shows "precision fs = - 1
         \<and> fetch_precision out1 l fs1 = Some (fs1, out2)
         \<and> precision fs1 = - 1
         \<and> (fetch_width out' l (fs\<lparr>preceding_precision := 0\<rparr>)
               = Some (fs1\<lparr>preceding_precision := 0\<rparr>, out2)
             \<longrightarrow> process_directive out l fs
                 = process_directive out' l (fs\<lparr>preceding_precision := 0\<rparr>))"
proof (intro conjI impI)
  show unset: "precision fs = - 1"
    using parse pp by (rule read_format_string_precision_unset)
  from fetch_width_keeps_precision [OF fw]
  have keep: "preceding_precision fs1 = preceding_precision fs" "precision fs1 = precision fs"
    by simp_all
  show fp: "fetch_precision out1 l fs1 = Some (fs1, out2)"
    using pp pop neg by (simp add: fetch_precision_def keep)
  show "precision fs1 = - 1"
    by (simp add: keep unset)
  assume fw': "fetch_width out' l (fs\<lparr>preceding_precision := 0\<rparr>)
               = Some (fs1\<lparr>preceding_precision := 0\<rparr>, out2)"
  have fp': "fetch_precision out2 l (fs1\<lparr>preceding_precision := 0\<rparr>)
             = Some (fs1\<lparr>preceding_precision := 0\<rparr>, out2)"
    by (simp add: fetch_precision_def)
  show "process_directive out l fs = process_directive out' l (fs\<lparr>preceding_precision := 0\<rparr>)"
    by (simp add: process_directive_def fw fp fw' fp' check_unused_values_preceding_precision
        directive_output_pp Let_def)
qed

theorem negative_precision_ignored_witness:
  "read_format_string ''.*d'' = Some (FORMAT_okay,
      (plain_directive TYPE_d)\<lparr>input_length := 3, preceding_precision := 1\<rparr>)
   \<and> fetch_precision (buffer_sink 30 [VA_int (- 3), VA_int 42]) sequential
       ((plain_directive TYPE_d)\<lparr>input_length := 3, preceding_precision := 1\<rparr>)
     = Some ((plain_directive TYPE_d)\<lparr>input_length := 3, preceding_precision := 1\<rparr>,
             buffer_sink 30 [VA_int 42])
   \<and> process_directive (buffer_sink 30 [VA_int (- 3), VA_int 42]) sequential
       ((plain_directive TYPE_d)\<lparr>input_length := 3, preceding_precision := 1\<rparr>)
     = process_directive (buffer_sink 30 [VA_int 42]) sequential
       ((plain_directive TYPE_d)\<lparr>input_length := 3\<rparr>)"
proof -
  let ?fs = "(plain_directive TYPE_d)\<lparr>input_length := 3, preceding_precision := 1\<rparr>"
  let ?out = "buffer_sink 30 [VA_int (- 3), VA_int 42]"
  let ?out' = "buffer_sink 30 [VA_int 42]"
  have parse: "read_format_string ''.*d'' = Some (FORMAT_okay, ?fs)"
    by code_simp
  have pp: "preceding_precision ?fs \<noteq> 0" by (simp add: plain_directive_def)
  have fw: "fetch_width ?out sequential ?fs = Some (?fs, ?out)"
    by (simp add: fetch_width_def plain_directive_def)
  have pop: "pop_or_load_width_precision ?out (using_positions sequential)
               (array (pia sequential)) (preceding_precision ?fs) = Some (- 3, ?out')"
    by (simp add: pop_or_load_width_precision_def sequential_def va_arg_int_def
        buffer_sink_def make_output_def)
  have fw': "fetch_width ?out' sequential (?fs\<lparr>preceding_precision := 0\<rparr>)
             = Some (?fs\<lparr>preceding_precision := 0\<rparr>, ?out')"
    by (simp add: fetch_width_def plain_directive_def)
  from negative_precision_ignored [OF parse pp fw pop, of ?out'] fw' parse
  show ?thesis
    by (simp add: plain_directive_def)
qed

subsection \<open>The emitters write lists of characters\<close>

lemma and_then_assoc:
  "and_then (and_then m f) g = and_then m (\<lambda>x. and_then (f x) g)"
  by (cases m) simp_all

lemma output_chars_append:
  "output_chars out (xs @ ys) = and_then (output_chars out xs) (\<lambda>out'. output_chars out' ys)"
proof (induction xs arbitrary: out)
  case Nil
  show ?case by simp
next
  case (Cons x xs)
  show ?case
    by (cases "printf_output out x") (simp_all add: Cons.IH)
qed

lemma pad_output_loop_chars:
  "i \<le> len \<Longrightarrow> pad_output_loop out len c i = output_chars out (replicate (nat (len - i)) c)"
proof (induction out len c i rule: pad_output_loop.induct)
  case (1 out len c i)
  show ?case
  proof (cases "i < len")
    case True
    then have n: "nat (len - i) = Suc (nat (len - (i + 1)))" by simp
    from True have ih: "pad_output_loop out' len c (i + 1)
        = output_chars out' (replicate (nat (len - (i + 1))) c)" for out'
      by (intro "1.IH") simp_all
    show ?thesis
      by (subst pad_output_loop.simps) (simp add: True n ih)
  next
    case False
    with 1 show ?thesis
      by (subst pad_output_loop.simps) simp
  qed
qed

lemma pad_output_chars:
  "pad_output out len c = output_chars out (replicate (nat len) c)"
proof (cases "0 \<le> len")
  case True
  then show ?thesis by (simp add: pad_output_def pad_output_loop_chars)
next
  case False
  then show ?thesis
    by (simp add: pad_output_def) (subst pad_output_loop.simps, simp)
qed

lemma write_backwards_buffer_loop_chars:
  "0 \<le> i \<Longrightarrow> i \<le> len \<Longrightarrow> nat len \<le> length buffer
   \<Longrightarrow> write_backwards_buffer_loop out buffer len i
       = output_chars out (rev (take (nat (len - i)) buffer))"
proof (induction out buffer len i rule: write_backwards_buffer_loop.induct)
  case (1 out buffer len i)
  show ?case
  proof (cases "i < len")
    case True
    with 1 have idx: "0 \<le> len - 1 - i \<and> nat (len - 1 - i) < length buffer" by auto
    from True 1 have n: "nat (len - i) = Suc (nat (len - 1 - i))" by simp
    from True 1 idx have ih: "write_backwards_buffer_loop out' buffer len (i + 1)
        = output_chars out' (rev (take (nat (len - (i + 1))) buffer))" for out'
      by (intro "1.IH") simp_all
    have t: "rev (take (Suc (nat (len - 1 - i))) buffer)
             = buffer ! nat (len - 1 - i) # rev (take (nat (len - 1 - i)) buffer)"
      using idx by (simp add: take_Suc_conv_app_nth)
    have e: "len - (i + 1) = len - 1 - i" by simp
    show ?thesis
      by (subst write_backwards_buffer_loop.simps) (simp add: True idx n t ih e)
  next
    case False
    with 1 show ?thesis
      by (subst write_backwards_buffer_loop.simps) simp
  qed
qed

lemma write_backwards_buffer_chars:
  "write_backwards_buffer out buffer (int (length buffer)) = output_chars out (rev buffer)"
  by (simp add: write_backwards_buffer_def write_backwards_buffer_loop_chars)

lemma write_forwards_buffer_loop_chars:
  "0 \<le> i \<Longrightarrow> i \<le> len \<Longrightarrow> nat len \<le> length cs
   \<Longrightarrow> write_forwards_buffer_loop out (Some cs) len i
       = output_chars out (drop (nat i) (take (nat len) cs))"
proof (induction out "Some cs" len i rule: write_forwards_buffer_loop.induct)
  case (1 out len i)
  show ?case
  proof (cases "i < len")
    case True
    with 1 have idx: "0 \<le> i \<and> nat i < length cs" by auto
    from True 1 idx have ih: "write_forwards_buffer_loop out' (Some cs) len (i + 1)
        = output_chars out' (drop (nat (i + 1)) (take (nat len) cs))" for out'
      by (intro "1.hyps" [where ?x2.0 = cs]) auto
    have d: "drop (nat i) (take (nat len) cs)
             = cs ! nat i # drop (nat (i + 1)) (take (nat len) cs)"
      using True idx 1
      by (simp add: Cons_nth_drop_Suc [symmetric] nat_add_distrib)
    show ?thesis
      by (subst write_forwards_buffer_loop.simps) (simp add: True idx d ih)
  next
    case False
    with 1 show ?thesis
      by (subst write_forwards_buffer_loop.simps) simp
  qed
qed

lemma write_forwards_buffer_chars:
  "n \<le> length cs \<Longrightarrow> write_forwards_buffer out (Some cs) (int n) = output_chars out (take n cs)"
  by (simp add: write_forwards_buffer_def write_forwards_buffer_loop_chars)

lemma write_forwards_buffer_empty:
  "write_forwards_buffer out buffer 0 = Inr out"
  by (simp add: write_forwards_buffer_def) (subst write_forwards_buffer_loop.simps, simp)

lemma output_prefix_chars:
  "output_prefix out p = output_chars out (if p \<noteq> NUL then [p] else [])"
  by (cases "printf_output out p") (simp_all add: output_prefix_def)

lemma write_backwards_buffer_with_padding_chars:
  "write_backwards_buffer_with_padding out buffer (length buffer) fs p1 p2 padding pp
   = output_chars out
       (let pre = (if p1 \<noteq> NUL then [p1] else []) @ (if p2 \<noteq> NUL then [p2] else [])
        in if zero_padded fs then
             pre @ replicate padding CHR ''0'' @ replicate pp CHR ''0'' @ rev buffer
           else if left_justify fs then
             pre @ replicate pp CHR ''0'' @ rev buffer @ replicate padding CHR '' ''
           else replicate padding CHR '' '' @ pre @ replicate pp CHR ''0'' @ rev buffer)"
  by (simp add: write_backwards_buffer_with_padding_def output_prefix_chars pad_output_chars
      write_backwards_buffer_chars output_chars_append [symmetric] Let_def
      del: output_chars.simps)

lemma write_integer_backwards_nonempty:
  "write_integer_backwards val fs base \<noteq> []"
  by (subst write_integer_backwards.simps) (simp add: Let_def)

lemma write_decimal_negative_backwards_nonempty:
  "write_decimal_negative_backwards val \<noteq> []"
  by (subst write_decimal_negative_backwards.simps) simp

lemma length_greater_0_nonempty: "xs \<noteq> [] \<Longrightarrow> Suc 0 \<le> length xs"
  by (cases xs) simp_all

lemma write_decimal_positive_chars:
  "write_decimal_positive out val fs
   = output_chars out
       (padded_field fs (sign_prefix fs)
          (digits_field (precision fs) (val = 0) (rev (write_integer_backwards val fs 10))))"
  using length_greater_0_nonempty [OF write_integer_backwards_nonempty [of val fs 10]]
  by (auto simp: write_decimal_positive_def write_backwards_buffer_with_padding_chars
      padded_field_def digits_field_def sign_prefix_def precision_length_of_def
      precision_padding_of_def Let_def NUL_def
      intro!: arg_cong [where f = "output_chars out"])


lemma write_decimal_negative_chars:
  "write_decimal_negative out val fs
   = output_chars out
       (padded_field fs ''-''
          (digits_field (precision fs) False (rev (write_decimal_negative_backwards val))))"
  using length_greater_0_nonempty [OF write_decimal_negative_backwards_nonempty [of val]]
  by (auto simp: write_decimal_negative_def write_backwards_buffer_with_padding_chars
      padded_field_def digits_field_def precision_length_of_def
      precision_padding_of_def Let_def NUL_def
      intro!: arg_cong [where f = "output_chars out"])

lemma write_hexadecimal_chars:
  "write_hexadecimal out val fs
   = output_chars out
       (padded_field fs (hexadecimal_prefix fs)
          (digits_field (precision fs) (val = 0) (rev (write_integer_backwards val fs 16))))"
  using length_greater_0_nonempty [OF write_integer_backwards_nonempty [of val fs 16]]
  by (auto simp: write_hexadecimal_def write_backwards_buffer_with_padding_chars
      padded_field_def digits_field_def hexadecimal_prefix_def precision_length_of_def
      precision_padding_of_def Let_def NUL_def numeral_2_eq_2
      intro!: arg_cong [where f = "output_chars out"])

lemma write_octal_chars:
  "write_octal out val fs
   = output_chars out
       (padded_field fs
          (octal_prefix fs (if precision fs = 0 \<and> val = 0 then 0
                            else length (write_integer_backwards val fs 8)))
          (digits_field (precision fs) (val = 0) (rev (write_integer_backwards val fs 8))))"
  using length_greater_0_nonempty [OF write_integer_backwards_nonempty [of val fs 8]]
    write_integer_backwards_type [of "fs\<lparr>alternate_form := False\<rparr>" fs val 8]
  by (auto simp: write_octal_def write_backwards_buffer_with_padding_chars
      padded_field_def digits_field_def octal_prefix_def precision_length_of_def
      precision_padding_of_def Let_def NUL_def
      intro!: arg_cong [where f = "output_chars out"])

subsection \<open>Integer conversions and the precision\<close>




subsection \<open>Strings and the null pointer\<close>

lemma and_then_Inr [simp]: "and_then m Inr = m"
  by (cases m) simp_all

lemma strnlen_safe_loop_eq:
  "count \<le> max_len
   \<Longrightarrow> strnlen_safe_loop cs max_len count
       = count + length (take (max_len - count) (c_string cs))"
proof (induction cs arbitrary: count)
  case Nil
  then show ?case by (simp add: c_string_def)
next
  case (Cons c cs)
  show ?case
  proof (cases "count < max_len \<and> c \<noteq> NUL")
    case True
    then have "max_len - count = Suc (max_len - (count + 1))" by arith
    with True Cons.IH [of "count + 1"] show ?thesis
      by (simp add: c_string_def)
  next
    case False
    with Cons.prems show ?thesis by (auto simp: c_string_def)
  qed
qed

lemma strnlen_safe_eq:
  "strnlen_safe (Some cs) n = Some (length (take n (c_string cs)))"
  by (simp add: strnlen_safe_def strnlen_safe_loop_eq)

lemma take_c_string:
  "n \<le> length (c_string cs) \<Longrightarrow> take n cs = take n (c_string cs)"
proof -
  assume n: "n \<le> length (c_string cs)"
  have "c_string cs = take (length (c_string cs)) cs"
    unfolding c_string_def by (rule takeWhile_eq_take)
  then have "take n (c_string cs) = take n (take (length (c_string cs)) cs)" by simp
  also have "\<dots> = take n cs" using n by (simp add: min_def)
  finally show ?thesis by simp
qed

lemma length_c_string_le: "length (c_string cs) \<le> length cs"
  by (simp add: c_string_def length_takeWhile_le)

lemma write_string_chars:
  "write_string out (Some cs) fs = output_chars out (string_field fs cs)"
proof -
  define body where
    "body = (if precision fs = - 1 then c_string cs else take (nat (precision fs)) (c_string cs))"
  have len: "(if precision fs \<noteq> - 1 then strnlen_safe (Some cs) (nat (precision fs))
              else map_option strlen (Some cs)) = Some (length body)"
    by (simp add: strnlen_safe_eq strlen_def c_string_def body_def)
  have le: "length body \<le> length cs"
    using length_c_string_le [of cs] by (auto simp: body_def)
  have tk: "take (length body) cs = body"
    by (auto simp: take_c_string min_def body_def)
  have wf: "write_forwards_buffer out' (Some cs) (int (length body)) = output_chars out' body"
    for out'
    using write_forwards_buffer_chars [OF le, of out'] by (simp only: tk)
  have ws: "write_string out (Some cs) fs
            = (if \<not> left_justify fs then
                 and_then (pad_output out (int (width fs - length body)) CHR '' '') (\<lambda>out.
                 write_forwards_buffer out (Some cs) (int (length body)))
               else
                 and_then (write_forwards_buffer out (Some cs) (int (length body))) (\<lambda>out.
                 pad_output out (int (width fs - length body)) CHR '' ''))"
  proof -
    have inp: "(if precision fs \<noteq> 0 \<and> Some cs = None then Some null_string_string
                else Some cs) = Some cs"
      by simp
    have pad: "(if width fs > length body then int (width fs - length body) else 0)
               = int (width fs - length body)"
      by simp
    show ?thesis
      by (simp only: write_string_def Let_def inp len option.case pad)
  qed
  show ?thesis
    unfolding ws
    by (simp add: wf pad_output_chars output_chars_append [symmetric] string_field_def
        Let_def body_def [symmetric] del: output_chars.simps)
qed

lemma write_string_null_chars:
  "write_string out None fs
   = output_chars out (string_field fs (if precision fs = 0 then [] else null_string_string))"
proof (cases "precision fs = 0")
  case True
  then show ?thesis
    by (simp add: write_string_def strnlen_safe_def pad_output_chars write_forwards_buffer_empty
        string_field_def c_string_def Let_def del: output_chars.simps)
next
  case False
  then have "write_string out None fs = write_string out (Some null_string_string) fs"
    by (simp add: write_string_def)
  with False show ?thesis by (simp add: write_string_chars)
qed


text \<open>
  C7, as the source has it. A null string argument is replaced by \<^verbatim>\<open>(null)\<close> unless
  the precision is 0, and then treated as any string: written in full when the precision
  is unspecified or at least 6, cut to its first \<open>p\<close> bytes for a precision \<open>p\<close> from
  1 to 5, and not read at all for precision 0, where only the padding to the width is
  written.
\<close>

theorem null_string_rendering:
  "write_string out None fs
   = output_chars out
       (let body = (if precision fs = - 1 \<or> 6 \<le> precision fs then ''(null)''
                    else take (nat (precision fs)) ''(null)'')
        in if left_justify fs then body @ replicate (width fs - length body) CHR '' ''
           else replicate (width fs - length body) CHR '' '' @ body)"
proof -
  have c: "c_string null_string_string = ''(null)''"
    by (simp add: c_string_def null_string_string_def NUL_def)
  have c0: "c_string [] = []"
    by (simp add: c_string_def)
  have "string_field fs (if precision fs = 0 then [] else null_string_string)
        = (let body = (if precision fs = - 1 \<or> 6 \<le> precision fs then ''(null)''
                       else take (nat (precision fs)) ''(null)'')
           in if left_justify fs then body @ replicate (width fs - length body) CHR '' ''
              else replicate (width fs - length body) CHR '' '' @ body)"
    by (cases "precision fs = 0") (auto simp: string_field_def Let_def c c0 min_def)
  then show ?thesis by (simp only: write_string_null_chars)
qed

theorem null_string_rendering_witness:
  "write_string (buffer_sink 30 []) None ((plain_directive TYPE_s)\<lparr>precision := 3\<rparr>)
     = output_chars (buffer_sink 30 []) ''(nu''
   \<and> write_string (buffer_sink 30 []) None ((plain_directive TYPE_s)\<lparr>precision := 5\<rparr>)
     = output_chars (buffer_sink 30 []) ''(null''
   \<and> write_string (buffer_sink 30 []) None ((plain_directive TYPE_s)\<lparr>precision := 6\<rparr>)
     = output_chars (buffer_sink 30 []) ''(null)''
   \<and> write_string (buffer_sink 30 []) None (plain_directive TYPE_s)
     = output_chars (buffer_sink 30 []) ''(null)''
   \<and> write_string (buffer_sink 30 []) None ((plain_directive TYPE_s)\<lparr>precision := 0\<rparr>)
     = Inr (buffer_sink 30 [])"
  using null_string_rendering [of "buffer_sink 30 []" "(plain_directive TYPE_s)\<lparr>precision := 3\<rparr>"]
    null_string_rendering [of "buffer_sink 30 []" "(plain_directive TYPE_s)\<lparr>precision := 5\<rparr>"]
    null_string_rendering [of "buffer_sink 30 []" "(plain_directive TYPE_s)\<lparr>precision := 6\<rparr>"]
    null_string_rendering [of "buffer_sink 30 []" "plain_directive TYPE_s"]
    null_string_rendering [of "buffer_sink 30 []" "(plain_directive TYPE_s)\<lparr>precision := 0\<rparr>"]
  by (simp del: output_chars.simps add: plain_directive_def Let_def output_chars.simps(1))

text \<open>
  C7, as the claim states it, fails at precision 5: \<^verbatim>\<open>%.5s\<close> with a null argument
  writes the five bytes \<^verbatim>\<open>(null\<close>, not the literal \<^verbatim>\<open>(null)\<close>.
\<close>

theorem null_string_counterexample:
  "returned (new_snprintf empty_world (Some 0) 30 (Some ''%.5s'') [VA_string None]) = Some 5
   \<and> buffer_after 6 (new_snprintf empty_world (Some 0) 30 (Some ''%.5s'') [VA_string None])
       = Some [Some CHR ''('', Some CHR ''n'', Some CHR ''u'', Some CHR ''l'', Some CHR ''l'',
               Some NUL]"
  by code_simp

subsection \<open>What the engine does outside the sink\<close>

lemma frame_fields [simp]:
  "type_out (frame t out) = type_out t"
  "stream (frame t out) = stream t"
  "fd (frame t out) = fd t"
  "string (frame t out) = string t"
  "allocated_size (frame t out) = allocated_size t"
  "character_limit (frame t out) = character_limit t"
  "characters_written (frame t out) = characters_written t"
  "stream_out (frame t out) = stream_out t"
  "fd_out (frame t out) = fd_out t"
  "io_budget (frame t out) = io_budget t"
  "memory (frame t out) = memory t"
  "block_size (frame t out) = block_size t"
  "alloc_budget (frame t out) = alloc_budget out"
  "heap (frame t out) = heap out"
  "valist (frame t out) = valist out"
  "n_store (frame t out) = n_store out"
  by (simp_all add: frame_def)

lemma frame_updates [simp]:
  "(frame t out)\<lparr>valist := v\<rparr> = frame t (out\<lparr>valist := v\<rparr>)"
  "(frame t out)\<lparr>heap := h\<rparr> = frame t (out\<lparr>heap := h\<rparr>)"
  "(frame t out)\<lparr>alloc_budget := ab\<rparr> = frame t (out\<lparr>alloc_budget := ab\<rparr>)"
  "(frame t out)\<lparr>n_store := ns\<rparr> = frame t (out\<lparr>n_store := ns\<rparr>)"
  by (simp_all add: frame_def)

lemma frame_idem [simp]:
  "frame (frame t x) y = frame t y"
  "frame t (frame s y) = frame t y"
  "frame t t = t"
  by (simp_all add: frame_def)

lemma frame_eq_iff:
  "frame b a = b \<longleftrightarrow> alloc_budget b = alloc_budget a \<and> heap b = heap a
     \<and> valist b = valist a \<and> n_store b = n_store a"
proof
  assume "frame b a = b"
  then have "alloc_budget (frame b a) = alloc_budget b" "heap (frame b a) = heap b"
    "valist (frame b a) = valist b" "n_store (frame b a) = n_store b"
    by simp_all
  then show "alloc_budget b = alloc_budget a \<and> heap b = heap a
     \<and> valist b = valist a \<and> n_store b = n_store a"
    by simp
next
  assume "alloc_budget b = alloc_budget a \<and> heap b = heap a
     \<and> valist b = valist a \<and> n_store b = n_store a"
  then show "frame b a = b"
    by (simp add: frame_def)
qed

lemma va_arg_int_frame:
  "va_arg_int (frame t out) = map_option (apsnd (frame t)) (va_arg_int out)"
  by (simp add: va_arg_int_def split: list.splits va_arg.splits)

lemma va_arg_long_frame:
  "va_arg_long (frame t out) = map_option (apsnd (frame t)) (va_arg_long out)"
  by (simp add: va_arg_long_def split: list.splits va_arg.splits)

lemma va_arg_string_frame:
  "va_arg_string (frame t out) = map_option (apsnd (frame t)) (va_arg_string out)"
  by (simp add: va_arg_string_def split: list.splits va_arg.splits)

lemma va_arg_pointer_frame:
  "va_arg_pointer (frame t out) = map_option (apsnd (frame t)) (va_arg_pointer out)"
  by (simp add: va_arg_pointer_def split: list.splits va_arg.splits)

lemma va_arg_of_class_frame:
  "va_arg_of_class cls (frame t out) = map_option (apsnd (frame t)) (va_arg_of_class cls out)"
  by (simp add: va_arg_of_class_def split: list.splits)

lemma load_item_frame [simp]:
  "load_item (frame t out) items pos = load_item out items pos"
  by (simp add: load_item_def cong: if_cong option.case_cong)

lemma load_int_frame [simp]:
  "load_int (frame t out) items pos = load_int out items pos"
  by (simp add: load_int_def)

lemma load_long_frame [simp]:
  "load_long (frame t out) items pos = load_long out items pos"
  by (simp add: load_long_def)

lemma pop_or_load_int_frame:
  "pop_or_load_int (frame t out) up items pos
   = map_option (apsnd (frame t)) (pop_or_load_int out up items pos)"
  by (simp add: pop_or_load_int_def va_arg_int_frame option.map_comp comp_def)

lemma pop_or_load_long_frame:
  "pop_or_load_long (frame t out) up items pos
   = map_option (apsnd (frame t)) (pop_or_load_long out up items pos)"
  by (simp add: pop_or_load_long_def va_arg_long_frame option.map_comp comp_def)

lemma pop_or_load_integer_frame:
  "pop_or_load_integer fs (frame t out) up items
   = map_option (apsnd (frame t)) (pop_or_load_integer fs out up items)"
  by (cases "length_fs fs")
     (simp_all add: pop_or_load_integer_def pop_or_load_int_frame pop_or_load_long_frame
       option.map_comp comp_def split_def apsnd_def map_prod_def)

lemma pop_or_load_unsigned_integer_frame:
  "pop_or_load_unsigned_integer fs (frame t out) up items
   = map_option (apsnd (frame t)) (pop_or_load_unsigned_integer fs out up items)"
  by (cases "length_fs fs")
     (simp_all add: pop_or_load_unsigned_integer_def pop_or_load_int_frame
       pop_or_load_long_frame option.map_comp comp_def split_def apsnd_def map_prod_def)

lemma pop_or_load_character_frame:
  "pop_or_load_character fs (frame t out) up items
   = map_option (apsnd (frame t)) (pop_or_load_character fs out up items)"
  by (simp add: pop_or_load_character_def pop_or_load_int_frame
       option.map_comp comp_def split_def apsnd_def map_prod_def)

lemma pop_or_load_string_frame:
  "pop_or_load_string fs (frame t out) up items
   = map_option (apsnd (frame t)) (pop_or_load_string fs out up items)"
  by (simp add: pop_or_load_string_def va_arg_string_frame
       split: option.splits va_arg.splits)

lemma pop_or_load_pointer_frame:
  "pop_or_load_pointer fs (frame t out) up items
   = map_option (apsnd (frame t)) (pop_or_load_pointer fs out up items)"
  by (simp add: pop_or_load_pointer_def va_arg_pointer_frame
       split: option.splits va_arg.splits)

lemma pop_or_load_n_pointer_frame:
  "pop_or_load_n_pointer fs (frame t out) up items
   = map_option (apsnd (frame t)) (pop_or_load_n_pointer fs out up items)"
  by (simp add: pop_or_load_n_pointer_def va_arg_pointer_frame
       split: option.splits va_arg.splits)

lemma pop_or_load_width_precision_frame:
  "pop_or_load_width_precision (frame t out) up items pos
   = map_option (apsnd (frame t)) (pop_or_load_width_precision out up items pos)"
  by (simp add: pop_or_load_width_precision_def va_arg_int_frame
       option.map_comp comp_def split_def apsnd_def map_prod_def)


lemma alloc_succeeds_frame [simp]:
  "alloc_succeeds (frame t out) = alloc_succeeds out"
  by (simp add: alloc_succeeds_def)

lemma alloc_spend_frame [simp]:
  "alloc_spend (frame t out) = frame t (alloc_spend out)"
  by (simp add: alloc_spend_def split: option.splits)

lemma malloc_cell_frame:
  "malloc_cell (frame t out) c = map_option (apsnd (frame t)) (malloc_cell out c)"
  by (simp add: malloc_cell_def)

lemma free_cell_frame:
  "free_cell (frame t out) p = map_option (frame t) (free_cell out p)"
  by (auto simp: free_cell_def split: option.splits)

lemma pop_and_store_frame:
  "pop_and_store cls ci (frame t out)
   = map_sum (map_error (frame t)) (apsnd (frame t)) (pop_and_store cls ci out)"
  by (simp add: pop_and_store_def va_arg_of_class_frame malloc_cell_frame
      split: option.splits prod.splits)

lemma pop_and_store_by_type_frame:
  "pop_and_store_by_type ci (frame t out)
   = map_sum (map_error (frame t)) (apsnd (frame t)) (pop_and_store_by_type ci out)"
  by (simp add: pop_and_store_by_type_def pop_and_store_integer_def
      pop_and_store_unsigned_integer_def pop_and_store_floating_point_def
      pop_and_store_character_def pop_and_store_pointer_def pop_and_store_string_def
      pop_and_store_n_pointer_def pop_and_store_frame
      split: format_string_types.splits)

lemma pop_and_store_cleanup_loop_frame:
  "pop_and_store_cleanup_loop (frame t out) pa count i
   = map_option (frame t) (pop_and_store_cleanup_loop out pa count i)"
proof (induction out pa count i rule: pop_and_store_cleanup_loop.induct)
  case (1 out pa count i)
  show ?case
    apply (subst pop_and_store_cleanup_loop.simps)
    apply (subst (2) pop_and_store_cleanup_loop.simps)
    apply (simp add: free_cell_frame 1 split: option.splits)
    done
qed

lemma pop_and_store_cleanup_frame:
  "pop_and_store_cleanup (frame t out) pa count
   = map_option (frame t) (pop_and_store_cleanup out pa count)"
  by (simp add: pop_and_store_cleanup_def pop_and_store_cleanup_loop_frame)

lemma pop_and_store_argument_list_loop_frame:
  "pop_and_store_argument_list_loop (frame t out) pa count i
   = map_sum (map_error (frame t)) (apsnd (frame t))
       (pop_and_store_argument_list_loop out pa count i)"
proof (induction out pa count i rule: pop_and_store_argument_list_loop.induct)
  case (1 out pa count i)
  show ?case
    apply (subst pop_and_store_argument_list_loop.simps)
    apply (subst (2) pop_and_store_argument_list_loop.simps)
    apply (auto simp: pop_and_store_by_type_frame pop_and_store_cleanup_frame 1
        split: option.splits sum.splits error.splits prod.splits)
    done
qed

lemma pop_and_store_argument_list_frame:
  "pop_and_store_argument_list (frame t out) pa count
   = map_sum (map_error (frame t)) (apsnd (frame t))
       (pop_and_store_argument_list out pa count)"
  by (simp add: pop_and_store_argument_list_def pop_and_store_argument_list_loop_frame)

lemma pia_initialise_frame:
  "pia_initialise (frame t out)
   = map_sum (map_error (frame t)) (apsnd (frame t)) (pia_initialise out)"
  by (simp add: pia_initialise_def malloc_cell_frame split: option.splits)

lemma pia_check_size_and_update_frame:
  "pia_check_size_and_update (frame t out) pa required_size
   = map_sum (map_error (frame t)) (apsnd (frame t))
       (pia_check_size_and_update out pa required_size)"
  by (simp add: pia_check_size_and_update_def split: option.splits)

lemma free_array_and_fail_frame:
  "free_array_and_fail (frame t out) pa
   = map_sum (map_error (frame t)) f (free_array_and_fail out pa)"
  by (simp add: free_array_and_fail_def free_cell_frame split: option.splits)

lemma record_slot_frame:
  "record_slot (frame t out) pa required_size index ty len
   = map_sum (map_error (frame t)) (apsnd (frame t))
       (record_slot out pa required_size index ty len)"
  by (simp add: record_slot_def pia_check_size_and_update_frame Let_def
      free_array_and_fail_frame [where f = "apsnd (frame t)"]
      split: sum.splits error.splits prod.splits)


lemma parse_directive_for_positions_frame:
  "parse_directive_for_positions (frame t out) pa max_found fs
   = map_sum (map_error (frame t)) (apsnd (apsnd (frame t)))
       (parse_directive_for_positions out pa max_found fs)"
  by (auto simp: parse_directive_for_positions_def record_slot_frame and_then_def
      free_array_and_fail_frame [where f = "apsnd (apsnd (frame t))"]
      split: sum.splits error.splits prod.splits)

lemma parse_format_string_for_positions_loop_frame:
  "parse_format_string_for_positions_loop format (frame t out) pa max_found
   = map_sum (map_error (frame t)) (apsnd (apsnd (frame t)))
       (parse_format_string_for_positions_loop format out pa max_found)"
proof (induction format out pa max_found rule: parse_format_string_for_positions_loop.induct)
  case (1 out pa max_found)
  show ?case by simp
next
  case (2 c format out pa max_found)
  show ?case
    by (auto simp: 2 parse_directive_for_positions_frame
        free_array_and_fail_frame [where f = "apsnd (apsnd (frame t))"]
        split: option.splits sum.splits error.splits prod.splits)
qed

lemma parse_format_string_for_positions_frame:
  "parse_format_string_for_positions format (frame t out)
   = map_sum (map_error (frame t)) (apsnd (apsnd (frame t)))
       (parse_format_string_for_positions format out)"
  by (auto simp: parse_format_string_for_positions_def pia_initialise_frame
      parse_format_string_for_positions_loop_frame
      free_array_and_fail_frame [where f = "apsnd (apsnd (frame t))"]
      split: option.splits sum.splits error.splits prod.splits)

lemma cleanup_positions_frame:
  "cleanup_positions (frame t out) l = map_option (frame t) (cleanup_positions out l)"
  by (auto simp: cleanup_positions_def pop_and_store_cleanup_frame free_cell_frame
      split: option.splits)

lemma cleanup_and_fail_frame:
  "cleanup_and_fail (frame t out) l = map_sum (map_error (frame t)) f (cleanup_and_fail out l)"
  by (auto simp: cleanup_and_fail_def cleanup_positions_frame split: option.splits)

lemma generic_printf_finish_frame:
  "generic_printf_finish (frame t out) l
   = map_sum (map_error (frame t)) (frame t) (generic_printf_finish out l)"
  by (auto simp: generic_printf_finish_def cleanup_positions_frame split: option.splits)

lemma fetch_width_frame:
  "fetch_width (frame t out) l fs = map_option (apsnd (frame t)) (fetch_width out l fs)"
  by (auto simp: fetch_width_def pop_or_load_width_precision_frame split: option.splits)

lemma fetch_precision_frame:
  "fetch_precision (frame t out) l fs = map_option (apsnd (frame t)) (fetch_precision out l fs)"
  by (auto simp: fetch_precision_def pop_or_load_width_precision_frame split: option.splits)

lemma decide_positions_frame:
  "decide_positions format_start (frame t out) l fs
   = map_sum (map_error (frame t)) (apsnd (frame t)) (decide_positions format_start out l fs)"
  by (auto simp: decide_positions_def parse_format_string_for_positions_frame
      pop_and_store_argument_list_frame
      free_array_and_fail_frame [where f = "apsnd (frame t)"]
      split: option.splits sum.splits error.splits prod.splits)


subsection \<open>The fixed-buffer sink\<close>

lemma buffer_inv_frame [simp]:
  "buffer_inv m s S (frame t out) = buffer_inv m s S t"
  by (simp add: buffer_inv_def)

lemma printf_output_buffer:
  assumes inv: "buffer_inv m s S a"
  shows "\<exists>a'. printf_output a c = Inr a' \<and> buffer_inv m s S a'
           \<and> characters_written a' = characters_written a + 1 \<and> frame a' a = a'"
proof -
  from inv have ty: "type_out a = OUTPUT_string" and lim: "character_limit a = S"
    and ok: "S = 0 \<or> s \<noteq> None"
    and cur: "string a = map_option (\<lambda>b. b + min (characters_written a) (S - 1)) s"
    and mem: "\<And>x. (\<forall>b. s = Some b
                      \<longrightarrow> x < b \<or> b + min (characters_written a) (S - 1) \<le> x)
                 \<Longrightarrow> memory a x = m x"
    by (simp_all add: buffer_inv_def)
  show ?thesis
  proof (cases "S = 0 \<or> characters_written a \<ge> S - 1")
    case True
    then have out: "printf_output a c = Inr (a\<lparr>characters_written := characters_written a + 1\<rparr>)"
      using ty lim by (auto simp: printf_output_def printf_output_sprintf_def)
    from True have mn: "min (Suc (characters_written a)) (S - Suc 0)
        = min (characters_written a) (S - Suc 0)"
      by auto
    have "buffer_inv m s S (a\<lparr>characters_written := characters_written a + 1\<rparr>)"
      using inv by (simp add: buffer_inv_def mn)
    with out show ?thesis by (simp add: frame_def)
  next
    case False
    then have lt: "characters_written a < S - 1" and nz: "S \<noteq> 0" by auto
    with ok obtain b where s: "s = Some b" by auto
    from lt have mn: "min (characters_written a) (S - 1) = characters_written a"
      and mn': "min (Suc (characters_written a)) (S - Suc 0) = Suc (characters_written a)"
      by auto
    from cur s mn have str: "string a = Some (b + characters_written a)" by simp
    let ?a' = "a\<lparr>memory := (memory a)(b + characters_written a \<mapsto> c),
                 string := Some (b + characters_written a + 1),
                 characters_written := characters_written a + 1\<rparr>"
    have out: "printf_output a c = Inr ?a'"
      using ty lim lt nz str by (simp add: printf_output_def printf_output_sprintf_def)
    have "buffer_inv m s S ?a'"
      using ty lim ok mem [unfolded s mn] by (auto simp: buffer_inv_def s mn')
    with out show ?thesis by (simp add: frame_def)
  qed
qed

lemma output_chars_buffer:
  "buffer_inv m s S a
   \<Longrightarrow> \<exists>a'. output_chars a cs = Inr a' \<and> buffer_inv m s S a'
          \<and> characters_written a' = characters_written a + length cs \<and> frame a' a = a'"
proof (induction cs arbitrary: a)
  case Nil
  then show ?case by simp
next
  case (Cons c cs)
  from printf_output_buffer [OF Cons.prems, of c] obtain a1 where
    1: "printf_output a c = Inr a1" "buffer_inv m s S a1"
       "characters_written a1 = characters_written a + 1" "frame a1 a = a1"
    by blast
  from Cons.IH [OF 1(2)] obtain a2 where
    2: "output_chars a1 cs = Inr a2" "buffer_inv m s S a2"
       "characters_written a2 = characters_written a1 + length cs" "frame a2 a1 = a2"
    by blast
  from 1(4) 2(4) have "frame a2 a = a2"
    by (simp add: frame_eq_iff)
  with 1 2 show ?case by simp
qed

subsection \<open>Two runs on two fixed buffers\<close>

lemma twin_frame:
  assumes tw: "twin m1 s1 S1 m2 s2 S2 a b" and a': "frame a a' = a'"
  shows "twin m1 s1 S1 m2 s2 S2 a' (frame b a')"
proof -
  from a' have "buffer_inv m1 s1 S1 a' = buffer_inv m1 s1 S1 (frame a a')" by simp
  moreover from a' have "characters_written a' = characters_written (frame a a')" by simp
  ultimately show ?thesis
    using tw by (simp add: twin_def)
qed

lemma twin_second:
  "twin m1 s1 S1 m2 s2 S2 a b \<Longrightarrow> b = frame b a"
  by (simp add: twin_def)

lemma printf_output_twin:
  assumes tw: "twin m1 s1 S1 m2 s2 S2 a b"
  shows "\<exists>a' b'. printf_output a c = Inr a' \<and> printf_output b c = Inr b'
           \<and> twin m1 s1 S1 m2 s2 S2 a' b'"
proof -
  from tw have ia: "buffer_inv m1 s1 S1 a" and ib: "buffer_inv m2 s2 S2 b"
    and cw: "characters_written a = characters_written b" and fr: "frame b a = b"
    by (simp_all add: twin_def)
  from printf_output_buffer [OF ia, of c] obtain a' where
    1: "printf_output a c = Inr a'" "buffer_inv m1 s1 S1 a'"
       "characters_written a' = characters_written a + 1" "frame a' a = a'"
    by blast
  from printf_output_buffer [OF ib, of c] obtain b' where
    2: "printf_output b c = Inr b'" "buffer_inv m2 s2 S2 b'"
       "characters_written b' = characters_written b + 1" "frame b' b = b'"
    by blast
  from fr 1(4) 2(4) have "frame b' a' = b'"
    by (simp add: frame_eq_iff)
  with 1 2 cw show ?thesis by (simp add: twin_def)
qed

lemma output_chars_twin:
  assumes tw: "twin m1 s1 S1 m2 s2 S2 a b"
  shows "\<exists>a' b'. output_chars a cs = Inr a' \<and> output_chars b cs = Inr b'
           \<and> twin m1 s1 S1 m2 s2 S2 a' b'"
proof -
  from tw have ia: "buffer_inv m1 s1 S1 a" and ib: "buffer_inv m2 s2 S2 b"
    and cw: "characters_written a = characters_written b" and fr: "frame b a = b"
    by (simp_all add: twin_def)
  from output_chars_buffer [OF ia, of cs] obtain a' where
    1: "output_chars a cs = Inr a'" "buffer_inv m1 s1 S1 a'"
       "characters_written a' = characters_written a + length cs" "frame a' a = a'"
    by blast
  from output_chars_buffer [OF ib, of cs] obtain b' where
    2: "output_chars b cs = Inr b'" "buffer_inv m2 s2 S2 b'"
       "characters_written b' = characters_written b + length cs" "frame b' b = b'"
    by blast
  from fr 1(4) 2(4) have "frame b' a' = b'"
    by (simp add: frame_eq_iff)
  with 1 2 cw show ?thesis by (simp add: twin_def)
qed


lemma twin_option_pair:
  assumes fr: "\<And>t out. F (frame t out) = map_option (apsnd (frame t)) (F out)"
    and tw: "twin m1 s1 S1 m2 s2 S2 a b"
  shows "rel_option (rel_prod (=) (twin m1 s1 S1 m2 s2 S2)) (F a) (F b)"
proof -
  have b: "F b = map_option (apsnd (frame b)) (F a)"
    using fr [of b a] twin_second [OF tw] by simp
  have a: "F a = map_option (apsnd (frame a)) (F a)"
    using fr [of a a] by simp
  show ?thesis
  proof (cases "F a")
    case None
    with b show ?thesis by simp
  next
    case (Some p)
    obtain v a' where p: "p = (v, a')" by (cases p)
    from a Some p have "frame a a' = a'" by simp
    from twin_frame [OF tw this] b Some p show ?thesis by simp
  qed
qed

lemma twin_result_pair:
  assumes fr: "\<And>t out. F (frame t out)
                 = map_sum (map_error (frame t)) (apsnd (frame t)) (F out)"
    and tw: "twin m1 s1 S1 m2 s2 S2 a b"
  shows "rel_sum (rel_error (twin m1 s1 S1 m2 s2 S2))
           (rel_prod (=) (twin m1 s1 S1 m2 s2 S2)) (F a) (F b)"
proof -
  have b: "F b = map_sum (map_error (frame b)) (apsnd (frame b)) (F a)"
    using fr [of b a] twin_second [OF tw] by simp
  have a: "F a = map_sum (map_error (frame a)) (apsnd (frame a)) (F a)"
    using fr [of a a] by simp
  show ?thesis
  proof (cases "F a")
    case (Inl e)
    show ?thesis
    proof (cases e)
      case (Failed a')
      from a Inl Failed have "frame a a' = a'" by simp
      from twin_frame [OF tw this] b Inl Failed show ?thesis by simp
    next
      case Undefined
      with b Inl show ?thesis by simp
    qed
  next
    case (Inr p)
    obtain v a' where p: "p = (v, a')" by (cases p)
    from a Inr p have "frame a a' = a'" by simp
    from twin_frame [OF tw this] b Inr p show ?thesis by simp
  qed
qed

lemma twin_result:
  assumes fr: "\<And>t out. F (frame t out) = map_sum (map_error (frame t)) (frame t) (F out)"
    and tw: "twin m1 s1 S1 m2 s2 S2 a b"
  shows "rel_sum (rel_error (twin m1 s1 S1 m2 s2 S2)) (twin m1 s1 S1 m2 s2 S2) (F a) (F b)"
proof -
  have b: "F b = map_sum (map_error (frame b)) (frame b) (F a)"
    using fr [of b a] twin_second [OF tw] by simp
  have a: "F a = map_sum (map_error (frame a)) (frame a) (F a)"
    using fr [of a a] by simp
  show ?thesis
  proof (cases "F a")
    case (Inl e)
    show ?thesis
    proof (cases e)
      case (Failed a')
      from a Inl Failed have "frame a a' = a'" by simp
      from twin_frame [OF tw this] b Inl Failed show ?thesis by simp
    next
      case Undefined
      with b Inl show ?thesis by simp
    qed
  next
    case (Inr a')
    from a Inr have "frame a a' = a'" by simp
    from twin_frame [OF tw this] b Inr show ?thesis by simp
  qed
qed

lemma cleanup_and_fail_twin:
  assumes tw: "twin m1 s1 S1 m2 s2 S2 a b"
  shows "rel_sum (rel_error (twin m1 s1 S1 m2 s2 S2)) R
           (cleanup_and_fail a l) (cleanup_and_fail b l)"
proof -
  let ?F = "\<lambda>out. (cleanup_and_fail out l :: machine error + machine)"
  have "rel_sum (rel_error (twin m1 s1 S1 m2 s2 S2)) (twin m1 s1 S1 m2 s2 S2) (?F a) (?F b)"
    by (rule twin_result [OF _ tw]) (rule cleanup_and_fail_frame)
  then show ?thesis
    by (auto simp: cleanup_and_fail_def split: option.splits)
qed

lemma and_then_twin:
  assumes m: "rel_sum (rel_error T) RA m m'"
    and f: "\<And>x y. RA x y \<Longrightarrow> rel_sum (rel_error T) RB (f x) (f' y)"
  shows "rel_sum (rel_error T) RB (and_then m f) (and_then m' f')"
  using m f by (cases m; cases m') simp_all

lemma pop_then_twin:
  assumes fr: "\<And>t out. F (frame t out) = map_option (apsnd (frame t)) (F out)"
    and tw: "twin m1 s1 S1 m2 s2 S2 a b"
    and E: "\<And>v a' b'. twin m1 s1 S1 m2 s2 S2 a' b'
              \<Longrightarrow> rel_sum (rel_error (twin m1 s1 S1 m2 s2 S2)) R (E v a') (E v b')"
  shows "rel_sum (rel_error (twin m1 s1 S1 m2 s2 S2)) R (pop_then (F a) E) (pop_then (F b) E)"
  using twin_option_pair [of F, OF fr tw] E
  by (cases "F a"; cases "F b") (auto simp: pop_then_def)

lemma output_chars_twin_rel:
  assumes tw: "twin m1 s1 S1 m2 s2 S2 a b"
  shows "rel_sum (rel_error (twin m1 s1 S1 m2 s2 S2)) (twin m1 s1 S1 m2 s2 S2)
           (output_chars a cs) (output_chars b cs)"
  using output_chars_twin [OF tw, of cs] by auto

lemma twin_n_store:
  assumes tw: "twin m1 s1 S1 m2 s2 S2 a b"
  shows "twin m1 s1 S1 m2 s2 S2 (a\<lparr>n_store := n_store a @ [x]\<rparr>) (b\<lparr>n_store := n_store b @ [x]\<rparr>)"
proof -
  from tw have "frame b a = b" by (simp add: twin_def)
  then have ns: "n_store b = n_store a" by (simp add: frame_eq_iff)
  have "frame a (a\<lparr>n_store := n_store a @ [x]\<rparr>) = a\<lparr>n_store := n_store a @ [x]\<rparr>"
    by (simp add: frame_def)
  from twin_frame [OF tw this]
  have "twin m1 s1 S1 m2 s2 S2 (a\<lparr>n_store := n_store a @ [x]\<rparr>)
          (frame b (a\<lparr>n_store := n_store a @ [x]\<rparr>))" .
  moreover have "frame b (a\<lparr>n_store := n_store a @ [x]\<rparr>) = b\<lparr>n_store := n_store b @ [x]\<rparr>"
    using twin_second [OF tw] ns
    by (metis frame_updates(4))
  ultimately show ?thesis by simp
qed

lemma write_characters_written_twin:
  assumes tw: "twin m1 s1 S1 m2 s2 S2 a b"
  shows "rel_sum (rel_error (twin m1 s1 S1 m2 s2 S2)) (twin m1 s1 S1 m2 s2 S2)
           (write_characters_written a p fs) (write_characters_written b p fs)"
proof -
  from tw have cw: "characters_written a = characters_written b" by (simp add: twin_def)
  show ?thesis
    using tw twin_n_store [OF tw]
    by (cases "length_fs fs") (simp_all add: write_characters_written_def Let_def cw)
qed

lemma write_character_chars:
  "write_character out val fs
   = output_chars out
       (if zero_padded fs then replicate (if width fs > 1 then width fs - 1 else 0) CHR ''0''
                                 @ [char_of val]
        else if left_justify fs then
          char_of val # replicate (if width fs > 1 then width fs - 1 else 0) CHR '' ''
        else replicate (if width fs > 1 then width fs - 1 else 0) CHR '' '' @ [char_of val])"
  using write_backwards_buffer_with_padding_chars [of out "[char_of val]" fs NUL NUL
      "if width fs > 1 then width fs - 1 else 0" 0]
  by (simp add: write_character_def Let_def del: output_chars.simps)

lemma write_integer_positive_twin:
  assumes tw: "twin m1 s1 S1 m2 s2 S2 a b"
  shows "rel_sum (rel_error (twin m1 s1 S1 m2 s2 S2)) (twin m1 s1 S1 m2 s2 S2)
           (write_integer_positive a val fs) (write_integer_positive b val fs)"
  using tw output_chars_twin_rel [OF tw]
  by (simp add: write_integer_positive_def write_decimal_positive_chars write_octal_chars
      write_hexadecimal_chars del: output_chars.simps)

lemma write_string_twin:
  assumes tw: "twin m1 s1 S1 m2 s2 S2 a b"
  shows "rel_sum (rel_error (twin m1 s1 S1 m2 s2 S2)) (twin m1 s1 S1 m2 s2 S2)
           (write_string a v fs) (write_string b v fs)"
  using output_chars_twin_rel [OF tw]
  by (cases v) (simp_all add: write_string_chars write_string_null_chars del: output_chars.simps)

lemma write_pointer_twin:
  assumes tw: "twin m1 s1 S1 m2 s2 S2 a b"
  shows "rel_sum (rel_error (twin m1 s1 S1 m2 s2 S2)) (twin m1 s1 S1 m2 s2 S2)
           (write_pointer a v fs) (write_pointer b v fs)"
  using output_chars_twin_rel [OF tw] write_string_twin [OF tw]
  by (simp add: write_pointer_def Let_def write_hexadecimal_chars del: output_chars.simps)

lemma directive_output_twin:
  assumes tw: "twin m1 s1 S1 m2 s2 S2 a b"
  shows "rel_sum (rel_error (twin m1 s1 S1 m2 s2 S2)) (twin m1 s1 S1 m2 s2 S2)
           (directive_output a l fs) (directive_output b l fs)"
proof -
  have int: "rel_sum (rel_error (twin m1 s1 S1 m2 s2 S2)) (twin m1 s1 S1 m2 s2 S2)
      (if int_value \<ge> 0 then write_integer_positive a' (nat int_value) fs
       else write_decimal_negative a' int_value fs)
      (if int_value \<ge> 0 then write_integer_positive b' (nat int_value) fs
       else write_decimal_negative b' int_value fs)"
    if "twin m1 s1 S1 m2 s2 S2 a' b'" for int_value a' b'
    using write_integer_positive_twin [OF that] output_chars_twin_rel [OF that]
    by (simp add: write_decimal_negative_chars del: output_chars.simps)
  have chr: "rel_sum (rel_error (twin m1 s1 S1 m2 s2 S2)) (twin m1 s1 S1 m2 s2 S2)
      (write_character a' v fs) (write_character b' v fs)"
    if "twin m1 s1 S1 m2 s2 S2 a' b'" for v a' b'
    using output_chars_twin_rel [OF that]
    by (simp only: write_character_chars)
  show ?thesis
  proof (cases "type_fs fs")
    case TYPE_d
    then show ?thesis
      using pop_then_twin [of "\<lambda>out. pop_or_load_integer fs out (using_positions l) (array (pia l))",
          OF pop_or_load_integer_frame tw int]
      by (simp add: directive_output_def Let_def)
  next
    case TYPE_i
    then show ?thesis
      using pop_then_twin [of "\<lambda>out. pop_or_load_integer fs out (using_positions l) (array (pia l))",
          OF pop_or_load_integer_frame tw int]
      by (simp add: directive_output_def Let_def)
  next
    case TYPE_u
    then show ?thesis
      using pop_then_twin [of "\<lambda>out. pop_or_load_unsigned_integer fs out (using_positions l)
              (array (pia l))" _ _ _ _ _ _ _ _ _ "\<lambda>v out'. write_integer_positive out' v fs",
          OF pop_or_load_unsigned_integer_frame tw write_integer_positive_twin]
      by (simp add: directive_output_def Let_def)
  next
    case TYPE_o
    then show ?thesis
      using pop_then_twin [of "\<lambda>out. pop_or_load_unsigned_integer fs out (using_positions l)
              (array (pia l))" _ _ _ _ _ _ _ _ _ "\<lambda>v out'. write_integer_positive out' v fs",
          OF pop_or_load_unsigned_integer_frame tw write_integer_positive_twin]
      by (simp add: directive_output_def Let_def)
  next
    case TYPE_x
    then show ?thesis
      using pop_then_twin [of "\<lambda>out. pop_or_load_unsigned_integer fs out (using_positions l)
              (array (pia l))" _ _ _ _ _ _ _ _ _ "\<lambda>v out'. write_integer_positive out' v fs",
          OF pop_or_load_unsigned_integer_frame tw write_integer_positive_twin]
      by (simp add: directive_output_def Let_def)
  next
    case TYPE_X
    then show ?thesis
      using pop_then_twin [of "\<lambda>out. pop_or_load_unsigned_integer fs out (using_positions l)
              (array (pia l))" _ _ _ _ _ _ _ _ _ "\<lambda>v out'. write_integer_positive out' v fs",
          OF pop_or_load_unsigned_integer_frame tw write_integer_positive_twin]
      by (simp add: directive_output_def Let_def)
  next
    case TYPE_c
    then show ?thesis
      using pop_then_twin [of "\<lambda>out. pop_or_load_character fs out (using_positions l)
              (array (pia l))" _ _ _ _ _ _ _ _ _ "\<lambda>v out'. write_character out' v fs",
          OF pop_or_load_character_frame tw chr]
      by (simp add: directive_output_def Let_def)
  next
    case TYPE_s
    then show ?thesis
      using pop_then_twin [of "\<lambda>out. pop_or_load_string fs out (using_positions l)
              (array (pia l))" _ _ _ _ _ _ _ _ _ "\<lambda>v out'. write_string out' v fs",
          OF pop_or_load_string_frame tw write_string_twin]
      by (simp add: directive_output_def Let_def)
  next
    case TYPE_p
    then show ?thesis
      using pop_then_twin [of "\<lambda>out. pop_or_load_pointer fs out (using_positions l)
              (array (pia l))" _ _ _ _ _ _ _ _ _ "\<lambda>v out'. write_pointer out' v fs",
          OF pop_or_load_pointer_frame tw write_pointer_twin]
      by (simp add: directive_output_def Let_def)
  next
    case TYPE_n
    then show ?thesis
      using pop_then_twin [of "\<lambda>out. pop_or_load_n_pointer fs out (using_positions l)
              (array (pia l))" _ _ _ _ _ _ _ _ _ "\<lambda>v out'. write_characters_written out' v fs",
          OF pop_or_load_n_pointer_frame tw write_characters_written_twin]
      by (simp add: directive_output_def Let_def)
  qed (insert tw, simp_all add: directive_output_def Let_def)
qed


lemma process_directive_twin:
  assumes tw: "twin m1 s1 S1 m2 s2 S2 a b"
  shows "rel_sum (rel_error (twin m1 s1 S1 m2 s2 S2)) (twin m1 s1 S1 m2 s2 S2)
           (process_directive a l fs0) (process_directive b l fs0)"
proof -
  let ?T = "twin m1 s1 S1 m2 s2 S2"
  let ?emit = "\<lambda>fs2 out2.
       (let fs = snd (format_string_check_unused_values fs2)
        in if is_float_type (type_fs fs) then Inl (Failed out2)
           else (case directive_output out2 l fs of
                   Inl Undefined \<Rightarrow> Inl Undefined
                 | Inl (Failed out3) \<Rightarrow> cleanup_and_fail out3 l
                 | Inr out3 \<Rightarrow> Inr out3))"
  let ?prec = "\<lambda>fs1 out1. pop_then (fetch_precision out1 l fs1) ?emit"
  have pd: "process_directive out l fs0 = pop_then (fetch_width out l fs0) ?prec" for out
    by (simp add: process_directive_def pop_then_def split: option.splits)
  have emit: "rel_sum (rel_error ?T) ?T (?emit fs2 a2) (?emit fs2 b2)"
    if t2: "?T a2 b2" for fs2 a2 b2
  proof -
    let ?fs = "snd (format_string_check_unused_values fs2)"
    show ?thesis
    proof (cases "is_float_type (type_fs ?fs)")
      case True
      with t2 show ?thesis by (simp add: Let_def)
    next
      case False
      have d: "rel_sum (rel_error ?T) ?T (directive_output a2 l ?fs) (directive_output b2 l ?fs)"
        by (rule directive_output_twin [OF t2])
      show ?thesis
      proof (cases "directive_output a2 l ?fs")
        case (Inr a3)
        with d obtain b3 where "directive_output b2 l ?fs = Inr b3" "?T a3 b3"
          by (cases "directive_output b2 l ?fs") auto
        with Inr False show ?thesis by (simp add: Let_def)
      next
        case (Inl e)
        show ?thesis
        proof (cases e)
          case Undefined
          with d Inl have "directive_output b2 l ?fs = Inl Undefined"
            by (cases "directive_output b2 l ?fs") (auto elim: error.rel_cases)
          with Inl Undefined False show ?thesis by (simp add: Let_def)
        next
          case (Failed a3)
          with d Inl obtain b3 where "directive_output b2 l ?fs = Inl (Failed b3)" "?T a3 b3"
            by (cases "directive_output b2 l ?fs") (auto elim: error.rel_cases)
          with Inl Failed False cleanup_and_fail_twin [of m1 s1 S1 m2 s2 S2 a3 b3 ?T l]
          show ?thesis by (simp add: Let_def)
        qed
      qed
    qed
  qed
  have prec: "rel_sum (rel_error ?T) ?T (?prec fs1 a1) (?prec fs1 b1)"
    if t1: "?T a1 b1" for fs1 a1 b1
    by (rule pop_then_twin [of "\<lambda>out. fetch_precision out l fs1", OF fetch_precision_frame t1])
       (rule emit)
  show ?thesis
    unfolding pd
    by (rule pop_then_twin [of "\<lambda>out. fetch_width out l fs0", OF fetch_width_frame tw])
       (rule prec)
qed

lemma generic_printf_step_twin:
  assumes tw: "twin m1 s1 S1 m2 s2 S2 a b"
  shows "rel_sum (rel_error (twin m1 s1 S1 m2 s2 S2))
           (rel_prod (=) (rel_prod (=) (twin m1 s1 S1 m2 s2 S2)))
           (generic_printf_step fmt a l c rest) (generic_printf_step fmt b l c rest)"
proof -
  let ?T = "twin m1 s1 S1 m2 s2 S2"
  from printf_output_twin [OF tw] have po:
    "\<exists>a' b'. printf_output a ch = Inr a' \<and> printf_output b ch = Inr b' \<and> ?T a' b'" for ch .
  show ?thesis
  proof (cases "c = CHR ''%''")
    case False
    with po [of c] show ?thesis
      by (auto simp: generic_printf_step_def)
  next
    case pc: True
    show ?thesis
    proof (cases "peek rest = CHR ''%''")
      case True
      with pc po [of "CHR ''%''"] show ?thesis
        by (auto simp: generic_printf_step_def)
    next
      case False
      show ?thesis
      proof (cases "read_format_string rest")
        case None
        with pc False show ?thesis by (simp add: generic_printf_step_def)
      next
        case (Some p)
        obtain err fs where p: "p = (err, fs)" by (cases p)
        show ?thesis
        proof (cases "format_error_is_error err")
          case True
          with pc False Some p cleanup_and_fail_twin [OF tw] show ?thesis
            by (simp add: generic_printf_step_def)
        next
          case ne: False
          have dp: "rel_sum (rel_error ?T) (rel_prod (=) ?T)
                      (decide_positions fmt a l fs) (decide_positions fmt b l fs)"
            by (rule twin_result_pair [of "\<lambda>out. decide_positions fmt out l fs",
                  OF decide_positions_frame tw])
          let ?k = "\<lambda>(l', out').
                 if (position fs = 0 \<and> using_positions l')
                    \<or> (position fs \<noteq> 0 \<and> \<not> using_positions l')
                 then cleanup_and_fail out' l'
                 else and_then (process_directive out' l' fs)
                        (\<lambda>out''. Inr (input_length fs, l', out''))"
          have k: "rel_sum (rel_error ?T) (rel_prod (=) (rel_prod (=) ?T)) (?k x) (?k y)"
            if xy: "rel_prod (=) ?T x y" for x y
          proof -
            obtain l' a' where x: "x = (l', a')" by (cases x)
            with xy obtain b' where y: "y = (l', b')" and t': "?T a' b'"
              by (cases y) auto
            have "rel_sum (rel_error ?T) (rel_prod (=) (rel_prod (=) ?T))
                    (and_then (process_directive a' l' fs)
                       (\<lambda>out''. Inr (input_length fs, l', out'')))
                    (and_then (process_directive b' l' fs)
                       (\<lambda>out''. Inr (input_length fs, l', out'')))"
              by (rule and_then_twin [OF process_directive_twin [OF t']]) simp
            with cleanup_and_fail_twin [OF t',
                of "rel_prod ((=) :: nat \<Rightarrow> _) (rel_prod ((=) :: locals \<Rightarrow> _) ?T)" l']
            show ?thesis
              by (simp add: x y)
          qed
          have "rel_sum (rel_error ?T) (rel_prod (=) (rel_prod (=) ?T))
                  (and_then (decide_positions fmt a l fs) ?k)
                  (and_then (decide_positions fmt b l fs) ?k)"
            by (rule and_then_twin [OF dp]) (rule k)
          with pc False Some p ne show ?thesis
            by (simp add: generic_printf_step_def)
        qed
      qed
    qed
  qed
qed

lemma generic_printf_finish_twin:
  assumes tw: "twin m1 s1 S1 m2 s2 S2 a b"
  shows "rel_sum (rel_error (twin m1 s1 S1 m2 s2 S2)) (twin m1 s1 S1 m2 s2 S2)
           (generic_printf_finish a l) (generic_printf_finish b l)"
  by (rule twin_result [of "\<lambda>out. generic_printf_finish out l",
        OF generic_printf_finish_frame tw])

lemma generic_printf_loop_twin:
  "twin m1 s1 S1 m2 s2 S2 a b
   \<Longrightarrow> rel_sum (rel_error (twin m1 s1 S1 m2 s2 S2)) (twin m1 s1 S1 m2 s2 S2)
         (generic_printf_loop fmt a l rest) (generic_printf_loop fmt b l rest)"
proof (induction fmt a l rest arbitrary: b rule: generic_printf_loop.induct)
  case (1 fmt a l)
  then show ?case by (simp add: generic_printf_finish_twin)
next
  case (2 fmt a l c rest)
  let ?T = "twin m1 s1 S1 m2 s2 S2"
  show ?case
  proof (cases "c = NUL")
    case True
    with 2 show ?thesis by (simp add: generic_printf_finish_twin)
  next
    case False
    have st: "rel_sum (rel_error ?T) (rel_prod (=) (rel_prod (=) ?T))
                (generic_printf_step fmt a l c rest) (generic_printf_step fmt b l c rest)"
      by (rule generic_printf_step_twin [OF "2.prems"])
    show ?thesis
    proof (cases "generic_printf_step fmt a l c rest")
      case (Inl e)
      with st obtain e' where "generic_printf_step fmt b l c rest = Inl e'" "rel_error ?T e e'"
        by (cases "generic_printf_step fmt b l c rest") auto
      with Inl False show ?thesis by simp
    next
      case (Inr p)
      obtain n l' a' where p: "p = (n, l', a')" by (cases p)
      with st Inr obtain b' where sb: "generic_printf_step fmt b l c rest = Inr (n, l', b')"
        and t': "?T a' b'"
        by (cases "generic_printf_step fmt b l c rest") auto
      from "2.IH" [OF False Inr p [symmetric] refl t'] Inr p sb False show ?thesis
        by simp
    qed
  qed
qed

lemma generic_printf_twin:
  "twin m1 s1 S1 m2 s2 S2 a b
   \<Longrightarrow> rel_sum (rel_error (twin m1 s1 S1 m2 s2 S2)) (twin m1 s1 S1 m2 s2 S2)
         (generic_printf a fmt) (generic_printf b fmt)"
  by (simp add: generic_printf_def generic_printf_loop_twin)


subsection \<open>The entry point on a fixed buffer\<close>

lemma make_output_twin:
  assumes ok1: "S1 = 0 \<or> s1 \<noteq> None" and ok2: "S2 = 0 \<or> s2 \<noteq> None"
  shows "twin (memory env) s1 S1 (memory env) s2 S2
           (make_output env OUTPUT_string None s1 0 0 S1 args)
           (make_output env OUTPUT_string None s2 0 0 S2 args)"
  using ok1 ok2
  by (auto simp: twin_def buffer_inv_def make_output_def frame_def option.map_ident)

lemma generic_printf_buffer_inv:
  assumes ok: "S = 0 \<or> s \<noteq> None"
    and run: "generic_printf (make_output env OUTPUT_string None s 0 0 S args) fmt = r"
    and r: "r = Inr out \<or> r = Inl (Failed out)"
  shows "buffer_inv (memory env) s S out"
proof -
  let ?T = "twin (memory env) s S (memory env) s S"
  let ?a = "make_output env OUTPUT_string None s 0 0 S args"
  have "rel_sum (rel_error ?T) ?T (generic_printf ?a fmt) (generic_printf ?a fmt)"
    by (rule generic_printf_twin [OF make_output_twin [OF ok ok]])
  with run r have "?T out out" by auto
  then show ?thesis by (simp add: twin_def)
qed

lemma buffer_inv_limit_0:
  assumes inv: "buffer_inv m s 0 out"
  shows "memory out = m"
proof
  fix x
  have "\<forall>b. s = Some b \<longrightarrow> x < b \<or> b + min (characters_written out) (0 - 1) \<le> x"
    by auto
  with inv show "memory out x = m x"
    unfolding buffer_inv_def by blast
qed

lemma new_snprintf_buffer_inv:
  assumes run: "new_snprintf env str S (Some fmt) args = Some (r, out)"
  shows "string out = map_option (\<lambda>b. b + min (characters_written out) (S - 1)) str
         \<and> (\<forall>a. (\<forall>b. str = Some b
                    \<longrightarrow> a < b \<or> b + min (characters_written out) (S - 1) < a)
                 \<longrightarrow> memory out a = memory env a)
         \<and> (S = 0 \<longrightarrow> memory out = memory env)
         \<and> (r \<noteq> - 1 \<longrightarrow> r = int_of_size_t (characters_written out))"
proof (cases "S \<noteq> 0 \<and> str = None")
  case True
  with run have "out = make_output env OUTPUT_string None str 0 0 S args" and "r = - 1"
    by (simp_all add: new_snprintf_def Let_def)
  with True show ?thesis by (simp add: make_output_def)
next
  case False
  then have ok: "S = 0 \<or> str \<noteq> None" by auto
  let ?a = "make_output env OUTPUT_string None str 0 0 S args"
  from run False have rc: "return_count_string (S \<noteq> 0) (generic_printf ?a fmt) = Some (r, out)"
    by (auto simp: new_snprintf_def Let_def split: if_splits)
  show ?thesis
  proof (cases "generic_printf ?a fmt")
    case (Inl e)
    with rc obtain o' where e: "e = Failed o'" by (cases e) (simp_all add: return_count_string_def)
    with rc Inl have o: "out = o'" and r: "r = - 1" by (simp_all add: return_count_string_def)
    from generic_printf_buffer_inv [OF ok Inl [unfolded e o [symmetric]]]
    have inv: "buffer_inv (memory env) str S out" by simp
    have "memory out = memory env" if "S = 0"
      using inv that buffer_inv_limit_0 [of "memory env" str out] by simp
    with inv r show ?thesis
      by (auto simp: buffer_inv_def)
  next
    case (Inr o')
    from generic_printf_buffer_inv [OF ok Inr]
    have inv: "buffer_inv (memory env) str S o'" by simp
    show ?thesis
    proof (cases "S = 0")
      case True
      with rc Inr have o: "out = o'" and r: "r = int_of_size_t (characters_written o')"
        by (auto simp: return_count_string_def)
      have "memory out = memory env"
        using inv True o buffer_inv_limit_0 [of "memory env" str out] by simp
      with inv o r True show ?thesis
        by (auto simp: buffer_inv_def)
    next
      case False
      with ok obtain b where s: "str = Some b" by auto
      from inv s have cur: "string o' = Some (b + min (characters_written o') (S - 1))"
        by (simp add: buffer_inv_def)
      with rc Inr False
      have o: "out = o'\<lparr>memory := (memory o')(b + min (characters_written o') (S - 1) \<mapsto> NUL)\<rparr>"
        and r: "r = int_of_size_t (characters_written o')"
        by (auto simp: return_count_string_def terminate_string_def)
      from inv o r cur False s show ?thesis
        by (auto simp: buffer_inv_def)
    qed
  qed
qed

lemma new_snprintf_any_size:
  assumes ok1: "S = 0 \<or> str \<noteq> None" and ok2: "S' = 0 \<or> str' \<noteq> None"
    and run: "new_snprintf env str S (Some fmt) args = Some (r, out)"
  shows "\<exists>out'. new_snprintf env str' S' (Some fmt) args = Some (r, out')
           \<and> characters_written out' = characters_written out"
proof -
  let ?T = "twin (memory env) str S (memory env) str' S'"
  let ?a = "make_output env OUTPUT_string None str 0 0 S args"
  let ?b = "make_output env OUTPUT_string None str' 0 0 S' args"
  have rel: "rel_sum (rel_error ?T) ?T (generic_printf ?a fmt) (generic_printf ?b fmt)"
    by (rule generic_printf_twin [OF make_output_twin [OF ok1 ok2]])
  from run ok1 have rc: "return_count_string (S \<noteq> 0) (generic_printf ?a fmt) = Some (r, out)"
    by (auto simp: new_snprintf_def Let_def)
  from ok2 have ns: "new_snprintf env str' S' (Some fmt) args
      = return_count_string (S' \<noteq> 0) (generic_printf ?b fmt)"
    by (auto simp: new_snprintf_def Let_def)
  show ?thesis
  proof (cases "generic_printf ?a fmt")
    case (Inl e)
    with rc obtain a' where e: "e = Failed a'" by (cases e) (simp_all add: return_count_string_def)
    with rel Inl obtain b' where b: "generic_printf ?b fmt = Inl (Failed b')" and t: "?T a' b'"
      by (cases "generic_printf ?b fmt") (auto elim: error.rel_cases)
    from rc Inl e have "out = a'" "r = - 1" by (simp_all add: return_count_string_def)
    with b t show ?thesis
      by (simp add: ns return_count_string_def twin_def)
  next
    case (Inr a')
    with rel obtain b' where b: "generic_printf ?b fmt = Inr b'" and t: "?T a' b'"
      by (cases "generic_printf ?b fmt") auto
    from t have cw: "characters_written a' = characters_written b'"
      and ia: "buffer_inv (memory env) str S a'" and ib: "buffer_inv (memory env) str' S' b'"
      by (simp_all add: twin_def)
    from rc Inr ia ok1 have r: "r = int_of_size_t (characters_written a')"
      and o: "characters_written out = characters_written a'"
      by (auto simp: return_count_string_def terminate_string_def buffer_inv_def
          split: if_splits)
    from ib ok2 b r cw o show ?thesis
      by (auto simp: ns return_count_string_def terminate_string_def buffer_inv_def)
  qed
qed


lemma int_of_size_t_small:
  assumes n: "n < 2 ^ 31"
  shows "int_of_size_t n = int n"
proof -
  have "(word_of_nat n :: 32 word) = word_of_int (int n)" by simp
  then have "sint (word_of_nat n :: 32 word) = signed_take_bit 31 (int n)"
    by (simp only: sint_sbintrunc') simp
  moreover from n have "int n < 2 ^ 31"
    by (metis of_nat_less_iff of_nat_numeral of_nat_power)
  ultimately show ?thesis
    by (simp add: int_of_size_t_def signed_take_bit_int_eq_self)
qed

lemma new_snprintf_success:
  assumes ok: "S = 0 \<or> str \<noteq> None"
    and run: "new_snprintf env str S (Some fmt) args = Some (r, out)"
    and gp: "generic_printf (make_output env OUTPUT_string None str 0 0 S args) fmt = Inr o'"
  shows "r = int_of_size_t (characters_written out)"
proof -
  from generic_printf_buffer_inv [OF ok gp] have "buffer_inv (memory env) str S o'" by simp
  with run ok gp show ?thesis
    by (auto simp: new_snprintf_def Let_def return_count_string_def terminate_string_def
        buffer_inv_def split: if_splits)
qed

lemma printf_output_sprintf_counts:
  "printf_output_sprintf out c = Inr out' \<Longrightarrow> characters_written out' = characters_written out + 1"
  by (auto simp: printf_output_sprintf_def split: if_splits option.splits)

text \<open>
  C1, as the source has it. A call of \<^verbatim>\<open>new_snprintf\<close> with the buffer \<open>str\<close> (\<open>None\<close> is
  the null pointer) and the size \<open>S\<close> that returns \<open>r\<close> and leaves the state \<open>out\<close>:
  \<^item> the cursor of the sink has moved by the counter cut at \<open>S - 1\<close>: that many bytes were
    stored, at most \<open>S - 1\<close>;
  \<^item> the memory is what it was in front of the buffer and behind the place of the cursor,
    where the terminator goes: nothing is written past offset \<open>S - 1\<close>;
  \<^item> with \<open>S = 0\<close> the memory is what it was: no byte and no terminator is written;
  \<^item> when the engine succeeds, and whenever \<open>r\<close> is not \<open>-1\<close>, \<open>r\<close> is the counter converted
    from \<^verbatim>\<open>size_t\<close> to \<^verbatim>\<open>int\<close> (\<^verbatim>\<open>return output.characters_written;\<close>): the counter
    itself when it is below \<open>2^31\<close>, and not the counter from there on;
  \<^item> the returned value and the counter do not depend on the buffer and its size: a call
    with any other buffer and size returns the same and counts the same;
  \<^item> on a buffer larger than the counter every counted character is stored: the counter is
    the length of the output that is not cut;
  \<^item> every character passed to \<^verbatim>\<open>printf_output_sprintf\<close> advances the counter by one,
    stored or not;
  \<^item> \<^verbatim>\<open>new_vsnprintf\<close> does the same;
  \<^item> \<^verbatim>\<open>printf_output\<close>, through which the engine emits every character, advances the
    counter by one on a string sink.
\<close>

theorem fixed_buffer_counts_every_character:
  assumes run: "new_snprintf env str S (Some fmt) args = Some (r, out)"
  shows "string out = map_option (\<lambda>b. b + min (characters_written out) (S - 1)) str
    \<and> (\<forall>a. (\<forall>b. str = Some b
               \<longrightarrow> a < b \<or> b + min (characters_written out) (S - 1) < a)
            \<longrightarrow> memory out a = memory env a)
    \<and> (S = 0 \<longrightarrow> memory out = memory env)
    \<and> ((S = 0 \<or> str \<noteq> None)
        \<and> (\<exists>out'. generic_printf (make_output env OUTPUT_string None str 0 0 S args) fmt
                    = Inr out')
        \<longrightarrow> r = int_of_size_t (characters_written out))
    \<and> (r \<noteq> - 1 \<longrightarrow> r = int_of_size_t (characters_written out))
    \<and> (r \<noteq> - 1 \<and> characters_written out < 2 ^ 31 \<longrightarrow> r = int (characters_written out))
    \<and> (S = 0 \<or> str \<noteq> None
        \<longrightarrow> (\<forall>str' S'. S' = 0 \<or> str' \<noteq> None
               \<longrightarrow> (\<exists>out'. new_snprintf env str' S' (Some fmt) args = Some (r, out')
                      \<and> characters_written out' = characters_written out)))
    \<and> (S = 0 \<or> str \<noteq> None
        \<longrightarrow> (\<forall>b S'. characters_written out < S'
               \<longrightarrow> (\<exists>out'. new_snprintf env (Some b) S' (Some fmt) args = Some (r, out')
                      \<and> string out' = Some (b + characters_written out))))
    \<and> (\<forall>sink c sink'. printf_output_sprintf sink c = Inr sink'
          \<longrightarrow> characters_written sink' = characters_written sink + 1)
    \<and> new_vsnprintf env str S (Some fmt) args = Some (r, out)
    \<and> (\<forall>sink c sink'. type_out sink = OUTPUT_string \<and> printf_output sink c = Inr sink'
          \<longrightarrow> characters_written sink' = characters_written sink + 1)"
proof -
  note inv = new_snprintf_buffer_inv [OF run]
  have cnt': "\<forall>sink c sink'. type_out sink = OUTPUT_string \<and> printf_output sink c = Inr sink'
          \<longrightarrow> characters_written sink' = characters_written sink + 1"
    using printf_output_sprintf_counts by (auto simp: printf_output_def)
  from run have vs: "new_vsnprintf env str S (Some fmt) args = Some (r, out)"
    by (simp add: new_vsnprintf_def new_snprintf_def)
  have any: "\<exists>out'. new_snprintf env str' S' (Some fmt) args = Some (r, out')
               \<and> characters_written out' = characters_written out"
    if "S = 0 \<or> str \<noteq> None" "S' = 0 \<or> str' \<noteq> None" for str' S'
    using new_snprintf_any_size [OF that run] .
  have large: "\<exists>out'. new_snprintf env (Some b) S' (Some fmt) args = Some (r, out')
               \<and> string out' = Some (b + characters_written out)"
    if ok: "S = 0 \<or> str \<noteq> None" and big: "characters_written out < S'" for b S'
  proof -
    from any [OF ok, of S' "Some b"] obtain out' where
      run': "new_snprintf env (Some b) S' (Some fmt) args = Some (r, out')"
      and cw: "characters_written out' = characters_written out"
      by auto
    from new_snprintf_buffer_inv [OF run'] cw big
    have "string out' = Some (b + characters_written out)"
      by (simp add: min_def)
    with run' show ?thesis by blast
  qed
  from inv have small: "r \<noteq> - 1 \<and> characters_written out < 2 ^ 31
      \<longrightarrow> r = int (characters_written out)"
    using int_of_size_t_small [of "characters_written out"] by auto
  have succ: "(S = 0 \<or> str \<noteq> None)
        \<and> (\<exists>out'. generic_printf (make_output env OUTPUT_string None str 0 0 S args) fmt
                    = Inr out')
        \<longrightarrow> r = int_of_size_t (characters_written out)"
    using new_snprintf_success [OF _ run] by blast
  have any': "S = 0 \<or> str \<noteq> None
        \<longrightarrow> (\<forall>str' S'. S' = 0 \<or> str' \<noteq> None
               \<longrightarrow> (\<exists>out'. new_snprintf env str' S' (Some fmt) args = Some (r, out')
                      \<and> characters_written out' = characters_written out))"
    using any by blast
  have large': "S = 0 \<or> str \<noteq> None
        \<longrightarrow> (\<forall>b S'. characters_written out < S'
               \<longrightarrow> (\<exists>out'. new_snprintf env (Some b) S' (Some fmt) args = Some (r, out')
                      \<and> string out' = Some (b + characters_written out)))"
    using large by blast
  have cnt: "\<forall>sink c sink'. printf_output_sprintf sink c = Inr sink'
          \<longrightarrow> characters_written sink' = characters_written sink + 1"
    using printf_output_sprintf_counts by blast
  note i1 = inv [THEN conjunct1]
  note i2 = inv [THEN conjunct2, THEN conjunct1]
  note i3 = inv [THEN conjunct2, THEN conjunct2, THEN conjunct1]
  note i4 = inv [THEN conjunct2, THEN conjunct2, THEN conjunct2]
  show ?thesis
    apply (rule conjI, rule i1)
    apply (rule conjI, rule i2)
    apply (rule conjI, rule i3)
    apply (rule conjI, rule succ)
    apply (rule conjI, rule i4)
    apply (rule conjI, rule small)
    apply (rule conjI, rule any')
    apply (rule conjI, rule large')
    apply (rule conjI, rule cnt)
    apply (rule conjI, rule vs)
    apply (rule cnt')
    done
qed


theorem fixed_buffer_counts_every_character_witness:
  "returned (new_snprintf empty_world (Some 0) 4 (Some ''hello'') []) = Some 5
   \<and> observe characters_written (new_snprintf empty_world (Some 0) 4 (Some ''hello'') [])
     = Some 5
   \<and> observe string (new_snprintf empty_world (Some 0) 4 (Some ''hello'') []) = Some (Some 3)
   \<and> buffer_after 5 (new_snprintf empty_world (Some 0) 4 (Some ''hello'') [])
     = Some [Some CHR ''h'', Some CHR ''e'', Some CHR ''l'', Some NUL, None]
   \<and> returned (new_snprintf empty_world None 0 (Some ''hello'') []) = Some 5
   \<and> observe memory (new_snprintf empty_world None 0 (Some ''hello'') [])
     = Some (memory empty_world)
   \<and> returned (new_snprintf empty_world (Some 0) 6 (Some ''hello'') []) = Some 5
   \<and> observe string (new_snprintf empty_world (Some 0) 6 (Some ''hello'') []) = Some (Some 5)"
proof -
  have ret: "returned (new_snprintf empty_world (Some 0) 4 (Some ''hello'') []) = Some 5"
    by code_simp
  have cnt: "observe characters_written
               (new_snprintf empty_world (Some 0) 4 (Some ''hello'') []) = Some 5"
    by code_simp
  have buf: "buffer_after 5 (new_snprintf empty_world (Some 0) 4 (Some ''hello'') [])
     = Some [Some CHR ''h'', Some CHR ''e'', Some CHR ''l'', Some NUL, None]"
    by code_simp
  from ret obtain out where
    run: "new_snprintf empty_world (Some 0) 4 (Some ''hello'') [] = Some (5, out)"
    by (auto simp: returned_def)
  from cnt run have cw: "characters_written out = 5"
    by (simp add: observe_def)
  note t = fixed_buffer_counts_every_character [OF run]
  from t have "string out = map_option (\<lambda>b. b + min (characters_written out) (4 - 1)) (Some 0)"
    by (rule conjunct1)
  with cw have cur: "string out = Some 3"
    by simp
  note any = t [THEN conjunct2, THEN conjunct2, THEN conjunct2, THEN conjunct2, THEN conjunct2,
      THEN conjunct2, THEN conjunct1, rule_format]
  note large = t [THEN conjunct2, THEN conjunct2, THEN conjunct2, THEN conjunct2,
      THEN conjunct2, THEN conjunct2, THEN conjunct2, THEN conjunct1, rule_format]
  have "\<exists>out'. new_snprintf empty_world None 0 (Some ''hello'') [] = Some (5, out')
      \<and> characters_written out' = characters_written out"
    by (rule any) simp_all
  then obtain out0 where
    run0: "new_snprintf empty_world None 0 (Some ''hello'') [] = Some (5, out0)"
    by blast
  note t0 = fixed_buffer_counts_every_character [OF run0]
  have mem0: "memory out0 = memory empty_world"
    by (rule t0 [THEN conjunct2, THEN conjunct2, THEN conjunct1, rule_format]) simp
  have "\<exists>out'. new_snprintf empty_world (Some 0) 6 (Some ''hello'') [] = Some (5, out')
      \<and> string out' = Some (0 + characters_written out)"
    by (rule large) (simp_all add: cw)
  then obtain out6 where
    run6: "new_snprintf empty_world (Some 0) 6 (Some ''hello'') [] = Some (5, out6)"
    and cur6: "string out6 = Some 5"
    by (auto simp: cw)
  have r0: "returned (new_snprintf empty_world None 0 (Some ''hello'') []) = Some 5"
    by (simp only: run0 returned_def option.map fst_conv)
  have m0: "observe memory (new_snprintf empty_world None 0 (Some ''hello'') [])
     = Some (memory empty_world)"
    by (simp only: run0 observe_def option.map snd_conv mem0)
  have r6: "returned (new_snprintf empty_world (Some 0) 6 (Some ''hello'') []) = Some 5"
    by (simp only: run6 returned_def option.map fst_conv)
  have s6: "observe string (new_snprintf empty_world (Some 0) 6 (Some ''hello'') [])
     = Some (Some 5)"
    by (simp only: run6 observe_def option.map snd_conv cur6)
  have s4: "observe string (new_snprintf empty_world (Some 0) 4 (Some ''hello'') [])
     = Some (Some 3)"
    by (simp only: run observe_def option.map snd_conv cur)
  from ret cnt s4 buf r0 m0 r6 s6 show ?thesis
    by (intro conjI)
qed

lemma length_padded_field:
  "length (padded_field fs prefix body) = max (width fs) (length prefix + length body)"
  by (auto simp: padded_field_def Let_def)

lemma int_of_size_t_wraps:
  "int_of_size_t 2147483648 = - 2147483648"
  by (simp add: int_of_size_t_def)

lemma counter_beyond_int_run:
  "\<exists>out. new_snprintf empty_world (Some 0) 4 (Some ''%*dX'') [VA_int 2147483647, VA_int 42]
           = Some (- 2147483648, out)
         \<and> characters_written out = 2147483648"
proof -
  define a0 where
    "a0 = make_output empty_world OUTPUT_string None (Some 0) 0 0 4 [VA_int 2147483647, VA_int 42]"
  define a1 where "a1 = a0\<lparr>valist := [VA_int 42]\<rparr>"
  define a2 where "a2 = a0\<lparr>valist := []\<rparr>"
  define l0 where
    "l0 = \<lparr>using_positions = False, first_element = True,
            pia = \<lparr>size_pia = 0, array_block = None, array = []\<rparr>, position_count = 0\<rparr>"
  define l1 where "l1 = l0\<lparr>first_element := False\<rparr>"
  define fs0 where "fs0 = (plain_directive TYPE_d)\<lparr>input_length := 2, preceding_width := 1\<rparr>"
  define fs1 where "fs1 = fs0\<lparr>width := nat 2147483647\<rparr>"
  define cs where
    "cs = padded_field fs1 (sign_prefix fs1)
            (digits_field (precision fs1) (42 = (0::nat)) (rev (write_integer_backwards 42 fs1 10)))"
  have inv2: "buffer_inv (memory empty_world) (Some 0) 4 a2"
    by (simp add: buffer_inv_def make_output_def a2_def a0_def)
  have cw2: "characters_written a2 = 0"
    by (simp add: make_output_def a2_def a0_def)
  have rf: "read_format_string ''*dX'' = Some (FORMAT_okay, fs0)"
    unfolding fs0_def by code_simp
  have il: "input_length fs0 = 2" and pos: "position fs0 = 0"
    by (simp_all add: fs0_def plain_directive_def)
  have ty: "type_fs fs1 = TYPE_d"
    by (simp add: fs1_def fs0_def plain_directive_def)
  have up: "\<not> using_positions l1" "\<not> using_positions l0" "first_element l0"
    by (simp_all add: l1_def l0_def)
  have dp: "decide_positions ''%*dX'' a0 l0 fs0 = Inr (l1, a0)"
    by (simp add: decide_positions_def pos l1_def)
  have fw: "fetch_width a0 l1 fs0 = Some (fs1, a1)"
    by (simp add: fetch_width_def pop_or_load_width_precision_def va_arg_int_def
        plain_directive_def make_output_def fs1_def fs0_def a1_def a0_def l1_def l0_def)
  have fp: "fetch_precision a1 l1 fs1 = Some (fs1, a1)"
    by (simp add: fetch_precision_def plain_directive_def fs1_def fs0_def)
  have cu: "snd (format_string_check_unused_values fs1) = fs1"
    by (simp add: format_string_check_unused_values_def unused_value_rules_def apply_rule_def
        plain_directive_def fs1_def fs0_def)
  have pop: "pop_or_load_integer fs1 a1 (using_positions l1) (array (pia l1)) = Some (42, a2)"
    by (simp add: pop_or_load_integer_def pop_or_load_int_def va_arg_int_def
        plain_directive_def make_output_def fs1_def fs0_def a1_def a2_def a0_def l1_def l0_def)
  have "length (write_integer_backwards 42 (plain_directive TYPE_d) 10) = 2"
    by code_simp
  moreover have "write_integer_backwards 42 fs1 10
      = write_integer_backwards 42 (plain_directive TYPE_d) 10"
    by (rule write_integer_backwards_type) (simp add: plain_directive_def ty)
  ultimately have wb: "length (write_integer_backwards 42 fs1 10) = 2"
    by simp
  have "width fs1 = 2147483647" "precision fs1 = - 1" "sign_prefix fs1 = []"
    by (simp_all add: fs1_def fs0_def plain_directive_def sign_prefix_def)
  then have len: "length cs = 2147483647"
    using wb by (simp add: cs_def length_padded_field digits_field_def)
  from output_chars_buffer [OF inv2, of cs] obtain a3 where
    o3: "output_chars a2 cs = Inr a3" and inv3: "buffer_inv (memory empty_world) (Some 0) 4 a3"
    and cw3: "characters_written a3 = characters_written a2 + length cs"
    by blast
  from cw3 len cw2 have cw3': "characters_written a3 = 2147483647"
    by simp
  have wip: "write_integer_positive a2 42 fs1 = Inr a3"
    using o3
    by (simp add: write_integer_positive_def ty write_decimal_positive_chars cs_def
        del: output_chars.simps)
  have dout: "directive_output a1 l1 fs1 = Inr a3"
    by (simp add: directive_output_def Let_def ty pop pop_then_def wip del: output_chars.simps)
  have nf: "\<not> is_float_type (type_fs fs1)"
    by (simp add: ty is_float_type_def)
  have pd: "process_directive a0 l1 fs0 = Inr a3"
    by (simp add: process_directive_def fw fp cu dout nf)
  have st1: "generic_printf_step ''%*dX'' a0 l0 CHR ''%'' ''*dX'' = Inr (2, l1, a3)"
    by (simp add: generic_printf_step_def peek_def rf format_error_is_error_def dp pd pos up il)
  from printf_output_buffer [OF inv3, of "CHR ''X''"] obtain a4 where
    o4: "printf_output a3 CHR ''X'' = Inr a4"
    and inv4: "buffer_inv (memory empty_world) (Some 0) 4 a4"
    and cw4: "characters_written a4 = characters_written a3 + 1"
    by blast
  have st2: "generic_printf_step ''%*dX'' a3 l1 CHR ''X'' [] = Inr (0, l1, a4)"
    by (simp add: generic_printf_step_def o4)
  have fin: "generic_printf_finish a4 l1 = Inr a4"
    by (simp add: generic_printf_finish_def cleanup_positions_def up)
  have "generic_printf_loop ''%*dX'' a0 l0 ''%*dX'' = Inr a4"
    by (simp add: NUL_def st1 st2 fin)
  then have gp: "generic_printf a0 ''%*dX'' = Inr a4"
    by (simp add: generic_printf_def l0_def)
  from inv4 have str4: "string a4 \<noteq> None"
    by (simp add: buffer_inv_def)
  from cw4 cw3' have cw4': "characters_written a4 = 2147483648" by simp
  show ?thesis
    using gp str4 cw4'
    by (auto simp: new_snprintf_def Let_def return_count_string_def terminate_string_def
        int_of_size_t_wraps a0_def)
qed

text \<open>
  C1, as the claim states it, fails: the value returned is not always the counter.
  \<^verbatim>\<open>new_snprintf(buf, 4, "%*dX", INT_MAX, 42)\<close> emits \<open>2^31 - 1\<close> characters for the
  directive and one for \<^verbatim>\<open>X\<close>; the counter is \<open>2^31\<close> and the call returns
  \<^verbatim>\<open>INT_MIN\<close>.
\<close>

theorem counter_beyond_int_counterexample:
  "returned (new_snprintf empty_world (Some 0) 4 (Some ''%*dX'') [VA_int 2147483647, VA_int 42])
     = Some (- 2147483648)
   \<and> observe characters_written
       (new_snprintf empty_world (Some 0) 4 (Some ''%*dX'') [VA_int 2147483647, VA_int 42])
     = Some 2147483648"
  using counter_beyond_int_run
  by (auto simp: returned_def observe_def)

subsection \<open>The parser: a descriptor with a type was read without error\<close>

lemma read_format_string_type_typed:
  "read_format_string_type format fs = (e, fs') \<Longrightarrow> type_fs fs' \<noteq> TYPE_ERROR
   \<Longrightarrow> e = FORMAT_okay"
  by (auto simp: read_format_string_type_def Let_def split: if_splits)

lemma read_format_string_length_typed:
  "read_format_string_length format fs = (e, fs') \<Longrightarrow> type_fs fs' \<noteq> TYPE_ERROR
   \<Longrightarrow> e = FORMAT_okay"
  by (auto simp: read_format_string_length_def Let_def split: if_splits
      dest!: read_format_string_type_typed)

lemma read_format_string_precision_typed:
  assumes "read_format_string_precision format fs = Some (e, fs')"
    and "type_fs fs = TYPE_ERROR" and "type_fs fs' \<noteq> TYPE_ERROR"
  shows "e = FORMAT_okay"
  using assms
  by (auto simp: read_format_string_precision_def Let_def
      split: if_splits option.splits dest!: read_format_string_length_typed)

lemma read_format_string_width_typed:
  assumes rw: "read_format_string_width format fs = Some (e, fs')"
    and t0: "type_fs fs = TYPE_ERROR" and t1: "type_fs fs' \<noteq> TYPE_ERROR"
  shows "e = FORMAT_okay"
proof -
  from rw t0 t1 obtain format1 fs1 where
    p: "read_format_string_precision format1 fs1 = Some (e, fs')" and "type_fs fs1 = TYPE_ERROR"
    by (auto simp: read_format_string_width_def Let_def split: if_splits option.splits)
  then show ?thesis
    using t1 by (rule read_format_string_precision_typed)
qed

lemma read_format_string_flags_loop_typed:
  "read_format_string_flags_loop format fs err = (format', fs', err')
   \<Longrightarrow> type_fs fs' = type_fs fs
       \<and> (\<not> format_error_is_error err \<longrightarrow> \<not> format_error_is_error err')"
  by (induction format fs err rule: read_format_string_flags_loop.induct)
     (auto simp: format_error_is_error_def split: if_splits)

lemma read_format_string_flags_typed:
  assumes "read_format_string_flags format fs = Some (e, fs')"
    and "type_fs fs = TYPE_ERROR" and "type_fs fs' \<noteq> TYPE_ERROR"
  shows "\<not> format_error_is_error e"
proof -
  obtain format1 fs1 err where l: "read_format_string_flags_loop format fs FORMAT_okay
      = (format1, fs1, err)"
    by (cases "read_format_string_flags_loop format fs FORMAT_okay") auto
  with assms obtain rest where w: "read_format_string_width format1 fs1 = Some (rest, fs')"
    and e: "e = (if rest = FORMAT_okay then err else rest)"
    by (auto simp: read_format_string_flags_def split: option.splits)
  from read_format_string_flags_loop_typed [OF l] assms
  have t1: "type_fs fs1 = TYPE_ERROR" and ne: "\<not> format_error_is_error err"
    by (simp_all add: format_error_is_error_def)
  from read_format_string_width_typed [OF w t1 assms(3)] e ne show ?thesis
    by simp
qed

lemma read_format_string_position_typed:
  assumes rp: "read_format_string_position format fs = Some (e, fs')"
    and t0: "type_fs fs = TYPE_ERROR" and t1: "type_fs fs' \<noteq> TYPE_ERROR"
  shows "\<not> format_error_is_error e"
proof -
  from rp t0 consider
    (flags) format1 fs1 where "read_format_string_flags format1 fs1 = Some (e, fs')"
      "type_fs fs1 = TYPE_ERROR"
    | (prec) format1 fs1 where "read_format_string_precision format1 fs1 = Some (e, fs')"
      "type_fs fs1 = TYPE_ERROR"
    by (auto simp: read_format_string_position_def Let_def split: if_splits option.splits)
  then show ?thesis
  proof cases
    case flags
    then show ?thesis using t1 by (rule read_format_string_flags_typed)
  next
    case prec
    from read_format_string_precision_typed [OF prec t1] show ?thesis
      by (simp add: format_error_is_error_def)
  qed
qed

lemma read_format_string_typed:
  assumes rf: "read_format_string format = Some (e, fs)" and ty: "type_fs fs \<noteq> TYPE_ERROR"
  shows "format_error_is_error e
         \<longleftrightarrow> format_error_is_error (format_string_check_length_type fs)"
proof -
  from rf obtain e0 where
    p: "read_format_string_position format
          \<lparr>input_length = 0, left_justify = False, always_sign = False,
           empty_sign = False, alternate_form = False, zero_padded = False,
           preceding_width = 0, width = 0, preceding_precision = 0, precision = - 1,
           length_fs = LENGTH_none, type_fs = TYPE_ERROR, position = 0\<rparr> = Some (e0, fs)"
    and e: "e = (if format_error_is_error e0 then e0
                 else if format_error_is_error (format_string_check_length_type fs)
                 then format_string_check_length_type fs else e0)"
    by (auto simp: read_format_string_def split: option.splits if_splits)
  from read_format_string_position_typed [OF p _ ty] have "\<not> format_error_is_error e0"
    by simp
  with e show ?thesis by simp
qed

lemma narrow_length_error:
  assumes "type_fs fs = TYPE_c \<or> type_fs fs = TYPE_s"
  shows "format_error_is_error (format_string_check_length_type fs)
         \<longleftrightarrow> length_fs fs \<noteq> LENGTH_none \<and> length_fs fs \<noteq> LENGTH_l"
  using assms
  by (cases "length_fs fs")
     (auto simp: format_string_check_length_type_def format_error_is_error_def)

lemma read_format_string_narrow:
  assumes rf: "read_format_string rest = Some (err, fs)"
    and ty: "type_fs fs = TYPE_c \<or> type_fs fs = TYPE_s"
  shows "format_error_is_error err
         \<longleftrightarrow> length_fs fs \<noteq> LENGTH_none \<and> length_fs fs \<noteq> LENGTH_l"
proof -
  from ty have "type_fs fs \<noteq> TYPE_ERROR" by auto
  from read_format_string_typed [OF rf this] narrow_length_error [OF ty] show ?thesis
    by simp
qed

lemma read_format_string_percent:
  assumes rf: "read_format_string rest = Some (err, fs)" and pk: "peek rest = CHR ''%''"
  shows "type_fs fs = TYPE_ERROR"
proof -
  from pk obtain r where rest: "rest = CHR ''%'' # r"
    by (cases rest) (auto simp: peek_def NUL_def)
  from rf show ?thesis
    unfolding rest
    by (auto simp: read_format_string_def read_format_string_position_def
        read_format_string_flags_def read_format_string_width_def
        read_format_string_precision_def read_format_string_length_def
        read_format_string_type_def format_string_atoi_def is_digit_def peek_def Let_def
        split: if_splits option.splits)
qed

subsection \<open>The engine at a directive with a length that does not fit\<close>

lemma generic_printf_step_rejects:
  assumes rf: "read_format_string rest = Some (err, fs)"
    and ty: "type_fs fs = TYPE_c \<or> type_fs fs = TYPE_s"
    and bad: "length_fs fs \<noteq> LENGTH_none \<and> length_fs fs \<noteq> LENGTH_l"
  shows "generic_printf_step fmt out l CHR ''%'' rest = cleanup_and_fail out l"
proof -
  from read_format_string_percent [OF rf] ty have "peek rest \<noteq> CHR ''%''" by auto
  moreover from read_format_string_narrow [OF rf ty] bad have "format_error_is_error err"
    by simp
  ultimately show ?thesis
    by (simp add: generic_printf_step_def rf)
qed

lemma generic_printf_loop_plain_buffer:
  "buffer_inv m s S a \<Longrightarrow> plain_text plain
   \<Longrightarrow> \<exists>a'. buffer_inv m s S a'
          \<and> generic_printf_loop fmt a l (plain @ r) = generic_printf_loop fmt a' l r"
proof (induction plain arbitrary: a)
  case Nil
  then show ?case by auto
next
  case (Cons c plain)
  from Cons.prems have c: "c \<noteq> CHR ''%''" "c \<noteq> NUL" and pl: "plain_text plain"
    by (simp_all add: plain_text_def)
  from printf_output_buffer [OF Cons.prems(1), of c] obtain a1 where
    o: "printf_output a c = Inr a1" and inv1: "buffer_inv m s S a1"
    by blast
  from Cons.IH [OF inv1 pl] obtain a' where
    "buffer_inv m s S a'"
    "generic_printf_loop fmt a1 l (plain @ r) = generic_printf_loop fmt a' l r"
    by blast
  with c o show ?case
    by (auto simp: generic_printf_step_def)
qed

lemma generic_printf_initial_locals:
  "\<not> using_positions \<lparr>using_positions = False, first_element = True,
        pia = \<lparr>size_pia = 0, array_block = None, array = []\<rparr>, position_count = 0\<rparr>"
  by simp

lemma new_snprintf_rejects:
  assumes rf: "read_format_string rest = Some (err, fs)"
    and ty: "type_fs fs = TYPE_c \<or> type_fs fs = TYPE_s"
    and bad: "length_fs fs \<noteq> LENGTH_none \<and> length_fs fs \<noteq> LENGTH_l"
    and pl: "plain_text plain"
  shows "returned (new_snprintf env str S (Some (plain @ CHR ''%'' # rest)) args) = Some (- 1)"
proof (cases "S \<noteq> 0 \<and> str = None")
  case True
  then show ?thesis
    by (simp add: new_snprintf_def Let_def returned_def)
next
  case False
  then have ok: "S = 0 \<or> str \<noteq> None" by auto
  let ?a = "make_output env OUTPUT_string None str 0 0 S args"
  let ?l = "\<lparr>using_positions = False, first_element = True,
        pia = \<lparr>size_pia = 0, array_block = None, array = []\<rparr>, position_count = 0\<rparr>"
  let ?t = "plain @ CHR ''%'' # rest"
  have "buffer_inv (memory env) str S ?a"
    using make_output_twin [OF ok ok, of env args] by (simp add: twin_def)
  from generic_printf_loop_plain_buffer [OF this pl, of ?t ?l "CHR ''%'' # rest"]
  obtain a' where
    lp: "generic_printf_loop ?t ?a ?l ?t = generic_printf_loop ?t a' ?l (CHR ''%'' # rest)"
    by blast
  have "generic_printf_loop ?t a' ?l (CHR ''%'' # rest) = Inl (Failed a')"
    by (simp add: generic_printf_step_rejects [OF rf ty bad] NUL_def cleanup_and_fail_def
        cleanup_positions_def)
  with lp have "generic_printf ?a ?t = Inl (Failed a')"
    by (simp add: generic_printf_def)
  with False show ?thesis
    by (auto simp: new_snprintf_def Let_def return_count_string_def returned_def)
qed

subsection \<open>The wide length in front of a narrow type\<close>

lemma process_directive_narrow:
  assumes ty: "type_fs fs = TYPE_c \<or> type_fs fs = TYPE_s"
  shows "process_directive out l (fs\<lparr>length_fs := LENGTH_l\<rparr>)
         = process_directive out l (fs\<lparr>length_fs := LENGTH_none\<rparr>)"
proof -
  have ty: "type_fs (snd (format_string_check_unused_values fs2)) = TYPE_c
            \<or> type_fs (snd (format_string_check_unused_values fs2)) = TYPE_s"
    if "fetch_width out l fs = Some (fs1, out1)" "fetch_precision out1 l fs1 = Some (fs2, out2)"
    for fs1 out1 fs2 out2
    using that assms
    by (simp add: check_unused_values_type fetch_width_type fetch_precision_type)
  show ?thesis
    by (auto simp: process_directive_def fetch_width_length fetch_precision_length
        check_unused_values_length Let_def directive_output_narrow ty
        split: option.splits)
qed


lemma generic_printf_step_later:
  assumes nf: "\<not> first_element l"
  shows "generic_printf_step f1 out l c rest = generic_printf_step f2 out l c rest"
  using nf by (auto simp: generic_printf_step_def decide_positions_def split: option.splits)

lemma generic_printf_step_first_element:
  assumes st: "generic_printf_step f out l c rest = Inr (n, l', out')"
    and nf: "\<not> first_element l"
  shows "\<not> first_element l'"
  using st nf
  by (auto simp: generic_printf_step_def decide_positions_def cleanup_and_fail_def and_then_def
      split: if_splits option.splits sum.splits error.splits)

lemma generic_printf_loop_later:
  "\<not> first_element l
   \<Longrightarrow> generic_printf_loop f1 out l rest = generic_printf_loop f2 out l rest"
proof (induction f1 out l rest rule: generic_printf_loop.induct)
  case (1 f1 out l)
  show ?case by simp
next
  case (2 f1 out l c rest)
  show ?case
  proof (cases "c = NUL")
    case True
    then show ?thesis by simp
  next
    case False
    note st = generic_printf_step_later [OF "2.prems", of f1 out c rest f2]
    show ?thesis
    proof (cases "generic_printf_step f1 out l c rest")
      case (Inl e)
      with st have "generic_printf_step f2 out l c rest = Inl e" by simp
      with Inl False show ?thesis by simp
    next
      case (Inr p)
      obtain n l' out' where p: "p = (n, l', out')" by (cases p)
      from Inr p st have s2: "generic_printf_step f2 out l c rest = Inr (n, l', out')" by simp
      from generic_printf_step_first_element [OF Inr [unfolded p] "2.prems"]
      have "\<not> first_element l'" .
      from "2.IH" [OF False Inr p [symmetric] refl this]
      have "generic_printf_loop f1 out' l' (drop n rest)
            = generic_printf_loop f2 out' l' (drop n rest)" .
      with Inr p s2 False show ?thesis by simp
    qed
  qed
qed

lemma generic_printf_loop_plain:
  assumes pl: "plain_text plain"
    and r: "\<And>a. generic_printf_loop f1 a l r1 = generic_printf_loop f2 a l r2"
  shows "generic_printf_loop f1 a l (plain @ r1) = generic_printf_loop f2 a l (plain @ r2)"
  using pl
proof (induction plain arbitrary: a)
  case Nil
  show ?case by (simp add: r)
next
  case (Cons c plain)
  then have c: "c \<noteq> CHR ''%''" "c \<noteq> NUL" and pl: "plain_text plain"
    by (simp_all add: plain_text_def)
  from c Cons.IH [OF pl] show ?case
    by (auto simp: generic_printf_step_def cleanup_and_fail_def
        split: sum.splits error.splits option.splits)
qed

lemma read_format_string_wide:
  "read_format_string (CHR ''l'' # CHR ''c'' # tail)
   = Some (FORMAT_okay, (plain_directive TYPE_c)\<lparr>length_fs := LENGTH_l, input_length := 2\<rparr>)"
  "read_format_string (CHR ''l'' # CHR ''s'' # tail)
   = Some (FORMAT_okay, (plain_directive TYPE_s)\<lparr>length_fs := LENGTH_l, input_length := 2\<rparr>)"
  "read_format_string (CHR ''c'' # tail) = Some (FORMAT_okay, plain_directive TYPE_c)"
  "read_format_string (CHR ''s'' # tail) = Some (FORMAT_okay, plain_directive TYPE_s)"
  by (simp_all add: read_format_string_def read_format_string_position_def
      read_format_string_flags_def read_format_string_width_def
      read_format_string_precision_def read_format_string_length_def
      read_format_string_type_def format_string_atoi_def is_digit_def peek_def Let_def
      format_string_check_length_type_def format_error_is_error_def plain_directive_def)

lemma write_character_input_length:
  "write_character out v (fs\<lparr>input_length := x\<rparr>) = write_character out v fs"
  by (simp add: write_character_def write_backwards_buffer_with_padding_def Let_def cong: if_cong)

lemma write_string_input_length:
  "write_string out s (fs\<lparr>input_length := x\<rparr>) = write_string out s fs"
  by (simp add: write_string_def Let_def cong: option.case_cong if_cong)

lemma directive_output_input_length:
  assumes "type_fs fs = TYPE_c \<or> type_fs fs = TYPE_s"
  shows "directive_output out l (fs\<lparr>input_length := x\<rparr>) = directive_output out l fs"
  using assms
  by (auto simp: directive_output_def pop_or_load_character_def pop_or_load_string_def
      write_character_input_length write_string_input_length)

lemma fetch_width_input_length:
  "fetch_width out l (fs\<lparr>input_length := x\<rparr>)
   = map_option (\<lambda>(fs', out'). (fs'\<lparr>input_length := x\<rparr>, out')) (fetch_width out l fs)"
  by (auto simp: fetch_width_def split: option.splits)

lemma fetch_precision_input_length:
  "fetch_precision out l (fs\<lparr>input_length := x\<rparr>)
   = map_option (\<lambda>(fs', out'). (fs'\<lparr>input_length := x\<rparr>, out')) (fetch_precision out l fs)"
  by (auto simp: fetch_precision_def split: option.splits)

lemma check_unused_values_input_length:
  "snd (format_string_check_unused_values (fs\<lparr>input_length := x\<rparr>))
   = (snd (format_string_check_unused_values fs))\<lparr>input_length := x\<rparr>"
proof -
  have "fold apply_rule unused_value_rules (FORMAT_okay, (\<lambda>fs. fs\<lparr>input_length := x\<rparr>) fs)
        = apsnd (\<lambda>fs. fs\<lparr>input_length := x\<rparr>)
            (fold apply_rule unused_value_rules (FORMAT_okay, fs))"
    by (rule fold_rules_commute) (simp add: unused_value_rules_def)
  then show ?thesis by (simp add: format_string_check_unused_values_def)
qed

lemma process_directive_input_length:
  assumes "type_fs fs = TYPE_c \<or> type_fs fs = TYPE_s"
  shows "process_directive out l (fs\<lparr>input_length := x\<rparr>) = process_directive out l fs"
proof -
  have ty: "type_fs (snd (format_string_check_unused_values fs2)) = TYPE_c
            \<or> type_fs (snd (format_string_check_unused_values fs2)) = TYPE_s"
    if "fetch_width out l fs = Some (fs1, out1)" "fetch_precision out1 l fs1 = Some (fs2, out2)"
    for fs1 out1 fs2 out2
    using that assms
    by (simp add: check_unused_values_type fetch_width_type fetch_precision_type)
  show ?thesis
    by (auto simp: process_directive_def fetch_width_input_length fetch_precision_input_length
        check_unused_values_input_length Let_def directive_output_input_length ty
        split: option.splits)
qed

lemma process_directive_wide:
  assumes ty: "ty = TYPE_c \<or> ty = TYPE_s"
  shows "process_directive out l ((plain_directive ty)\<lparr>length_fs := LENGTH_l, input_length := 2\<rparr>)
         = process_directive out l (plain_directive ty)"
proof -
  have t: "type_fs (plain_directive ty) = TYPE_c \<or> type_fs (plain_directive ty) = TYPE_s"
    using ty by (simp add: plain_directive_def)
  then have t': "type_fs ((plain_directive ty)\<lparr>length_fs := LENGTH_l\<rparr>) = TYPE_c
                 \<or> type_fs ((plain_directive ty)\<lparr>length_fs := LENGTH_l\<rparr>) = TYPE_s"
    by simp
  have a: "process_directive out l
             ((plain_directive ty)\<lparr>length_fs := LENGTH_l, input_length := 2\<rparr>)
           = process_directive out l ((plain_directive ty)\<lparr>length_fs := LENGTH_l\<rparr>)"
    by (rule process_directive_input_length [OF t'])
  have b: "process_directive out l ((plain_directive ty)\<lparr>length_fs := LENGTH_l\<rparr>)
           = process_directive out l ((plain_directive ty)\<lparr>length_fs := LENGTH_none\<rparr>)"
    by (rule process_directive_narrow [OF t])
  have c: "(plain_directive ty)\<lparr>length_fs := LENGTH_none\<rparr> = plain_directive ty"
    by (simp add: plain_directive_def)
  show ?thesis
    by (simp only: a b c)
qed

lemma generic_printf_wide:
  assumes pl: "plain_text plain" and t: "t = CHR ''c'' \<or> t = CHR ''s''"
  shows "generic_printf out (plain @ ''%l'' @ t # tail) = generic_printf out (plain @ ''%'' @ t # tail)"
proof -
  define ty where "ty = (if t = CHR ''c'' then TYPE_c else TYPE_s)"
  define l0 where
    "l0 = \<lparr>using_positions = False, first_element = True,
            pia = \<lparr>size_pia = 0, array_block = None, array = []\<rparr>, position_count = 0\<rparr>"
  define l1 where "l1 = l0\<lparr>first_element := False\<rparr>"
  define f1 where "f1 = plain @ ''%l'' @ t # tail"
  define f2 where "f2 = plain @ ''%'' @ t # tail"
  define fl where "fl = (plain_directive ty)\<lparr>length_fs := LENGTH_l, input_length := 2\<rparr>"
  define fn where "fn = plain_directive ty"
  from t have ty: "ty = TYPE_c \<or> ty = TYPE_s" by (auto simp: ty_def)
  have rf1: "read_format_string (CHR ''l'' # t # tail) = Some (FORMAT_okay, fl)"
    and rf2: "read_format_string (t # tail) = Some (FORMAT_okay, fn)"
    using t by (auto simp: read_format_string_wide fl_def fn_def ty_def)
  have fields: "position fl = 0" "position fn = 0" "input_length fl = 2" "input_length fn = 1"
    by (simp_all add: fl_def fn_def plain_directive_def)
  have l1: "\<not> first_element l1" "\<not> using_positions l1"
    and l0: "first_element l0" "\<not> using_positions l0"
    by (simp_all add: l1_def l0_def)
  have pk: "peek (CHR ''l'' # t # tail) \<noteq> CHR ''%''" "peek (t # tail) \<noteq> CHR ''%''"
    using t by (auto simp: peek_def)
  have dp: "decide_positions f a l0 fl = Inr (l1, a)" "decide_positions f a l0 fn = Inr (l1, a)"
    for f a
    by (simp_all add: decide_positions_def fields l1_def)
  have ne: "\<not> format_error_is_error FORMAT_okay"
    by (simp add: format_error_is_error_def)
  have s1: "generic_printf_step f1 a l0 CHR ''%'' (CHR ''l'' # t # tail)
            = and_then (process_directive a l1 fl) (\<lambda>out''. Inr (2, l1, out''))" for a
    by (simp add: generic_printf_step_def pk rf1 ne dp fields l1)
  have s2: "generic_printf_step f2 a l0 CHR ''%'' (t # tail)
            = and_then (process_directive a l1 fn) (\<lambda>out''. Inr (1, l1, out''))" for a
    by (simp add: generic_printf_step_def pk rf2 ne dp fields l1)
  have pw: "process_directive a l1 fl = process_directive a l1 fn" for a
    unfolding fl_def fn_def by (rule process_directive_wide [OF ty])
  have later: "generic_printf_loop f1 a l1 tail = generic_printf_loop f2 a l1 tail" for a
    by (rule generic_printf_loop_later [OF l1(1)])
  have "generic_printf_loop f1 a l0 (CHR ''%'' # CHR ''l'' # t # tail)
        = generic_printf_loop f2 a l0 (CHR ''%'' # t # tail)" for a
  proof (cases "process_directive a l1 fn")
    case (Inl e)
    then show ?thesis
      by (simp add: s1 s2 pw NUL_def)
  next
    case (Inr a')
    then show ?thesis
      by (simp add: s1 s2 pw NUL_def later)
  qed
  from generic_printf_loop_plain [OF pl this, of out]
  have "generic_printf_loop f1 out l0 (plain @ CHR ''%'' # CHR ''l'' # t # tail)
        = generic_printf_loop f2 out l0 (plain @ CHR ''%'' # t # tail)" .
  then show ?thesis
    by (simp add: generic_printf_def l0_def f1_def f2_def)
qed

lemma new_snprintf_wide:
  assumes pl: "plain_text plain" and t: "t = CHR ''c'' \<or> t = CHR ''s''"
  shows "new_snprintf env str S (Some (plain @ ''%l'' @ t # tail)) args
         = new_snprintf env str S (Some (plain @ ''%'' @ t # tail)) args"
  by (simp only: new_snprintf_def generic_printf_wide [OF pl t] option.case)

lemma positional_wide_conflict:
  "returned (new_snprintf empty_world (Some 0) 30 (Some ''%1$lc%1$c'') [VA_int 65]) = Some (- 1)"
  "returned (new_snprintf empty_world (Some 0) 30 (Some ''%1$c%1$c'') [VA_int 65]) = Some 2"
  by code_simp+

text \<open>
  C9, as the source has it. For a directive of type \<^verbatim>\<open>c\<close> or \<^verbatim>\<open>s\<close>:
  \<^item> the validator's error is exactly a length other than none and \<^verbatim>\<open>l\<close>, and so is
    the error \<^verbatim>\<open>read_format_string\<close> returns for the directive it has parsed;
  \<^item> with such a length the engine fails at the directive whenever it reaches it
    (\<open>generic_printf_step\<close> is the cleanup and \<^verbatim>\<open>return false\<close>), and
    \<^verbatim>\<open>new_snprintf\<close> on a template that has it as first directive returns \<open>-1\<close>;
  \<^item> with \<^verbatim>\<open>l\<close> the directive passes, and from the fetch of its \<^verbatim>\<open>*\<close> values to its
    output it does what the directive without a length does: the argument is read and
    written as a narrow character or string;
  \<^item> a template whose first directive is \<^verbatim>\<open>%lc\<close> or \<^verbatim>\<open>%ls\<close> gives what the template with
    \<^verbatim>\<open>%c\<close> or \<^verbatim>\<open>%s\<close> in its place gives, on every sink;
  \<^item> with positions the slot records the length, so one slot read as \<^verbatim>\<open>%1$lc\<close> and as
    \<^verbatim>\<open>%1$c\<close> is a conflict of the scan: \<^verbatim>\<open>%1$lc%1$c\<close> returns \<open>-1\<close> where
    \<^verbatim>\<open>%1$c%1$c\<close> returns 2.
\<close>

theorem wide_length_accepted:
  "(type_fs fs = TYPE_c \<or> type_fs fs = TYPE_s \<longrightarrow>
      (format_error_is_error (format_string_check_length_type fs)
         \<longleftrightarrow> length_fs fs \<noteq> LENGTH_none \<and> length_fs fs \<noteq> LENGTH_l)
      \<and> process_directive out l (fs\<lparr>length_fs := LENGTH_l\<rparr>)
        = process_directive out l (fs\<lparr>length_fs := LENGTH_none\<rparr>))
   \<and> (read_format_string rest = Some (err, pfs)
        \<and> (type_fs pfs = TYPE_c \<or> type_fs pfs = TYPE_s) \<longrightarrow>
      (format_error_is_error err
         \<longleftrightarrow> length_fs pfs \<noteq> LENGTH_none \<and> length_fs pfs \<noteq> LENGTH_l)
      \<and> (length_fs pfs \<noteq> LENGTH_none \<and> length_fs pfs \<noteq> LENGTH_l \<longrightarrow>
           generic_printf_step fmt out l CHR ''%'' rest = cleanup_and_fail out l
           \<and> (plain_text plain \<longrightarrow>
                returned (new_snprintf env str S (Some (plain @ CHR ''%'' # rest)) args)
                  = Some (- 1))))
   \<and> (plain_text plain \<and> (t = CHR ''c'' \<or> t = CHR ''s'') \<longrightarrow>
        generic_printf out (plain @ ''%l'' @ t # tail)
          = generic_printf out (plain @ ''%'' @ t # tail)
        \<and> new_snprintf env str S (Some (plain @ ''%l'' @ t # tail)) args
          = new_snprintf env str S (Some (plain @ ''%'' @ t # tail)) args)
   \<and> returned (new_snprintf empty_world (Some 0) 30 (Some ''%1$lc%1$c'') [VA_int 65])
       = Some (- 1)
   \<and> returned (new_snprintf empty_world (Some 0) 30 (Some ''%1$c%1$c'') [VA_int 65]) = Some 2"
proof -
  have c1: "type_fs fs = TYPE_c \<or> type_fs fs = TYPE_s \<longrightarrow>
      (format_error_is_error (format_string_check_length_type fs)
         \<longleftrightarrow> length_fs fs \<noteq> LENGTH_none \<and> length_fs fs \<noteq> LENGTH_l)
      \<and> process_directive out l (fs\<lparr>length_fs := LENGTH_l\<rparr>)
        = process_directive out l (fs\<lparr>length_fs := LENGTH_none\<rparr>)"
    using narrow_length_error [of fs] process_directive_narrow [of fs out l] by blast
  have c2: "read_format_string rest = Some (err, pfs)
        \<and> (type_fs pfs = TYPE_c \<or> type_fs pfs = TYPE_s) \<longrightarrow>
      (format_error_is_error err
         \<longleftrightarrow> length_fs pfs \<noteq> LENGTH_none \<and> length_fs pfs \<noteq> LENGTH_l)
      \<and> (length_fs pfs \<noteq> LENGTH_none \<and> length_fs pfs \<noteq> LENGTH_l \<longrightarrow>
           generic_printf_step fmt out l CHR ''%'' rest = cleanup_and_fail out l
           \<and> (plain_text plain \<longrightarrow>
                returned (new_snprintf env str S (Some (plain @ CHR ''%'' # rest)) args)
                  = Some (- 1)))"
  proof (intro impI, elim conjE)
    assume rf: "read_format_string rest = Some (err, pfs)"
      and ty: "type_fs pfs = TYPE_c \<or> type_fs pfs = TYPE_s"
    note a = read_format_string_narrow [OF rf ty]
    have b: "generic_printf_step fmt out l CHR ''%'' rest = cleanup_and_fail out l"
      if "length_fs pfs \<noteq> LENGTH_none \<and> length_fs pfs \<noteq> LENGTH_l"
      using generic_printf_step_rejects [OF rf ty that] .
    have c: "returned (new_snprintf env str S (Some (plain @ CHR ''%'' # rest)) args)
               = Some (- 1)"
      if "length_fs pfs \<noteq> LENGTH_none \<and> length_fs pfs \<noteq> LENGTH_l" "plain_text plain"
      using new_snprintf_rejects [OF rf ty that] .
    from a b c show "(format_error_is_error err
         \<longleftrightarrow> length_fs pfs \<noteq> LENGTH_none \<and> length_fs pfs \<noteq> LENGTH_l)
      \<and> (length_fs pfs \<noteq> LENGTH_none \<and> length_fs pfs \<noteq> LENGTH_l \<longrightarrow>
           generic_printf_step fmt out l CHR ''%'' rest = cleanup_and_fail out l
           \<and> (plain_text plain \<longrightarrow>
                returned (new_snprintf env str S (Some (plain @ CHR ''%'' # rest)) args)
                  = Some (- 1)))"
      by blast
  qed
  have c3: "plain_text plain \<and> (t = CHR ''c'' \<or> t = CHR ''s'') \<longrightarrow>
        generic_printf out (plain @ ''%l'' @ t # tail)
          = generic_printf out (plain @ ''%'' @ t # tail)
        \<and> new_snprintf env str S (Some (plain @ ''%l'' @ t # tail)) args
          = new_snprintf env str S (Some (plain @ ''%'' @ t # tail)) args"
    using generic_printf_wide [of plain t out tail] new_snprintf_wide [of plain t env str S tail args]
    by blast
  show ?thesis
    apply (rule conjI, rule c1)
    apply (rule conjI, rule c2)
    apply (rule conjI, rule c3)
    apply (rule conjI, rule positional_wide_conflict(1))
    apply (rule positional_wide_conflict(2))
    done
qed

theorem wide_length_accepted_witness:
  "read_format_string ''hc''
     = Some (FORMAT_ERROR_incompatible_length_type,
         (plain_directive TYPE_c)\<lparr>length_fs := LENGTH_h, input_length := 2\<rparr>)
   \<and> generic_printf_step ''ab%hc'' (buffer_sink 30 [VA_int 65]) sequential CHR ''%'' ''hc''
     = cleanup_and_fail (buffer_sink 30 [VA_int 65]) sequential
   \<and> returned (new_snprintf empty_world (Some 0) 30 (Some ''ab%hc'') [VA_int 65]) = Some (- 1)
   \<and> new_snprintf empty_world (Some 0) 30 (Some ''ab%lc!'') [VA_int 65]
     = new_snprintf empty_world (Some 0) 30 (Some ''ab%c!'') [VA_int 65]
   \<and> returned (new_snprintf empty_world (Some 0) 30 (Some ''ab%c!'') [VA_int 65]) = Some 4
   \<and> \<not> format_error_is_error
       (format_string_check_length_type ((plain_directive TYPE_c)\<lparr>length_fs := LENGTH_l\<rparr>))
   \<and> process_directive (buffer_sink 30 [VA_int 65]) sequential
        ((plain_directive TYPE_c)\<lparr>length_fs := LENGTH_l\<rparr>)
     = process_directive (buffer_sink 30 [VA_int 65]) sequential
        ((plain_directive TYPE_c)\<lparr>length_fs := LENGTH_none\<rparr>)"
proof -
  let ?pfs = "(plain_directive TYPE_c)\<lparr>length_fs := LENGTH_h, input_length := 2\<rparr>"
  let ?fs = "(plain_directive TYPE_c)\<lparr>length_fs := LENGTH_l\<rparr>"
  have rf: "read_format_string ''hc'' = Some (FORMAT_ERROR_incompatible_length_type, ?pfs)"
    by code_simp
  have pl: "plain_text ''ab''"
    by (simp add: plain_text_def NUL_def)
  have ret: "returned (new_snprintf empty_world (Some 0) 30 (Some ''ab%c!'') [VA_int 65]) = Some 4"
    by code_simp
  note t = wide_length_accepted [where fs = ?fs and out = "buffer_sink 30 [VA_int 65]"
      and l = sequential and rest = "''hc''" and err = FORMAT_ERROR_incompatible_length_type
      and pfs = ?pfs and fmt = "''ab%hc''" and plain = "''ab''" and env = empty_world
      and str = "Some 0" and S = 30 and args = "[VA_int 65]" and t = "CHR ''c''"
      and tail = "''!''"]
  note t1 = t [THEN conjunct1, rule_format]
  note t2 = t [THEN conjunct2, THEN conjunct1, rule_format]
  note t3 = t [THEN conjunct2, THEN conjunct2, THEN conjunct1, rule_format]
  have ty: "type_fs ?fs = TYPE_c \<or> type_fs ?fs = TYPE_s"
    and pty: "type_fs ?pfs = TYPE_c \<or> type_fs ?pfs = TYPE_s"
    and bad: "length_fs ?pfs \<noteq> LENGTH_none \<and> length_fs ?pfs \<noteq> LENGTH_l"
    by (simp_all add: plain_directive_def)
  from t1 [OF ty] have v: "\<not> format_error_is_error (format_string_check_length_type ?fs)"
    and p: "process_directive (buffer_sink 30 [VA_int 65]) sequential ?fs
            = process_directive (buffer_sink 30 [VA_int 65]) sequential
                ((plain_directive TYPE_c)\<lparr>length_fs := LENGTH_none\<rparr>)"
    by simp_all
  from t2 [OF conjI [OF rf pty]] bad pl
  have st: "generic_printf_step ''ab%hc'' (buffer_sink 30 [VA_int 65]) sequential CHR ''%'' ''hc''
            = cleanup_and_fail (buffer_sink 30 [VA_int 65]) sequential"
    and rj: "returned (new_snprintf empty_world (Some 0) 30 (Some (''ab'' @ CHR ''%'' # ''hc''))
               [VA_int 65]) = Some (- 1)"
    by blast+
  from t3 [OF conjI [OF pl]]
  have w: "new_snprintf empty_world (Some 0) 30 (Some (''ab'' @ ''%l'' @ CHR ''c'' # ''!''))
             [VA_int 65]
           = new_snprintf empty_world (Some 0) 30 (Some (''ab'' @ ''%'' @ CHR ''c'' # ''!''))
             [VA_int 65]"
    by simp
  from rf st rj w ret v p show ?thesis
    by simp
qed

text \<open>
  C9, as the claim states it, fails: \<^verbatim>\<open>%lc\<close> with the argument 65 is not rejected; the
  call returns 1 and the buffer holds \<^verbatim>\<open>A\<close> and the terminator.
\<close>

theorem wide_character_counterexample:
  "returned (new_snprintf empty_world (Some 0) 30 (Some ''%lc'') [VA_int 65]) = Some 1
   \<and> buffer_after 2 (new_snprintf empty_world (Some 0) 30 (Some ''%lc'') [VA_int 65])
       = Some [Some CHR ''A'', Some NUL]"
  by code_simp

end
